(* ===== verification/Prelude.thy ===== *)
theory Prelude
  imports Main "HOL-Library.Word" "HOL-Library.Monad_Syntax"
begin

unbundle bit_operations_syntax

text \<open>
  Shared vocabulary of the development: the machine integers of the C sources, the
  little-endian memory image of a \<open>uint16_t\<close>, bounded C strings and buffers, the heap,
  and the world the user-space programs run in.

  Everything the programs ask of the operating system, of libbpf's object loader and of the
  terminal is an \<^emph>\<open>external call\<close>. The environment answers a call from the calls made so
  far, so quantifying over the environment covers every behaviour of the outside. A definition
  returns \<^term>\<open>None\<close> exactly where the C program has undefined behaviour or aborts (a write
  past a buffer, a dereference of a null or dead pointer, a failed assertion).
\<close>

section \<open>Machine integers and their memory image\<close>

type_synonym u8 = "8 word"
type_synonym u16 = "16 word"
type_synonym u32 = "32 word"
type_synonym u64 = "64 word"
type_synonym byte = "8 word"

named_theorems c_buf \<comment> \<open>buffers and strings: lengths and contents after a bounded write\<close>
named_theorems c_call \<comment> \<open>external calls: effect on the trace, on errno and on the heap\<close>
named_theorems c_unat \<comment> \<open>unsigned values of word expressions\<close>

definition get16 :: "byte \<Rightarrow> byte \<Rightarrow> u16" where
  "get16 b0 b1 = ucast b0 + 256 * ucast b1"

definition le16 :: "u16 \<Rightarrow> byte list" where
  "le16 x = [ucast x, ucast (drop_bit 8 x)]"

definition htons :: "u16 \<Rightarrow> u16" where
  "htons x = get16 (ucast (drop_bit 8 x)) (ucast x)"

text \<open>A 32-bit word at an offset of what a call wrote; missing bytes read as zero.\<close>

definition get32 :: "byte list \<Rightarrow> nat \<Rightarrow> u32" where
  "get32 bs off =
     (let b = (\<lambda>i. if off + i < length bs then ucast (bs ! (off + i)) else (0 :: u32))
      in b 0 + push_bit 8 (b 1) + push_bit 16 (b 2) + push_bit 24 (b 3))"

definition get64 :: "byte list \<Rightarrow> nat \<Rightarrow> u64" where
  "get64 bs i = ucast (get32 bs i) + push_bit 32 (ucast (get32 bs (i + 4)))"

section \<open>Bounded strings and buffers\<close>

text \<open>\<open>snprintf(buf, n, ...)\<close> stores at most \<open>n - 1\<close> characters and the terminator.\<close>

definition snprintf :: "nat \<Rightarrow> string \<Rightarrow> string" where
  "snprintf n s = take (n - 1) s"

text \<open>\<open>strcpy\<close> into an array of \<open>n\<close> characters: the terminator has to fit too.\<close>

definition strcpy :: "nat \<Rightarrow> string \<Rightarrow> string option" where
  "strcpy n s = (if length s < n then Some s else None)"

text \<open>\<open>memcpy(buf + off, bs, length bs)\<close> into a buffer given by its contents.\<close>

definition memcpy :: "byte list \<Rightarrow> nat \<Rightarrow> byte list \<Rightarrow> byte list option" where
  "memcpy buf off bs =
     (if off + length bs \<le> length buf
      then Some (take off buf @ bs @ drop (off + length bs) buf) else None)"

section \<open>External calls\<close>

datatype sock_call =
    Socket int int int                  \<comment> \<open>domain, type, protocol\<close>
  | Setsockopt int int int              \<comment> \<open>descriptor, level, option\<close>
  | Setsockopt_int int int int int      \<comment> \<open>descriptor, level, option, value\<close>
  | SetsockoptIf int string             \<comment> \<open>\<open>SO_BINDTODEVICE\<close> with the \<open>ifreq\<close> of an interface\<close>
  | Ioctl int int string                \<comment> \<open>descriptor, request, interface name in the \<open>ifreq\<close>\<close>
  | Ioctl_int int int int               \<comment> \<open>descriptor, request, value\<close>
  | Close int
  | Bind int string u16                 \<comment> \<open>descriptor, address, port in network order\<close>
  | Listen int int
  | Connect int string u16
  | Accept int
  | Sendto int "byte list" "byte list"  \<comment> \<open>descriptor, packet, destination address\<close>
  | Send int "byte list"
  | Recv int nat
  | Poll int
  | Getaddrinfo string
  | If_nametoindex string
  | Setrlimit
  | System string
  | Fopen string
  | Fclose
  | Getmntent
  | Open_path string
  | Getsockopt int int int              \<comment> \<open>descriptor, level, option\<close>
  | Umem_reg int nat u64 u32 u32        \<comment> \<open>\<open>XDP_UMEM_REG\<close>: descriptor, area, size, frame size, headroom\<close>
  | Mmap u64 int int                    \<comment> \<open>length, descriptor, offset; answers -1 on failure\<close>
  | Munmap u64 u64                      \<comment> \<open>address, length\<close>
  | Bind_xdp int int u32 u16            \<comment> \<open>descriptor, interface index, queue, flags\<close>
  | Ethtool_channels int string         \<comment> \<open>\<open>SIOCETHTOOL\<close> with \<open>ETHTOOL_GCHANNELS\<close> on an interface\<close>
  | Findalldevs                         \<comment> \<open>\<open>pcap_findalldevs\<close>\<close>
  | Bind_nl int                         \<comment> \<open>descriptor, with a zero netlink address\<close>
  | Getsockname int                     \<comment> \<open>the address is the data of the reply\<close>
  | Time
  | Statfs string                       \<comment> \<open>the type of the file system is the first word of the data\<close>
  | Stat string
  | Access string
  | Mkdir string int
  | Mount string string string          \<comment> \<open>source, target, type\<close>

text \<open>A BPF instruction: \<open>struct bpf_insn\<close>.\<close>

record bpf_insn =
  bi_code :: u8
  bi_dst :: nat
  bi_src :: nat
  bi_off :: int
  bi_imm :: int

datatype bpf_call =
    Xsk_umem_create nat u64             \<comment> \<open>packet buffer, its size\<close>
  | Xsk_socket_create string int int u32 u16 \<comment> \<open>interface, queue, umem, XDP flags, bind flags\<close>
  | Xsk_socket_delete int
  | Xsk_umem_delete int
  | Get_link_xdp_id int u32
  | Set_link_xdp_fd int int u32         \<comment> \<open>interface index, program descriptor, flags\<close>
  | Prog_load_xattr string int          \<comment> \<open>file, interface index for offload\<close>
  | Object_open string
  | Object_open_xattr string
  | Object_load int
  | Object_close int
  | Obj_get string
  | Obj_get_info_by_fd int
  | Map_reuse_fd int int
  | Map_pin int string
  | Pin_maps int string
  | Set_prog_type int int
  | Set_attach_type int int
  | Set_prog_ifindex int int
  | Set_map_ifindex int int
  | Map_update int "byte list" int int  \<comment> \<open>map, key, value, flags\<close>
  | Map_lookup int "byte list"
  | Map_update_elem int "byte list" "byte list" int \<comment> \<open>map, key, value as bytes, flags\<close>
  | Map_update32 int u32 int            \<comment> \<open>map, 32-bit key, value\<close>
  | Map_delete32 int u32
  | Load_program "bpf_insn list"
  | Create_map string int               \<comment> \<open>an \<open>XSKMAP\<close> with that name and number of entries\<close>
  | Prog_fd_by_id u32
  | Map_fd_by_id u32
  | Prog_info int u32                   \<comment> \<open>\<open>bpf_obj_get_info_by_fd\<close> on a program, with room for some map ids\<close>
  | Map_info int                        \<comment> \<open>\<open>bpf_obj_get_info_by_fd\<close> on a map; the name is the text\<close>
  | Prog_attach int int int int         \<comment> \<open>program, target, attach type, flags\<close>
  | Prog_detach int int int

datatype sys_call =
    Sock sock_call
  | Bpf bpf_call
  | Malloc nat
  | Calloc nat
  | Memalign nat
  | Spawn string                        \<comment> \<open>\<open>pthread_create\<close> of the named thread body\<close>
  | Join string

record reply =
  rv :: int             \<comment> \<open>the returned value; 0 is a null pointer for a call that allocates\<close>
  rerr :: int           \<comment> \<open>the value stored in \<open>errno\<close>, 0 when the call leaves it alone\<close>
  rdata :: "byte list"  \<comment> \<open>what the call wrote through its pointer arguments\<close>
  rtext :: string       \<comment> \<open>the string such a call returned\<close>

text \<open>
  Besides the answers, the environment holds the pure accessors of the C library and of a
  loaded BPF object: \<open>strerror\<close>, the programs and maps of an object in iteration order, and
  their names and descriptors. \<open>ring_counters\<close>, \<open>ring_addrs\<close> and \<open>ring_descs\<close> are what the
  kernel put into a freshly mapped AF\_XDP ring: its producer, consumer and flag words and its
  array.
\<close>

record xdp_desc =
  desc_addr :: u64
  desc_len :: u32

record env =
  answer :: "(sys_call \<times> reply) list \<Rightarrow> sys_call \<Rightarrow> reply"
  strerror :: "int \<Rightarrow> string"
  obj_programs :: "int \<Rightarrow> int list"
  obj_maps :: "int \<Rightarrow> int list"
  map_name :: "int \<Rightarrow> string"
  map_fd_of :: "int \<Rightarrow> int"
  map_offload_neutral :: "int \<Rightarrow> bool"
  prog_title :: "int \<Rightarrow> string"
  prog_fd_of :: "int \<Rightarrow> int"
  ring_counters :: "string \<Rightarrow> u32 \<times> u32 \<times> u32"
  ring_addrs :: "string \<Rightarrow> u64 list"
  ring_descs :: "string \<Rightarrow> xdp_desc list"

record world =
  trace :: "(sys_call \<times> reply) list"  \<comment> \<open>oldest call first\<close>
  errno :: int
  heap :: "nat \<rightharpoonup> byte list"           \<comment> \<open>the live blocks and their contents\<close>
  fresh :: nat                          \<comment> \<open>the last address the allocator handed out\<close>
  err_buf :: string                     \<comment> \<open>the caller's error buffer\<close>

definition sys :: "env \<Rightarrow> sys_call \<Rightarrow> 'a world_scheme \<Rightarrow> reply \<times> 'a world_scheme" where
  "sys env c w =
     (let r = answer env (trace w) c
      in (r, w\<lparr>trace := trace w @ [(c, r)],
               errno := (if rerr r = 0 then errno w else rerr r)\<rparr>))"

definition call :: "env \<Rightarrow> sys_call \<Rightarrow> 'a world_scheme \<Rightarrow> int \<times> 'a world_scheme" where
  "call env c w = (let (r, w') = sys env c w in (rv r, w'))"

definition calls :: "'a world_scheme \<Rightarrow> sys_call list" where
  "calls w = map fst (trace w)"

definition VTL_ERRBUF_SIZE :: nat where "VTL_ERRBUF_SIZE = 256"

definition set_err :: "string \<Rightarrow> 'a world_scheme \<Rightarrow> 'a world_scheme" where
  "set_err s w = w\<lparr>err_buf := snprintf VTL_ERRBUF_SIZE s\<rparr>"

section \<open>The heap\<close>

text \<open>
  The allocator may refuse (reply 0); otherwise it hands out an address it has not used before.
  \<open>malloc\<close> leaves the contents to the environment, \<open>calloc\<close> clears them.
\<close>

definition new_block :: "byte list \<Rightarrow> 'a world_scheme \<Rightarrow> nat \<times> 'a world_scheme" where
  "new_block bs w =
     (Suc (fresh w), w\<lparr>heap := (heap w)(Suc (fresh w) \<mapsto> bs), fresh := Suc (fresh w)\<rparr>)"

definition c_malloc :: "env \<Rightarrow> nat \<Rightarrow> 'a world_scheme \<Rightarrow> nat \<times> 'a world_scheme" where
  "c_malloc env n w =
     (let (r, w1) = sys env (Malloc n) w
      in if rv r = 0 then (0, w1)
         else new_block (take n (rdata r @ replicate n 0)) w1)"

definition c_calloc :: "env \<Rightarrow> nat \<Rightarrow> 'a world_scheme \<Rightarrow> nat \<times> 'a world_scheme" where
  "c_calloc env n w =
     (let (r, w1) = sys env (Calloc n) w
      in if rv r = 0 then (0, w1) else new_block (replicate n 0) w1)"

text \<open>\<open>free(NULL)\<close> does nothing; freeing anything but a live block is undefined.\<close>

definition c_free :: "nat \<Rightarrow> 'a world_scheme \<Rightarrow> 'a world_scheme option" where
  "c_free p w =
     (if p = 0 then Some w
      else if heap w p = None then None
      else Some (w\<lparr>heap := (heap w)(p := None)\<rparr>))"

text \<open>\<open>memcpy\<close> to and from a block; outside the block, or on a dead one, it is undefined.\<close>

definition heap_write :: "nat \<Rightarrow> nat \<Rightarrow> byte list \<Rightarrow> 'a world_scheme \<Rightarrow> 'a world_scheme option" where
  "heap_write p off bs w = do {
     b \<leftarrow> heap w p;
     b' \<leftarrow> memcpy b off bs;
     Some (w\<lparr>heap := (heap w)(p \<mapsto> b')\<rparr>)
   }"

definition heap_read :: "nat \<Rightarrow> nat \<Rightarrow> 'a world_scheme \<Rightarrow> byte list option" where
  "heap_read p n w = do {
     b \<leftarrow> heap w p;
     if n \<le> length b then Some (take n b) else None
   }"

definition heap_ok :: "'a world_scheme \<Rightarrow> bool" where
  "heap_ok w \<longleftrightarrow> (\<forall>p \<in> dom (heap w). 0 < p \<and> p \<le> fresh w)"

text \<open>What has been asked of the environment since an earlier world, with the replies.\<close>

definition grows :: "'a world_scheme \<Rightarrow> 'b world_scheme \<Rightarrow> bool" where
  "grows w w' \<longleftrightarrow> (\<exists>t. trace w' = trace w @ t)"

definition since :: "'a world_scheme \<Rightarrow> 'b world_scheme \<Rightarrow> (sys_call \<times> reply) list" where
  "since w w' = drop (length (trace w)) (trace w')"

section \<open>An environment in which every call succeeds\<close>

definition good_reply :: "int \<Rightarrow> reply" where
  "good_reply v = \<lparr>rv = v, rerr = 0, rdata = [], rtext = []\<rparr>"

definition good_env :: env where
  "good_env =
     \<lparr>answer = (\<lambda>t c. case c of Malloc n \<Rightarrow> good_reply 1 | Calloc n \<Rightarrow> good_reply 1 | _ \<Rightarrow> good_reply 0),
      strerror = (\<lambda>e. ''error''), obj_programs = (\<lambda>ob. [5]), obj_maps = (\<lambda>ob. [6]),
      map_name = (\<lambda>m. ''xsks_map''), map_fd_of = (\<lambda>m. 7), map_offload_neutral = (\<lambda>m. False),
      prog_title = (\<lambda>p. ''xdp_sock''), prog_fd_of = (\<lambda>p. 8), ring_counters = (\<lambda>n. (0, 0, 0)),
      ring_addrs = (\<lambda>n. replicate 2048 0), ring_descs = (\<lambda>n. replicate 2048 \<lparr>desc_addr = 0, desc_len = 0\<rparr>)\<rparr>"

definition init_world :: world where
  "init_world = \<lparr>trace = [], errno = 0, heap = Map.empty, fresh = 0, err_buf = []\<rparr>"

section \<open>Shared lemmas\<close>

lemma unat_u8_less [simp]: "unat (b :: byte) < 256"
  using unsigned_less [of b, where ?'a = nat] by simp

lemma unat_u16_less [simp]: "unat (x :: u16) < 65536"
  using unsigned_less [of x, where ?'a = nat] by simp

lemma unat_u32_less [simp]: "unat (x :: u32) < 4294967296"
  using unsigned_less [of x, where ?'a = nat] by simp

lemma unat_widen [simp, c_unat]: "unat (ucast (n :: u32) :: u64) = unat n"
proof -
  have "unat n < 18446744073709551616" using unat_u32_less [of n] by linarith
  then show ?thesis by (simp add: unsigned_ucast_eq take_bit_nat_eq_self)
qed

lemma unat_narrow [c_unat]: "unat n < 4294967296 \<Longrightarrow> unat (ucast (n :: u64) :: u32) = unat n"
  by (simp add: unsigned_ucast_eq take_bit_nat_eq_self)

lemma unat_add32: "unat a + unat b < 4294967296 \<Longrightarrow> unat (a + b :: u32) = unat a + unat b"
  using unat_add_lem [of a b] by simp

lemma narrow_of_nat: "n < 4294967296 \<Longrightarrow> (ucast (of_nat n :: u64) :: u32) = of_nat n"
proof -
  assume "n < 4294967296"
  then have "unat (ucast (of_nat n :: u64) :: u32) = unat (of_nat n :: u32)"
    by (simp add: unat_narrow unat_of_nat)
  then show ?thesis by (rule unsigned_word_eqI)
qed

lemma narrow_widen [simp]: "(ucast (ucast (n :: u32) :: u64) :: u32) = n"
proof -
  have "unat (ucast (ucast n :: u64) :: u32) = unat n" by (simp add: unat_narrow)
  then show ?thesis by (rule unsigned_word_eqI)
qed

lemma unat_get16 [c_unat]: "unat (get16 b0 b1) = unat b0 + 256 * unat b1"
proof -
  have "unat b0 + 256 * unat b1 < 65536"
    using unat_u8_less [of b0] unat_u8_less [of b1] by linarith
  then show ?thesis
    by (simp add: get16_def unat_word_ariths unsigned_ucast_eq take_bit_eq_mod)
qed

lemma get16_le16 [c_buf]: "get16 (ucast x) (ucast (drop_bit 8 x)) = x"
proof -
  have "unat x div 256 < 256" using unat_u16_less [of x] by linarith
  then have "unat (get16 (ucast x) (ucast (drop_bit 8 x))) = unat x"
    by (simp add: unat_get16 unsigned_ucast_eq drop_bit_eq_div unat_div take_bit_eq_mod)
  then show ?thesis by (rule unsigned_word_eqI)
qed

lemma map_upt_add: "map f [0..<n + k] = map f [0..<n] @ map (\<lambda>i. f (n + i)) [0..<k]"
  by (induction k) auto

lemma length_le16 [simp]: "length (le16 x) = 2"
  by (simp add: le16_def)

lemma snprintf_length [c_buf]: "0 < n \<Longrightarrow> length (snprintf n s) < n"
  by (simp add: snprintf_def)

lemma strcpy_Some_iff [c_buf]: "strcpy n s = Some t \<longleftrightarrow> t = s \<and> length s < n"
  by (auto simp: strcpy_def)

lemma memcpy_length [c_buf]: "memcpy buf off bs = Some buf' \<Longrightarrow> length buf' = length buf"
  by (auto simp: memcpy_def split: if_splits)

lemma memcpy_Some_iff [c_buf]:
  "memcpy buf off bs = Some buf' \<longleftrightarrow>
     off + length bs \<le> length buf \<and> buf' = take off buf @ bs @ drop (off + length bs) buf"
  by (auto simp: memcpy_def)


text \<open>Effect of the primitive calls: what is appended to the trace, and what a success means.\<close>

definition call_ok :: "sys_call \<times> reply \<Rightarrow> bool" where
  "call_ok cr = (case fst cr of
       Malloc n \<Rightarrow> rv (snd cr) \<noteq> 0
     | Calloc n \<Rightarrow> rv (snd cr) \<noteq> 0
     | Sock (If_nametoindex s) \<Rightarrow> True
     | _ \<Rightarrow> rv (snd cr) = 0)"

lemma sys_effect [c_call]:
  "sys env c w = (r, w') \<Longrightarrow> trace w' = trace w @ [(c, r)] \<and> heap w' = heap w \<and> fresh w' = fresh w \<and>
     err_buf w' = err_buf w"
  by (auto simp: sys_def Let_def)

lemma call_effect [c_call]:
  "call env c w = (v, w') \<Longrightarrow> \<exists>r. v = rv r \<and> trace w' = trace w @ [(c, r)] \<and> heap w' = heap w \<and>
     fresh w' = fresh w \<and> err_buf w' = err_buf w"
  by (auto simp: sys_def call_def Let_def)

lemma new_block_effect:
  "new_block bs w = (p, w') \<Longrightarrow> p \<noteq> 0 \<and> trace w' = trace w \<and> heap w' = (heap w)(p \<mapsto> bs) \<and>
     fresh w' = Suc (fresh w) \<and> p = Suc (fresh w) \<and> err_buf w' = err_buf w"
  by (auto simp: new_block_def)

lemma c_calloc_effect [c_call]:
  "c_calloc env n w = (p, w') \<Longrightarrow> \<exists>r. trace w' = trace w @ [(Calloc n, r)] \<and> (p \<noteq> 0) = (rv r \<noteq> 0) \<and>
     err_buf w' = err_buf w"
  by (auto simp: c_calloc_def sys_def new_block_def Let_def split: if_splits)

lemma c_malloc_effect [c_call]:
  "c_malloc env n w = (p, w') \<Longrightarrow> \<exists>r. trace w' = trace w @ [(Malloc n, r)] \<and> (p \<noteq> 0) = (rv r \<noteq> 0) \<and>
     err_buf w' = err_buf w"
  by (auto simp: c_malloc_def sys_def new_block_def Let_def split: if_splits)

lemma set_err_simps [simp]:
  "trace (set_err s w) = trace w" "heap (set_err s w) = heap w" "fresh (set_err s w) = fresh w"
  "err_buf (set_err s w) = snprintf VTL_ERRBUF_SIZE s" "errno (set_err s w) = errno w"
  by (simp_all add: set_err_def)

lemma since_append: "trace w' = trace w @ t \<Longrightarrow> grows w w' \<and> since w w' = t"
  by (auto simp: since_def grows_def)

lemma grows_since: "grows w w' \<Longrightarrow> trace w' = trace w @ since w w'"
  by (auto simp: since_def grows_def)

lemma call_ok_simps [simp]:
  "call_ok (Calloc n, r) = (rv r \<noteq> 0)" "call_ok (Malloc n, r) = (rv r \<noteq> 0)"
  "call_ok (Memalign n, r) = (rv r = 0)" "call_ok (Bpf b, r) = (rv r = 0)"
  "call_ok (Sock Setrlimit, r) = (rv r = 0)" "call_ok (Sock (If_nametoindex s), r)"
  by (simp_all add: call_ok_def)

lemma good_env_simps:
  "sys good_env c w = (answer good_env (trace w) c, w\<lparr>trace := trace w @ [(c, answer good_env (trace w) c)]\<rparr>)"
  "rv (answer good_env t (Bpf b)) = 0" "rv (answer good_env t (Sock k)) = 0" "rv (answer good_env t (Memalign n)) = 0"
  "rv (answer good_env t (Calloc n)) = 1"  "rdata (answer good_env t c) = []"
  by (auto simp: sys_def Let_def good_env_def good_reply_def split: sys_call.splits)

end
