(* ===== verification/Util.thy ===== *)
theory Util
  imports Prelude
begin

text \<open>
  The utilities of \<^verbatim>\<open>src/common/util.c\<close>: the zeroing allocators, the Internet checksum
  of RFC 1071 and the hex dump. The checksum is shown equal to the ones' complement sum of the
  RFC, and a block that carries its own checksum is shown to verify.
\<close>

section \<open>Zeroing allocators\<close>

definition allocate_strmem :: "env \<Rightarrow> int \<Rightarrow> 'a world_scheme \<Rightarrow> nat \<times> 'a world_scheme" where
  "allocate_strmem env len w =
     (if len \<le> 0 then (0, w)
      else (let (tmp, w1) = c_malloc env (nat len) w
            in if tmp = 0 then (0, w1)
               else (tmp, w1\<lparr>heap := (heap w1)(tmp \<mapsto> replicate (nat len) 0)\<rparr>)))"

definition allocate_ustrmem :: "env \<Rightarrow> int \<Rightarrow> 'a world_scheme \<Rightarrow> nat \<times> 'a world_scheme" where
  "allocate_ustrmem env len w =
     (if len \<le> 0 then (0, w)
      else (let (tmp, w1) = c_malloc env (nat len) w
            in if tmp = 0 then (0, w1)
               else (tmp, w1\<lparr>heap := (heap w1)(tmp \<mapsto> replicate (nat len) 0)\<rparr>)))"

text \<open>An \<open>int\<close> takes four bytes.\<close>

definition allocate_intmem :: "env \<Rightarrow> int \<Rightarrow> 'a world_scheme \<Rightarrow> nat \<times> 'a world_scheme" where
  "allocate_intmem env len w =
     (if len \<le> 0 then (0, w)
      else (let (tmp, w1) = c_malloc env (nat len * 4) w
            in if tmp = 0 then (0, w1)
               else (tmp, w1\<lparr>heap := (heap w1)(tmp \<mapsto> replicate (nat len * 4) 0)\<rparr>)))"

section \<open>The Internet checksum\<close>

text \<open>
  The first loop: 16-bit words are read in host (little-endian) order and added into a 32-bit
  accumulator. Reading past the block is undefined.
\<close>

fun checksum_words :: "byte list \<Rightarrow> int \<Rightarrow> u32 \<Rightarrow> (byte list \<times> int \<times> u32) option" where
  "checksum_words mem count acc =
     (if count > 1 then
        (case mem of
           b0 # b1 # rest \<Rightarrow> checksum_words rest (count - 2) (acc + ucast (get16 b0 b1))
         | _ \<Rightarrow> None)
      else Some (mem, count, acc))"

declare checksum_words.simps [simp del]

definition checksum_leftover :: "byte list \<times> int \<times> u32 \<Rightarrow> u32 option" where
  "checksum_leftover s =
     (case s of (mem, count, acc) \<Rightarrow>
        if count > 0 then (case mem of b # _ \<Rightarrow> Some (acc + ucast b) | [] \<Rightarrow> None)
        else Some acc)"

lemma unat_low_half: "unat ((acc :: u32) AND 0xffff) = unat acc mod 65536"
proof -
  have "acc AND 0xffff = take_bit 16 acc"
    using take_bit_eq_mask [of 16 acc] by (simp add: mask_eq_exp_minus_1)
  then show ?thesis by (simp add: take_bit_eq_mod unat_mod)
qed

lemma unat_high_half: "unat (drop_bit 16 (acc :: u32)) = unat acc div 65536"
  by (simp add: drop_bit_eq_div unat_div)

lemma unat_fold_step:
  "unat ((acc AND 0xffff) + drop_bit 16 (acc :: u32)) = unat acc mod 65536 + unat acc div 65536"
proof -
  have "unat acc div 65536 < 65536"
    using unat_u32_less [of acc] by (intro less_mult_imp_div_less) linarith
  moreover have "unat acc mod 65536 < 65536" by simp
  ultimately have "unat acc mod 65536 + unat acc div 65536 < 4294967296" by linarith
  then show ?thesis by (simp add: unat_word_ariths(1) unat_low_half unat_high_half)
qed

text \<open>The second loop folds the carries back in until the upper half is zero.\<close>

function checksum_fold :: "u32 \<Rightarrow> u32" where
  "checksum_fold acc =
     (if drop_bit 16 acc \<noteq> 0 then checksum_fold ((acc AND 0xffff) + drop_bit 16 acc) else acc)"
  by pat_completeness auto
termination
proof (relation "measure unat")
  fix acc :: u32
  assume "drop_bit 16 acc \<noteq> 0"
  then have "unat acc div 65536 \<noteq> 0"
    unfolding unat_high_half [symmetric] by (metis unsigned_eq_0_iff)
  then show "((acc AND 0xffff) + drop_bit 16 acc, acc) \<in> measure unat"
    unfolding in_measure unat_fold_step
    using div_mult_mod_eq [of "unat acc" 65536] by linarith
qed simp

declare checksum_fold.simps [simp del]

text \<open>\<^verbatim>\<open>answer = ~sum\<close> truncates the complemented accumulator to 16 bits.\<close>

definition checksum :: "byte list \<Rightarrow> int \<Rightarrow> u16 option" where
  "checksum addr len = do {
     s \<leftarrow> checksum_words addr len 0;
     acc \<leftarrow> checksum_leftover s;
     Some (ucast (NOT (checksum_fold acc)))
   }"

section \<open>The ones' complement sum of RFC 1071\<close>

fun words16 :: "byte list \<Rightarrow> nat list" where
  "words16 (b0 # b1 # r) = unat (get16 b0 b1) # words16 r"
| "words16 [b] = [unat b]"
| "words16 [] = []"

definition oc_add :: "nat \<Rightarrow> nat \<Rightarrow> nat" where
  "oc_add a b = (if 65535 < a + b then a + b - 65535 else a + b)"

definition ones_sum :: "byte list \<Rightarrow> nat" where
  "ones_sum bs = foldl oc_add 0 (words16 bs)"

text \<open>Both sums are the representative in \<open>1..65535\<close> (or 0) of the plain sum modulo 65535.\<close>

definition oc_norm :: "nat \<Rightarrow> nat" where
  "oc_norm n = (if n = 0 then 0 else (n - 1) mod 65535 + 1)"

lemma oc_norm_add: "oc_norm (n + 65535 * k) = (if n = 0 \<and> k \<noteq> 0 then 65535 else oc_norm n)"
proof (cases "n = 0")
  case True
  then show ?thesis
  proof (cases k)
    case (Suc j)
    have "(65535 * Suc j - 1) mod 65535 = (65534 + 65535 * j) mod 65535" by simp
    then show ?thesis using True Suc by (simp add: oc_norm_def del: mult_Suc_right)
  qed (simp add: oc_norm_def)
next
  case False
  then have "n + 65535 * k - 1 = (n - 1) + 65535 * k" by simp
  then have "(n + 65535 * k - 1) mod 65535 = (n - 1) mod 65535"
    using mod_mult_self2 [of "n - 1" 65535 k] by simp
  then show ?thesis using False by (simp add: oc_norm_def)
qed

lemma oc_norm_le: "oc_norm n \<le> 65535"
  unfolding oc_norm_def using mod_less_divisor [of 65535 "n - 1"] by (simp add: Suc_le_eq)

lemma oc_norm_id: "n \<le> 65535 \<Longrightarrow> oc_norm n = n"
  by (simp add: oc_norm_def)

lemma oc_norm_0_iff [simp]: "oc_norm n = 0 \<longleftrightarrow> n = 0"
  by (simp add: oc_norm_def)

lemma oc_norm_decomp: "\<exists>k. n = oc_norm n + 65535 * k"
proof (cases "n = 0")
  case False
  have "n - 1 = (n - 1) mod 65535 + 65535 * ((n - 1) div 65535)" by simp
  then have "n = oc_norm n + 65535 * ((n - 1) div 65535)" using False by (simp add: oc_norm_def)
  then show ?thesis by blast
qed (simp add: oc_norm_def)

lemma oc_norm_fold: "oc_norm (n mod 65536 + n div 65536) = oc_norm n"
proof -
  have "n = (n mod 65536 + n div 65536) + 65535 * (n div 65536)"
    using mod_mult_div_eq [of n 65536] by linarith
  moreover have "n mod 65536 + n div 65536 = 0 \<longrightarrow> n div 65536 = 0" by simp
  ultimately show ?thesis by (metis oc_norm_add)
qed

lemma oc_add_norm: "a \<le> 65535 \<Longrightarrow> b \<le> 65535 \<Longrightarrow> oc_add a b = oc_norm (a + b)"
proof (cases "65535 < a + b")
  case True
  assume "a \<le> 65535" "b \<le> 65535"
  moreover have "oc_norm (a + b) = oc_norm (a + b - 65535)"
    using True oc_norm_add [of "a + b - 65535" 1] by simp
  ultimately show ?thesis using True by (simp add: oc_add_def oc_norm_id)
qed (simp add: oc_add_def oc_norm_id)

lemma oc_norm_norm: "oc_norm (oc_norm n + m) = oc_norm (n + m)"
proof -
  obtain k where k: "n = oc_norm n + 65535 * k" using oc_norm_decomp by blast
  have "oc_norm (n + m) = oc_norm ((oc_norm n + m) + 65535 * k)"
    using arg_cong [OF k, of "\<lambda>x. oc_norm (x + m)"] by (simp add: add.assoc add.commute)
  also have "\<dots> = oc_norm (oc_norm n + m)"
  proof -
    have "oc_norm n + m = 0 \<Longrightarrow> k = 0" using k by simp
    then show ?thesis by (auto simp: oc_norm_add)
  qed
  finally show ?thesis by simp
qed

lemma words16_sum_bound: "sum_list (words16 bs) \<le> 65535 * length bs"
proof (induction bs rule: words16.induct)
  case (1 b0 b1 r)
  moreover have "unat (get16 b0 b1) \<le> 65535" using unat_u16_less [of "get16 b0 b1"] by linarith
  ultimately show ?case by simp
next
  case (2 b)
  have "unat b \<le> 65535" using unat_u8_less [of b] by linarith
  then show ?case by simp
qed simp

lemma ones_sum_norm: "foldl oc_add a (words16 bs) = oc_norm (a + sum_list (words16 bs))"
  if "a \<le> 65535"
  using that
proof (induction bs arbitrary: a rule: words16.induct)
  case (1 b0 b1 r)
  have w: "unat (get16 b0 b1) \<le> 65535" using unat_u16_less [of "get16 b0 b1"] by linarith
  have "oc_add a (unat (get16 b0 b1)) = oc_norm (a + unat (get16 b0 b1))"
    by (rule oc_add_norm [OF "1.prems" w])
  then show ?case
    using "1.IH" [of "oc_norm (a + unat (get16 b0 b1))"]
    by (simp add: oc_norm_le oc_norm_norm add.assoc)
next
  case (2 b)
  have "unat b \<le> 65535" using unat_u8_less [of b] by linarith
  then show ?case using "2.prems" by (simp add: oc_add_norm)
qed (simp add: oc_norm_id)

lemma checksum_words_sum:
  "checksum_words bs (int (length bs)) acc \<bind> checksum_leftover =
     Some (acc + of_nat (sum_list (words16 bs)))"
proof (induction bs arbitrary: acc rule: words16.induct)
  case (1 b0 b1 r)
  show ?case
    using "1.IH" [of "acc + ucast (get16 b0 b1)"]
    by (subst checksum_words.simps) (simp add: add.assoc)
next
  case (2 b)
  show ?case by (subst checksum_words.simps) (simp add: checksum_leftover_def)
next
  case 3
  show ?case by (subst checksum_words.simps) (simp add: checksum_leftover_def)
qed

lemma checksum_fold_norm: "unat (checksum_fold acc) = oc_norm (unat acc)"
proof (induction acc rule: checksum_fold.induct)
  case (1 acc)
  show ?case
  proof (cases "drop_bit 16 acc = 0")
    case True
    then have "unat acc div 65536 = 0" unfolding unat_high_half [symmetric] by simp
    then have "unat acc \<le> 65535" by (simp add: div_eq_0_iff)
    then show ?thesis using True by (simp add: checksum_fold.simps [of acc] oc_norm_id)
  next
    case False
    then have "unat (checksum_fold acc) = oc_norm (unat ((acc AND 0xffff) + drop_bit 16 acc))"
      using "1.IH" by (simp add: checksum_fold.simps [of acc])
    then show ?thesis by (simp only: unat_fold_step oc_norm_fold)
  qed
qed

lemma unat_complement16: "unat (acc :: u32) \<le> 65535 \<Longrightarrow> unat (ucast (NOT acc) :: u16) = 65535 - unat acc"
proof -
  assume le: "unat acc \<le> 65535"
  define y :: u16 where "y = ucast acc"
  have uy: "unat y = unat acc" using le by (simp add: y_def unsigned_ucast_eq take_bit_eq_mod)
  have "(ucast (NOT acc) :: u16) = NOT y" by (rule bit_word_eqI) (simp add: y_def bit_simps)
  also have "\<dots> = 0xffff - y" by (simp add: not_eq_complement)
  finally have e: "(ucast (NOT acc) :: u16) = 0xffff - y" .
  have "y \<le> 0xffff" using le uy by (simp add: word_le_nat_alt)
  then have "unat (0xffff - y) = 65535 - unat y" by (simp add: unat_sub)
  then show ?thesis by (simp add: e uy)
qed

lemma checksum_value:
  assumes "length bs \<le> 65536"
  shows "\<exists>c. checksum bs (int (length bs)) = Some c \<and>
             unat c = 65535 - oc_norm (sum_list (words16 bs))"
proof -
  define S where "S = sum_list (words16 bs)"
  define acc :: u32 where "acc = of_nat S"
  have "S < 4294967296" using words16_sum_bound [of bs] assms by (simp add: S_def)
  then have S: "unat acc = S" by (simp add: acc_def unat_of_nat)
  have sum: "checksum_words bs (int (length bs)) 0 \<bind> checksum_leftover = Some acc"
    using checksum_words_sum [of bs 0] by (simp add: S_def acc_def)
  have "checksum bs (int (length bs)) =
      (checksum_words bs (int (length bs)) 0 \<bind> checksum_leftover) \<bind>
        (\<lambda>acc. Some (ucast (NOT (checksum_fold acc))))"
    by (simp add: checksum_def)
  then have "checksum bs (int (length bs)) = Some (ucast (NOT (checksum_fold acc)))"
    by (simp add: sum)
  moreover have "unat (checksum_fold acc) = oc_norm S" by (simp add: checksum_fold_norm S)
  ultimately show ?thesis using unat_complement16 [of "checksum_fold acc"] oc_norm_le [of S]
    by (auto simp: S_def)
qed

lemma checksum_of_bytes:
  "length bs \<le> 65536 \<Longrightarrow> checksum bs (int (length bs)) = Some c \<Longrightarrow>
     unat c = 65535 - oc_norm (sum_list (words16 bs))"
  using checksum_value [of bs] by auto

lemma words16_append: "even (length xs) \<Longrightarrow> words16 (xs @ ys) = words16 xs @ words16 ys"
  by (induction xs rule: words16.induct) auto

lemma words16_le16: "words16 (le16 c @ post) = unat c # words16 post"
  by (simp add: le16_def get16_le16)

lemma sum_with_checksum:
  "even (length pre) \<Longrightarrow>
     sum_list (words16 (pre @ le16 c @ post)) =
     sum_list (words16 (pre @ [0, 0] @ post)) + unat c"
  by (simp add: words16_append words16_le16 get16_def)

text \<open>
  C9. The checksum routine computes the checksum of RFC 1071: on a block of at most 64 KiB it
  reads exactly the block (it returns a value, so no byte outside is read) and its answer is the
  complement of the ones' complement sum of the block's 16-bit words, an odd last byte counted
  as one more word.
\<close>

theorem checksum_is_rfc1071:
  assumes "length bs \<le> 65536"
  shows "map_option unat (checksum bs (int (length bs))) = Some (65535 - ones_sum bs)"
proof -
  obtain c where "checksum bs (int (length bs)) = Some c"
    and "unat c = 65535 - oc_norm (sum_list (words16 bs))"
    using checksum_value [OF assms] by blast
  moreover have "ones_sum bs = oc_norm (sum_list (words16 bs))"
    unfolding ones_sum_def by (simp add: ones_sum_norm)
  ultimately show ?thesis by simp
qed

theorem checksum_is_rfc1071_witness:
  "map_option unat (checksum [0x45, 0, 0, 0x18, 7] (int (length [0x45, 0, 0, 0x18, 7 :: byte]))) =
     Some (65535 - ones_sum [0x45, 0, 0, 0x18, 7])"
  by (rule checksum_is_rfc1071) simp

lemma checksum_with_field:
  assumes "even (length pre)" and "length pre + length post + 2 \<le> 65536"
    and "checksum (pre @ [0, 0] @ post) (int (length pre + length post + 2)) = Some c"
  shows "checksum (pre @ le16 c @ post) (int (length pre + length post + 2)) = Some 0"
proof -
  define S where "S = sum_list (words16 (pre @ [0, 0] @ post))"
  have c: "unat c = 65535 - oc_norm S"
    using checksum_of_bytes [of "pre @ [0, 0] @ post" c] assms by (simp add: S_def algebra_simps)
  obtain d where d: "checksum (pre @ le16 c @ post) (int (length pre + length post + 2)) = Some d"
    and ud: "unat d = 65535 - oc_norm (S + unat c)"
    using checksum_value [of "pre @ le16 c @ post"] assms(1,2)
    by (auto simp: sum_with_checksum S_def algebra_simps)
  obtain k where "S = oc_norm S + 65535 * k" using oc_norm_decomp by blast
  then have "S + unat c = 0 + 65535 * Suc k" using c oc_norm_le [of S] by simp
  then have "oc_norm (S + unat c) = 65535" using oc_norm_add [of 0 "Suc k"] by simp
  then have "d = 0" using ud by (simp add: unsigned_eq_0_iff)
  then show ?thesis using d by simp
qed

text \<open>
  A block that carries its own checksum verifies: if \<open>c\<close> is the checksum of a block whose
  checksum field (at an even offset) is zero, then the checksum of the block with \<open>c\<close> stored in
  the field is zero, which is the receiver's test.
\<close>

lemma checksum_verifies:
  assumes "even (length pre)" and "length pre + length post + 2 \<le> 65536"
    and "checksum (pre @ [0, 0] @ post) (int (length pre + length post + 2)) = Some c"
  shows "checksum (pre @ le16 c @ post) (int (length pre + length post + 2)) = Some 0"
  using assms by (rule checksum_with_field)

end
