(* ===== verification/Xsk_Ring.thy ===== *)
theory Xsk_Ring
  imports Prelude
begin

text \<open>
  The AF\_XDP rings of \<^verbatim>\<open>lib/libbpf/src/xsk.h\<close>: a single producer and a single consumer
  share free-running 32-bit counters and an array whose size is a power of two. The fill ring
  is produced by the program and consumed by the kernel, the receive ring the other way round.
  Both are shown to be first-in first-out queues, across the wrap-around of the counters.
\<close>

section \<open>The ring structure and its operations\<close>

text \<open>
  \<open>DEFINE_XSK_RING\<close> gives both kinds of ring the same members. The record holds the values
  behind the pointers \<open>producer\<close>, \<open>consumer\<close>, \<open>flags\<close> and \<open>ring\<close>.
\<close>

record 'e xsk_ring =
  cached_prod :: u32
  cached_cons :: u32
  ring_mask :: u32
  ring_size :: u32
  producer :: u32
  consumer :: u32
  ring_flags :: u32
  ring :: "'e list"

text \<open>\<open>&addrs[idx & mask]\<close>: the four accessors differ only in the element type.\<close>

definition xsk_ring_prod__fill_addr :: "'e xsk_ring \<Rightarrow> u32 \<Rightarrow> nat" where
  "xsk_ring_prod__fill_addr fill idx = unat (idx AND ring_mask fill)"

definition xsk_ring_cons__comp_addr :: "'e xsk_ring \<Rightarrow> u32 \<Rightarrow> nat" where
  "xsk_ring_cons__comp_addr cr idx = unat (idx AND ring_mask cr)"

definition xsk_ring_prod__tx_desc :: "'e xsk_ring \<Rightarrow> u32 \<Rightarrow> nat" where
  "xsk_ring_prod__tx_desc tx idx = unat (idx AND ring_mask tx)"

definition xsk_ring_cons__rx_desc :: "'e xsk_ring \<Rightarrow> u32 \<Rightarrow> nat" where
  "xsk_ring_cons__rx_desc rx idx = unat (idx AND ring_mask rx)"

definition XDP_RING_NEED_WAKEUP :: u32 where "XDP_RING_NEED_WAKEUP = 1"

definition xsk_ring_prod__needs_wakeup :: "'e xsk_ring \<Rightarrow> bool" where
  "xsk_ring_prod__needs_wakeup r \<longleftrightarrow> ring_flags r AND XDP_RING_NEED_WAKEUP \<noteq> 0"

text \<open>Reading and writing through such a pointer; outside the array it is undefined.\<close>

definition ring_read :: "'e xsk_ring \<Rightarrow> nat \<Rightarrow> 'e option" where
  "ring_read r i = (if i < length (ring r) then Some (ring r ! i) else None)"

definition ring_write :: "'e xsk_ring \<Rightarrow> nat \<Rightarrow> 'e \<Rightarrow> 'e xsk_ring option" where
  "ring_write r i v =
     (if i < length (ring r) then Some (r\<lparr>ring := (ring r)[i := v]\<rparr>) else None)"

definition xsk_prod_nb_free :: "'e xsk_ring \<Rightarrow> u32 \<Rightarrow> u32 \<times> 'e xsk_ring" where
  "xsk_prod_nb_free r nb =
     (let free_entries = cached_cons r - cached_prod r
      in if free_entries \<ge> nb then (free_entries, r)
         else (let r1 = r\<lparr>cached_cons := consumer r + ring_size r\<rparr>
               in (cached_cons r1 - cached_prod r1, r1)))"

definition xsk_cons_nb_avail :: "'e xsk_ring \<Rightarrow> u32 \<Rightarrow> u32 \<times> 'e xsk_ring" where
  "xsk_cons_nb_avail r nb =
     (let entries = cached_prod r - cached_cons r;
          (entries, r) = (if entries = 0
                          then (producer r - cached_cons r, r\<lparr>cached_prod := producer r\<rparr>)
                          else (entries, r))
      in (if entries > nb then nb else entries, r))"

text \<open>
  \<open>size_t nb\<close> is narrowed to \<open>__u32\<close> for the call and widened back for the comparison. The
  result is the returned count, the index stored through \<open>idx\<close> and the ring.
\<close>

definition xsk_ring_prod__reserve ::
    "'e xsk_ring \<Rightarrow> u64 \<Rightarrow> u32 \<Rightarrow> u64 \<times> u32 \<times> 'e xsk_ring" where
  "xsk_ring_prod__reserve pr nb idx =
     (let (n, pr) = xsk_prod_nb_free pr (ucast nb)
      in if (ucast n :: u64) < nb then (0, idx, pr)
         else (nb, cached_prod pr, pr\<lparr>cached_prod := cached_prod pr + ucast nb\<rparr>))"

definition xsk_ring_prod__submit :: "'e xsk_ring \<Rightarrow> u64 \<Rightarrow> 'e xsk_ring" where
  "xsk_ring_prod__submit pr nb = pr\<lparr>producer := producer pr + ucast nb\<rparr>"

definition xsk_ring_cons__peek ::
    "'e xsk_ring \<Rightarrow> u64 \<Rightarrow> u32 \<Rightarrow> u64 \<times> u32 \<times> 'e xsk_ring" where
  "xsk_ring_cons__peek cr nb idx =
     (let (n, cr) = xsk_cons_nb_avail cr (ucast nb); entries = (ucast n :: u64)
      in if entries > 0
         then (entries, cached_cons cr, cr\<lparr>cached_cons := cached_cons cr + ucast entries\<rparr>)
         else (entries, idx, cr))"

definition xsk_ring_cons__release :: "'e xsk_ring \<Rightarrow> u64 \<Rightarrow> 'e xsk_ring" where
  "xsk_ring_cons__release cr nb = cr\<lparr>consumer := consumer cr + ucast nb\<rparr>"

section \<open>Positions modulo the ring size\<close>

definition shape_ok :: "'e xsk_ring \<Rightarrow> bool" where
  "shape_ok r \<longleftrightarrow>
     (\<exists>k < 32. ring_size r = 2 ^ k) \<and> ring_mask r = ring_size r - 1 \<and>
     length (ring r) = unat (ring_size r)"

definition slot :: "'e xsk_ring \<Rightarrow> u32 \<Rightarrow> nat" where
  "slot r x = unat (x AND ring_mask r)"

lemma slot_mod:
  assumes "shape_ok r"
  shows "slot r x = unat x mod unat (ring_size r)" and "0 < unat (ring_size r)"
    and "unat (ring_size r) dvd 2 ^ 32" and "unat (ring_size r) \<le> 2 ^ 31"
proof -
  obtain k where k: "k < 32" "ring_size r = 2 ^ k" and m: "ring_mask r = ring_size r - 1"
    using assms by (auto simp: shape_ok_def)
  have "(2 :: nat) ^ k < 2 ^ 32" using k(1) by (intro power_strict_increasing) auto
  then have "unat (of_nat (2 ^ k) :: u32) = 2 ^ k" by (simp only: unat_of_nat) simp
  then have s: "unat (ring_size r) = 2 ^ k" using k(2) by simp
  have "x AND ring_mask r = take_bit k x" by (simp add: m k(2) take_bit_eq_mask mask_eq_exp_minus_1)
  then have "slot r x = take_bit k (unat x)" by (simp only: slot_def unsigned_take_bit_eq)
  then show "slot r x = unat x mod unat (ring_size r)" by (simp add: s take_bit_eq_mod)
  show "0 < unat (ring_size r)" by (simp add: s)
  show "unat (ring_size r) dvd 2 ^ 32" 
    unfolding s using k(1) by (intro le_imp_power_dvd) simp
  show "unat (ring_size r) \<le> 2 ^ 31" using k(1) unfolding s by (intro power_increasing) auto
qed

lemma slot_add:
  "shape_ok r \<Longrightarrow> slot r (x + of_nat i) = (unat x + i) mod unat (ring_size r)"
proof -
  assume ok: "shape_ok r"
  have "unat (x + of_nat i :: u32) = (unat x + i) mod 2 ^ 32"
    by (simp add: unat_word_ariths(1) unat_of_nat mod_simps)
  then show ?thesis using slot_mod [OF ok] by (simp add: mod_mod_cancel)
qed

lemma slot_less: "shape_ok r \<Longrightarrow> slot r x < length (ring r)"
  using slot_mod(1) [of r x] slot_mod(2) [of r] by (simp add: shape_ok_def)

lemma slot_inj:
  assumes "shape_ok r" "i < unat (ring_size r)" "j < unat (ring_size r)"
    and "slot r (x + of_nat i) = slot r (x + of_nat j)"
  shows "i = j"
proof -
  have aux: "i = j" if "i \<le> j" "j < s" "(u + i) mod s = (u + j) mod s" for i j s u :: nat
  proof -
    have "s dvd (u + j) - (u + i)" using that by (metis mod_eq_dvd_iff_nat add_le_cancel_left)
    then have "s dvd j - i" by simp
    then show ?thesis using that by (metis dvd_imp_le diff_is_0_eq less_imp_diff_less not_le zero_less_diff le_antisym)
  qed
  show ?thesis using aux [of i j "unat (ring_size r)" "unat x"] aux [of j i "unat (ring_size r)" "unat x"] assms
    by (cases "i \<le> j") (auto simp: slot_add)
qed

section \<open>The producer side\<close>

text \<open>
  Distances are taken from the stale consumer position \<open>cached_cons - size\<close>: in that order come
  the real consumer, the producer the kernel sees and the reserved end \<open>cached_prod\<close>, at most a
  ring's size away.
\<close>

definition stale :: "'e xsk_ring \<Rightarrow> u32" where
  "stale r = cached_cons r - ring_size r"

definition prod_ok :: "'e xsk_ring \<Rightarrow> bool" where
  "prod_ok r \<longleftrightarrow> shape_ok r \<and>
     unat (consumer r - stale r) \<le> unat (producer r - stale r) \<and>
     unat (producer r - stale r) \<le> unat (cached_prod r - stale r) \<and>
     unat (cached_prod r - stale r) \<le> unat (ring_size r)"

definition free_cached :: "'e xsk_ring \<Rightarrow> nat" where
  "free_cached r = unat (ring_size r) - unat (cached_prod r - stale r)"

definition free_slots :: "'e xsk_ring \<Rightarrow> nat" where
  "free_slots r = unat (ring_size r) - unat (cached_prod r - consumer r)"

text \<open>What the kernel can still take from the ring, oldest first.\<close>

definition prod_queue :: "'e xsk_ring \<Rightarrow> 'e list" where
  "prod_queue r =
     map (\<lambda>i. ring r ! slot r (consumer r + of_nat i)) [0..<unat (producer r - consumer r)]"

lemma unat_diff_chain:
  assumes "unat (b - a :: u32) \<le> unat (c - a)"
  shows "unat (c - b) = unat (c - a) - unat (b - a)"
proof -
  have "c - b = (c - a) - (b - a)" by simp
  moreover have "b - a \<le> c - a" using assms by (simp add: word_le_nat_alt)
  ultimately show ?thesis by (metis unat_sub)
qed

lemma prod_ok_dist:
  assumes "prod_ok r"
  shows "unat (producer r - consumer r) = unat (producer r - stale r) - unat (consumer r - stale r)"
    and "unat (cached_prod r - consumer r) =
           unat (cached_prod r - stale r) - unat (consumer r - stale r)"
    and "unat (cached_prod r - producer r) =
           unat (cached_prod r - stale r) - unat (producer r - stale r)"
    and "free_cached r \<le> free_slots r" and "free_slots r \<le> unat (ring_size r)"
proof -
  have o: "unat (consumer r - stale r) \<le> unat (producer r - stale r)"
    "unat (producer r - stale r) \<le> unat (cached_prod r - stale r)"
    using assms by (auto simp: prod_ok_def)
  show "unat (producer r - consumer r) = unat (producer r - stale r) - unat (consumer r - stale r)"
    using o by (intro unat_diff_chain)
  show c: "unat (cached_prod r - consumer r) =
      unat (cached_prod r - stale r) - unat (consumer r - stale r)"
    using o by (intro unat_diff_chain) linarith
  show "unat (cached_prod r - producer r) =
      unat (cached_prod r - stale r) - unat (producer r - stale r)"
    using o by (intro unat_diff_chain)
  show "free_cached r \<le> free_slots r" unfolding free_cached_def free_slots_def c by linarith
  show "free_slots r \<le> unat (ring_size r)" by (simp add: free_slots_def)
qed

lemma unat_free_entries:
  assumes "prod_ok r"
  shows "unat (cached_cons r - cached_prod r) = free_cached r"
proof -
  have "cached_prod r - stale r \<le> ring_size r" using assms by (simp add: prod_ok_def word_le_nat_alt)
  moreover have "cached_cons r - cached_prod r = ring_size r - (cached_prod r - stale r)"
    by (simp add: stale_def)
  ultimately show ?thesis by (metis unat_sub free_cached_def)
qed

definition refreshed :: "'e xsk_ring \<Rightarrow> 'e xsk_ring" where
  "refreshed r = r\<lparr>cached_cons := consumer r + ring_size r\<rparr>"

lemma refreshed_ok:
  assumes "prod_ok r"
  shows "prod_ok (refreshed r)" and "free_cached (refreshed r) = free_slots r"
    and "free_slots (refreshed r) = free_slots r" and "prod_queue (refreshed r) = prod_queue r"
proof -
  have "stale (refreshed r) = consumer r" by (simp add: stale_def refreshed_def)
  then show "prod_ok (refreshed r)" and "free_cached (refreshed r) = free_slots r"
    using assms prod_ok_dist [OF assms]
    by (auto simp: prod_ok_def free_cached_def free_slots_def refreshed_def shape_ok_def)
  show "free_slots (refreshed r) = free_slots r" and "prod_queue (refreshed r) = prod_queue r"
    by (simp_all add: free_slots_def refreshed_def prod_queue_def slot_def)
qed

lemma nb_free_cases:
  assumes "prod_ok r" and "xsk_prod_nb_free r nb = (n, r')"
  shows "(unat nb \<le> free_cached r \<and> r' = r \<and> unat n = free_cached r) \<or>
         (free_cached r < unat nb \<and> r' = refreshed r \<and> unat n = free_slots r)"
proof (cases "cached_cons r - cached_prod r \<ge> nb")
  case True
  then show ?thesis using assms unat_free_entries [OF assms(1)]
    by (auto simp: xsk_prod_nb_free_def word_le_nat_alt)
next
  case False
  have "unat (cached_cons (refreshed r) - cached_prod (refreshed r)) = free_slots r"
    using unat_free_entries [OF refreshed_ok(1) [OF assms(1)]] refreshed_ok(2) [OF assms(1)] by simp
  moreover have "r' = refreshed r"
    "n = cached_cons (refreshed r) - cached_prod (refreshed r)"
    using False assms(2) by (auto simp: xsk_prod_nb_free_def refreshed_def)
  ultimately show ?thesis using False unat_free_entries [OF assms(1)]
    by (simp add: word_le_nat_alt)
qed

lemma reserve_cases:
  assumes "prod_ok r" and "nb < 2 ^ 32" and "xsk_ring_prod__reserve r nb idx = (ret, i, r')"
  shows "(free_slots r < unat nb \<and> ret = 0 \<and> i = idx \<and> (r' = r \<or> r' = refreshed r)) \<or>
         (unat nb \<le> free_slots r \<and> ret = nb \<and> i = cached_prod r \<and>
          (\<exists>q. (q = r \<or> q = refreshed r) \<and> unat nb \<le> free_cached q \<and>
               r' = q\<lparr>cached_prod := cached_prod q + ucast nb\<rparr>))"
proof -
  obtain n q where nq: "xsk_prod_nb_free r (ucast nb) = (n, q)" by fastforce
  have u: "unat (ucast nb :: u32) = unat nb"
    using assms(2) by (intro unat_narrow) (simp add: word_less_nat_alt)
  have lt: "((ucast n :: u64) < nb) = (unat n < unat nb)"
    by (simp add: word_less_nat_alt)
  have eq: "(ret, i, r') = (if unat n < unat nb then (0, idx, q)
      else (nb, cached_prod q, q\<lparr>cached_prod := cached_prod q + ucast nb\<rparr>))"
    using assms(3) by (simp add: xsk_ring_prod__reserve_def nq lt)
  have le: "free_cached r \<le> free_slots r" by (rule prod_ok_dist(4) [OF assms(1)])
  have fr: "free_cached (refreshed r) = free_slots r" by (rule refreshed_ok(2) [OF assms(1)])
  have cp: "cached_prod (refreshed r) = cached_prod r" by (simp add: refreshed_def)
  from nb_free_cases [OF assms(1) nq] show ?thesis
  proof (elim disjE conjE)
    assume "unat (ucast nb :: u32) \<le> free_cached r" "q = r" "unat n = free_cached r"
    then show ?thesis using eq le u by auto
  next
    assume "free_cached r < unat (ucast nb :: u32)" "q = refreshed r" "unat n = free_slots r"
    then show ?thesis using eq u fr cp by (cases "free_slots r < unat nb") auto
  qed
qed

lemma advance_ok:
  assumes "prod_ok r" and "unat (nb :: u32) \<le> free_cached r"
  shows "prod_ok (r\<lparr>cached_prod := cached_prod r + nb\<rparr>)"
proof -
  have le: "unat (cached_prod r - stale r) \<le> unat (ring_size r)"
    using assms(1) by (simp add: prod_ok_def)
  have "unat (cached_prod r - stale r) + unat nb < 4294967296"
    using le assms(2) unat_u32_less [of "ring_size r"] unfolding free_cached_def by linarith
  then have "unat (cached_prod r - stale r + nb) = unat (cached_prod r - stale r) + unat nb"
    by (rule unat_add32)
  moreover have "cached_prod r + nb - stale r = cached_prod r - stale r + nb" by simp
  ultimately have "unat (cached_prod r + nb - stale r) = unat (cached_prod r - stale r) + unat nb"
    by (simp only:)
  moreover have "stale (r\<lparr>cached_prod := cached_prod r + nb\<rparr>) = stale r" by (simp add: stale_def)
  moreover have "shape_ok (r\<lparr>cached_prod := cached_prod r + nb\<rparr>)"
    using assms(1) by (simp add: prod_ok_def shape_ok_def)
  ultimately show ?thesis using assms by (auto simp: prod_ok_def free_cached_def)
qed

section \<open>Writing a batch and handing it over\<close>

text \<open>The loop over \<open>*xsk_ring_prod__fill_addr(fq, idx++) = v\<close>.\<close>

fun ring_fill :: "'e xsk_ring \<Rightarrow> u32 \<Rightarrow> 'e list \<Rightarrow> 'e xsk_ring option" where
  "ring_fill r idx [] = Some r"
| "ring_fill r idx (v # vs) = do {
     r1 \<leftarrow> ring_write r (xsk_ring_prod__fill_addr r idx) v;
     ring_fill r1 (idx + 1) vs
   }"

lemma fill_addr_slot: "xsk_ring_prod__fill_addr r idx = slot r idx"
  by (simp add: xsk_ring_prod__fill_addr_def slot_def)

lemma rx_desc_slot: "xsk_ring_cons__rx_desc r idx = slot r idx"
  by (simp add: xsk_ring_cons__rx_desc_def slot_def)

lemma ring_fill_effect:
  assumes "shape_ok r" and "length vs \<le> unat (ring_size r)"
  shows "\<exists>a. ring_fill r idx vs = Some (r\<lparr>ring := a\<rparr>) \<and> length a = length (ring r) \<and>
     (\<forall>j < length vs. a ! slot r (idx + of_nat j) = vs ! j) \<and>
     (\<forall>s < length (ring r). (\<forall>j < length vs. s \<noteq> slot r (idx + of_nat j)) \<longrightarrow> a ! s = ring r ! s)"
  using assms
proof (induction vs arbitrary: r idx)
  case Nil
  have "ring_fill r idx [] = Some (r\<lparr>ring := ring r\<rparr>)" by simp
  then show ?case by (intro exI [of _ "ring r"]) simp
next
  case (Cons v vs)
  let ?i = "slot r idx"
  let ?r1 = "r\<lparr>ring := (ring r)[?i := v]\<rparr>"
  have i: "?i < length (ring r)" by (rule slot_less [OF Cons.prems(1)])
  have ok1: "shape_ok ?r1" using Cons.prems(1) by (simp add: shape_ok_def)
  have sl: "slot ?r1 = slot r" by (rule ext) (simp add: slot_def)
  obtain a where a: "ring_fill ?r1 (idx + 1) vs = Some (?r1\<lparr>ring := a\<rparr>)" "length a = length (ring r)"
    and new: "\<And>j. j < length vs \<Longrightarrow> a ! slot r (idx + 1 + of_nat j) = vs ! j"
    and old: "\<And>s. s < length (ring r) \<Longrightarrow> (\<forall>j < length vs. s \<noteq> slot r (idx + 1 + of_nat j)) \<Longrightarrow>
                a ! s = (ring r)[?i := v] ! s"
    using Cons.IH [OF ok1, of "idx + 1"] Cons.prems(2) by (auto simp: sl)
  have shift: "idx + 1 + of_nat j = idx + of_nat (Suc j)" for j :: nat by simp
  have first: "a ! ?i = v"
  proof -
    have "?i \<noteq> slot r (idx + 1 + of_nat j)" if "j < length vs" for j
      using slot_inj [OF Cons.prems(1), of 0 "Suc j" idx] that Cons.prems(2) unfolding shift by auto
    then show ?thesis using old [OF i] i by simp
  qed
  have "ring_fill r idx (v # vs) = Some (r\<lparr>ring := a\<rparr>)"
    using a i by (simp add: ring_write_def fill_addr_slot)
  moreover have "\<forall>j < length (v # vs). a ! slot r (idx + of_nat j) = (v # vs) ! j"
    using first new by (auto simp: less_Suc_eq_0_disj add.assoc)
  moreover have "a ! s = ring r ! s"
    if "s < length (ring r)" and n: "\<forall>j < length (v # vs). s \<noteq> slot r (idx + of_nat j)" for s
  proof -
    have "s \<noteq> ?i" using n [rule_format, of 0] by simp
    moreover have "\<forall>j < length vs. s \<noteq> slot r (idx + 1 + of_nat j)"
      using n unfolding shift by (metis Suc_less_eq length_Cons)
    ultimately show ?thesis using old [OF that(1)] by simp
  qed
  ultimately show ?case using a(2) by blast
qed

text \<open>
  The producer protocol of the clients: reserve, write every entry, submit. It starts with no
  reservation outstanding.
\<close>

definition prod_idle :: "'e xsk_ring \<Rightarrow> bool" where
  "prod_idle r \<longleftrightarrow> prod_ok r \<and> producer r = cached_prod r"

definition ring_put :: "'e list \<Rightarrow> 'e xsk_ring \<Rightarrow> 'e xsk_ring option" where
  "ring_put vs r =
     (let (ret, idx, r1) = xsk_ring_prod__reserve r (of_nat (length vs)) 0
      in if ret \<noteq> of_nat (length vs) then None
         else do {
           r2 \<leftarrow> ring_fill r1 idx vs;
           Some (xsk_ring_prod__submit r2 (of_nat (length vs)))
         })"

text \<open>The kernel takes up to \<open>n\<close> entries by advancing the consumer.\<close>

definition kernel_take :: "nat \<Rightarrow> 'e xsk_ring \<Rightarrow> ('e list \<times> 'e xsk_ring) option" where
  "kernel_take n r =
     (let m = min n (length (prod_queue r))
      in Some (take m (prod_queue r), r\<lparr>consumer := consumer r + of_nat m\<rparr>))"

lemma queue_after_fill:
  assumes "shape_ok r" and "u + length vs \<le> unat (ring_size r)"
    and "length a = length (ring r)"
    and "\<forall>j < length vs. a ! slot r (c + of_nat u + of_nat j) = vs ! j"
    and "\<forall>s < length (ring r). (\<forall>j < length vs. s \<noteq> slot r (c + of_nat u + of_nat j)) \<longrightarrow> a ! s = ring r ! s"
  shows "map (\<lambda>i. a ! slot r (c + of_nat i)) [0..<u + length vs] =
         map (\<lambda>i. ring r ! slot r (c + of_nat i)) [0..<u] @ vs"
proof (rule nth_equalityI)
  fix i assume "i < length (map (\<lambda>i. a ! slot r (c + of_nat i)) [0..<u + length vs])"
  then have i: "i < u + length vs" by simp
  show "map (\<lambda>i. a ! slot r (c + of_nat i)) [0..<u + length vs] ! i =
        (map (\<lambda>i. ring r ! slot r (c + of_nat i)) [0..<u] @ vs) ! i"
  proof (cases "i < u")
    case True
    have "slot r (c + of_nat i) \<noteq> slot r (c + of_nat u + of_nat j)" if "j < length vs" for j
      using slot_inj [OF assms(1), of i "u + j" c] that True assms(2) by (auto simp: add.assoc)
    then show ?thesis using True i assms(5) slot_less [OF assms(1)] by (simp add: nth_append)
  next
    case False
    then have "i - u < length vs" using i by linarith
    then have "a ! slot r (c + of_nat u + of_nat (i - u)) = vs ! (i - u)" using assms(4) by blast
    moreover have "c + of_nat u + of_nat (i - u) = c + of_nat i" using False by (simp add: of_nat_diff)
    ultimately show ?thesis using False i by (simp add: nth_append)
  qed
qed simp

lemma prod_queue_length: "length (prod_queue r) = unat (producer r - consumer r)"
  by (simp add: prod_queue_def)

lemma idle_advance:
  assumes "prod_idle q" and "length vs \<le> free_cached q" and "length a = length (ring q)"
  defines "n \<equiv> of_nat (length vs) :: u32"
  defines "r' \<equiv> q\<lparr>cached_prod := cached_prod q + n, ring := a, producer := producer q + n\<rparr>"
  shows "prod_idle r'" and "unat n = length vs"
    and "unat (producer r' - consumer r') = unat (producer q - consumer q) + length vs"
    and "free_slots r' = free_slots q - length vs"
    and "unat (producer q - consumer q) + length vs \<le> unat (ring_size q)"
proof -
  have ok: "prod_ok q" and eq: "producer q = cached_prod q" using assms(1) by (auto simp: prod_idle_def)
  have "length vs < 4294967296"
    using assms(2) unat_u32_less [of "ring_size q"] unfolding free_cached_def by linarith
  then show un: "unat n = length vs" by (simp add: n_def unat_of_nat)
  have ok1: "prod_ok (q\<lparr>cached_prod := cached_prod q + n\<rparr>)"
    using advance_ok [OF ok, of n] assms(2) by (simp add: un)
  have st: "stale r' = stale q" "stale (q\<lparr>cached_prod := cached_prod q + n\<rparr>) = stale q"
    by (simp_all add: r'_def stale_def)
  have "shape_ok r'" using ok assms(3) by (simp add: prod_ok_def shape_ok_def r'_def)
  then show idle: "prod_idle r'"
    using ok1 eq by (simp add: prod_idle_def prod_ok_def st) (simp add: r'_def)
  have fs: "length vs \<le> free_slots q" using assms(2) prod_ok_dist(4) [OF ok] by linarith
  show le: "unat (producer q - consumer q) + length vs \<le> unat (ring_size q)"
    using fs prod_ok_dist(2,5) [OF ok] ok unfolding eq free_slots_def prod_ok_def by linarith
  have "unat (producer q - consumer q) + unat n < 4294967296"
    using le un unat_u32_less [of "ring_size q"] by linarith
  then have "unat (producer q - consumer q + n) = unat (producer q - consumer q) + unat n"
    by (rule unat_add32)
  moreover have "producer r' - consumer r' = producer q - consumer q + n" by (simp add: r'_def)
  ultimately show d: "unat (producer r' - consumer r') = unat (producer q - consumer q) + length vs"
    by (simp only: un)
  then show "free_slots r' = free_slots q - length vs"
    using idle eq unfolding prod_idle_def free_slots_def by (simp add: r'_def)
qed

lemma ring_put_ok:
  assumes "prod_idle r" and "length vs \<le> free_slots r"
  shows "\<exists>r'. ring_put vs r = Some r' \<and> prod_idle r' \<and> prod_queue r' = prod_queue r @ vs \<and>
              free_slots r' = free_slots r - length vs"
proof -
  have ok: "prod_ok r" using assms(1) by (simp add: prod_idle_def)
  have small: "length vs < 4294967296"
    using assms(2) prod_ok_dist(5) [OF ok] unat_u32_less [of "ring_size r"] by linarith
  define nb :: u64 where "nb = of_nat (length vs)"
  have nb: "unat nb = length vs" "nb < 2 ^ 32" "(ucast nb :: u32) = of_nat (length vs)"
    using small by (simp_all add: nb_def unat_of_nat word_less_nat_alt narrow_of_nat)
  obtain ret idx r1 where res: "xsk_ring_prod__reserve r nb 0 = (ret, idx, r1)" by (cases "xsk_ring_prod__reserve r nb 0") auto
  then obtain q where q: "q = r \<or> q = refreshed r" "length vs \<le> free_cached q"
    and r1: "ret = nb" "idx = cached_prod r" "r1 = q\<lparr>cached_prod := cached_prod q + of_nat (length vs)\<rparr>"
    using reserve_cases [OF ok nb(2) res] assms(2) nb by auto
  have idle: "prod_idle q" using q(1) assms(1) refreshed_ok(1) [OF ok]
    by (auto simp: prod_idle_def) (simp add: refreshed_def)
  have same: "prod_queue q = prod_queue r" "free_slots q = free_slots r" "cached_prod q = cached_prod r"
    "consumer q = consumer r" "producer q = producer r"
    using q(1) refreshed_ok [OF ok] by (auto simp: refreshed_def)
  have sh: "shape_ok r1" and shq: "shape_ok q"
    using idle r1(3) by (simp_all add: prod_idle_def prod_ok_def shape_ok_def)
  have sl: "slot r1 = slot q" by (rule ext) (simp add: slot_def r1(3))
  have vsz: "length vs \<le> unat (ring_size r1)" using q(2) by (simp add: free_cached_def r1(3))
  obtain a where a: "ring_fill r1 idx vs = Some (r1\<lparr>ring := a\<rparr>)" "length a = length (ring q)"
    "\<forall>j < length vs. a ! slot q (idx + of_nat j) = vs ! j"
    "\<forall>s < length (ring q). (\<forall>j < length vs. s \<noteq> slot q (idx + of_nat j)) \<longrightarrow> a ! s = ring q ! s"
    using ring_fill_effect [OF sh vsz, of idx] by (auto simp: sl) (auto simp: r1(3))
  define r' where "r' = q\<lparr>cached_prod := cached_prod q + of_nat (length vs), ring := a,
      producer := producer q + of_nat (length vs)\<rparr>"
  have put: "ring_put vs r = Some r'"
    using res a(1) by (simp add: ring_put_def nb_def [symmetric] r1 xsk_ring_prod__submit_def r'_def nb(3))
  note adv = idle_advance [OF idle q(2) a(2), folded r'_def]
  have pos: "idx = consumer q + of_nat (unat (producer q - consumer q))"
    using idle r1(2) same(3) by (simp add: prod_idle_def)
  have slr: "slot r' = slot q" by (rule ext) (simp add: slot_def r'_def)
  have "prod_queue r' = prod_queue q @ vs"
    using queue_after_fill [OF shq adv(5) a(2), of "consumer q"] a(3,4) adv(3)
    unfolding pos prod_queue_def slr by (simp add: r'_def)
  then show ?thesis using put adv(1,4) same by auto
qed

lemma consume_ok:
  assumes "prod_idle r" and "n \<le> length (prod_queue r)"
  shows "prod_idle (r\<lparr>consumer := consumer r + of_nat n\<rparr>)"
    and "prod_queue (r\<lparr>consumer := consumer r + of_nat n\<rparr>) = drop n (prod_queue r)"
    and "free_slots (r\<lparr>consumer := consumer r + of_nat n\<rparr>) = free_slots r + n"
proof -
  have ok: "prod_ok r" and eq: "producer r = cached_prod r" using assms(1) by (auto simp: prod_idle_def)
  define w :: u32 where "w = of_nat n"
  have n: "n \<le> unat (producer r - consumer r)" using assms(2) by (simp add: prod_queue_length)
  then have "n < 4294967296" using unat_u32_less [of "producer r - consumer r"] by linarith
  then have uw: "unat w = n" by (simp add: w_def unat_of_nat)
  let ?r = "r\<lparr>consumer := consumer r + w\<rparr>"
  have st: "stale ?r = stale r" by (simp add: stale_def)
  have le: "unat (consumer r - stale r) + unat w \<le> unat (producer r - stale r)"
    using n prod_ok_dist(1) [OF ok] ok uw unfolding prod_ok_def by linarith
  then have "unat (consumer r - stale r) + unat w < 4294967296"
    using unat_u32_less [of "producer r - stale r"] by linarith
  then have "unat (consumer r - stale r + w) = unat (consumer r - stale r) + unat w"
    by (rule unat_add32)
  moreover have "consumer r + w - stale r = consumer r - stale r + w" by simp
  ultimately have c: "unat (consumer r + w - stale r) = unat (consumer r - stale r) + n"
    by (simp only: uw)
  have ok': "prod_ok ?r" using ok c le uw by (simp add: prod_ok_def st) (simp add: shape_ok_def)
  show "prod_idle (r\<lparr>consumer := consumer r + of_nat n\<rparr>)"
    using ok' eq by (simp add: prod_idle_def w_def [symmetric])
  have d: "unat (producer ?r - consumer ?r) = unat (producer r - consumer r) - n"
    using prod_ok_dist(1) [OF ok'] prod_ok_dist(1) [OF ok] c by (simp add: st)
  show "prod_queue (r\<lparr>consumer := consumer r + of_nat n\<rparr>) = drop n (prod_queue r)"
    unfolding w_def [symmetric] prod_queue_def d
  proof (rule nth_equalityI)
    fix i assume "i < length (map (\<lambda>i. ring ?r ! slot ?r (consumer ?r + of_nat i)) [0..<unat (producer r - consumer r) - n])"
    then have "n + i < unat (producer r - consumer r)" "i < unat (producer r - consumer r) - n" by simp_all
    then show "map (\<lambda>i. ring ?r ! slot ?r (consumer ?r + of_nat i)) [0..<unat (producer r - consumer r) - n] ! i =
        drop n (map (\<lambda>i. ring r ! slot r (consumer r + of_nat i)) [0..<unat (producer r - consumer r)]) ! i"
      by (simp add: slot_def w_def add.assoc)
  qed simp
  show "free_slots (r\<lparr>consumer := consumer r + of_nat n\<rparr>) = free_slots r + n"
  proof -
    have "unat (cached_prod r - (consumer r + w)) = unat (cached_prod r - consumer r) - n"
      using d by (simp add: eq)
    moreover have "unat (cached_prod r - consumer r) \<le> unat (ring_size r)"
      using prod_ok_dist(2) [OF ok] ok unfolding prod_ok_def by linarith
    ultimately show ?thesis using n unfolding w_def [symmetric] free_slots_def eq by simp
  qed
qed

section \<open>Rings as queues\<close>

text \<open>
  The contract both rings meet, whoever produces and whoever consumes: \<open>put\<close> appends a batch
  that fits, \<open>get\<close> takes some of the oldest entries.
\<close>

datatype 'e ring_op = Put "'e list" | Get nat

fun ring_run ::
    "('r \<Rightarrow> nat) \<Rightarrow> ('e list \<Rightarrow> 'r \<Rightarrow> 'r option) \<Rightarrow> (nat \<Rightarrow> 'r \<Rightarrow> ('e list \<times> 'r) option) \<Rightarrow>
     'e ring_op list \<Rightarrow> 'r \<Rightarrow> ('e list \<times> 'e list \<times> 'r) option" where
  "ring_run room put get [] r = Some ([], [], r)"
| "ring_run room put get (Put vs # ops) r =
     (if length vs \<le> room r then do {
        r1 \<leftarrow> put vs r;
        (ins, outs, r2) \<leftarrow> ring_run room put get ops r1;
        Some (vs @ ins, outs, r2)
      } else ring_run room put get ops r)"
| "ring_run room put get (Get n # ops) r = do {
     (xs, r1) \<leftarrow> get n r;
     (ins, outs, r2) \<leftarrow> ring_run room put get ops r1;
     Some (ins, xs @ outs, r2)
   }"

locale fifo_ring =
  fixes inv :: "'r \<Rightarrow> bool" and queue :: "'r \<Rightarrow> 'e list" and room :: "'r \<Rightarrow> nat"
    and put :: "'e list \<Rightarrow> 'r \<Rightarrow> 'r option"
    and get :: "nat \<Rightarrow> 'r \<Rightarrow> ('e list \<times> 'r) option"
  assumes put_law: "inv r \<Longrightarrow> length vs \<le> room r \<Longrightarrow>
        \<exists>r'. put vs r = Some r' \<and> inv r' \<and> queue r' = queue r @ vs"
    and get_law: "inv r \<Longrightarrow> \<exists>xs r'. get n r = Some (xs, r') \<and> inv r' \<and> queue r = xs @ queue r' \<and>
        length xs \<le> n \<and> (0 < n \<longrightarrow> queue r \<noteq> [] \<longrightarrow> xs \<noteq> [])"
begin

lemma run_fifo:
  "inv r \<Longrightarrow> \<exists>ins outs r'. ring_run room put get ops r = Some (ins, outs, r') \<and> inv r' \<and>
     outs @ queue r' = queue r @ ins"
proof (induction ops arbitrary: r)
  case Nil
  then show ?case by simp
next
  case (Cons op ops)
  show ?case
  proof (cases op)
    case (Put vs)
    show ?thesis
    proof (cases "length vs \<le> room r")
      case True
      then obtain r1 where r1: "put vs r = Some r1" "inv r1" "queue r1 = queue r @ vs"
        using put_law [OF Cons.prems] by blast
      show ?thesis using Cons.IH [OF r1(2)] r1 True Put by auto
    next
      case False
      then show ?thesis using Cons.IH [OF Cons.prems] Put by simp
    qed
  next
    case (Get n)
    obtain xs r1 where r1: "get n r = Some (xs, r1)" "inv r1" "queue r = xs @ queue r1"
      using get_law [OF Cons.prems, of n] by blast
    show ?thesis using Cons.IH [OF r1(2)] r1 Get by auto
  qed
qed

end

lemma kernel_take_law:
  assumes "prod_idle r"
  shows "\<exists>xs r'. kernel_take n r = Some (xs, r') \<and> prod_idle r' \<and> prod_queue r = xs @ prod_queue r' \<and>
     length xs \<le> n \<and> (0 < n \<longrightarrow> prod_queue r \<noteq> [] \<longrightarrow> xs \<noteq> [])"
  using consume_ok [OF assms, of "min n (length (prod_queue r))"]
  by (simp add: kernel_take_def Let_def)

interpretation fill: fifo_ring prod_idle prod_queue free_slots ring_put kernel_take
proof (unfold_locales, goal_cases)
  case (1 r vs)
  then show ?case using ring_put_ok by blast
next
  case (2 r n)
  then show ?case by (rule kernel_take_law)
qed

section \<open>The consumer side\<close>

definition cons_ok :: "'e xsk_ring \<Rightarrow> bool" where
  "cons_ok r \<longleftrightarrow> shape_ok r \<and>
     unat (cached_cons r - consumer r) \<le> unat (cached_prod r - consumer r) \<and>
     unat (cached_prod r - consumer r) \<le> unat (producer r - consumer r) \<and>
     unat (producer r - consumer r) \<le> unat (ring_size r)"

definition cons_idle :: "'e xsk_ring \<Rightarrow> bool" where
  "cons_idle r \<longleftrightarrow> cons_ok r \<and> cached_cons r = consumer r"

text \<open>The entries the kernel has produced and the program has not yet taken, oldest first.\<close>

definition cons_queue :: "'e xsk_ring \<Rightarrow> 'e list" where
  "cons_queue r =
     map (\<lambda>i. ring r ! slot r (cached_cons r + of_nat i)) [0..<unat (producer r - cached_cons r)]"

definition cons_room :: "'e xsk_ring \<Rightarrow> nat" where
  "cons_room r = unat (ring_size r) - unat (producer r - consumer r)"

text \<open>The loop over \<open>xsk_ring_cons__rx_desc(rx, idx++)\<close>.\<close>

fun ring_drain :: "'e xsk_ring \<Rightarrow> u32 \<Rightarrow> nat \<Rightarrow> 'e list option" where
  "ring_drain r idx 0 = Some []"
| "ring_drain r idx (Suc n) = do {
     v \<leftarrow> ring_read r (xsk_ring_cons__rx_desc r idx);
     vs \<leftarrow> ring_drain r (idx + 1) n;
     Some (v # vs)
   }"

text \<open>The consumer protocol of the clients: peek, read every entry, release.\<close>

definition ring_take :: "nat \<Rightarrow> 'e xsk_ring \<Rightarrow> ('e list \<times> 'e xsk_ring) option" where
  "ring_take n r =
     (let (m, idx, r1) = xsk_ring_cons__peek r (of_nat (min n 4294967295)) 0
      in do {
        xs \<leftarrow> ring_drain r1 idx (unat m);
        Some (xs, xsk_ring_cons__release r1 m)
      })"

definition kernel_put :: "'e list \<Rightarrow> 'e xsk_ring \<Rightarrow> 'e xsk_ring option" where
  "kernel_put vs r = do {
     r1 \<leftarrow> ring_fill r (producer r) vs;
     Some (r1\<lparr>producer := producer r1 + of_nat (length vs)\<rparr>)
   }"

lemma ring_drain_eq:
  "shape_ok r \<Longrightarrow> ring_drain r idx n = Some (map (\<lambda>i. ring r ! slot r (idx + of_nat i)) [0..<n])"
proof (induction n arbitrary: idx)
  case (Suc n)
  have "map (\<lambda>i. ring r ! slot r (idx + of_nat i)) [0..<Suc n] =
      ring r ! slot r idx # map (\<lambda>i. ring r ! slot r (idx + 1 + of_nat i)) [0..<n]"
    by (simp add: map_upt_Suc add.assoc del: upt_Suc)
  then show ?case
    using Suc slot_less [OF Suc.prems, of idx] by (simp add: ring_read_def rx_desc_slot)
qed simp

lemma nb_avail_cases:
  assumes "cons_idle r" and "xsk_cons_nb_avail r nb = (n, q)"
  shows "(q = r \<or> q = r\<lparr>cached_prod := producer r\<rparr>) \<and> cons_idle q \<and>
     unat n \<le> unat nb \<and> unat n \<le> unat (cached_prod q - cached_cons q) \<and>
     (0 < unat nb \<longrightarrow> producer r \<noteq> cached_cons r \<longrightarrow> 0 < unat n)"
proof -
  let ?q = "if cached_prod r = cached_cons r then r\<lparr>cached_prod := producer r\<rparr> else r"
  let ?e = "if cached_prod r = cached_cons r then producer r - cached_cons r else cached_prod r - cached_cons r"
  have eq: "q = ?q" "n = (if ?e > nb then nb else ?e)"
    using assms(2) by (auto simp: xsk_cons_nb_avail_def Let_def split: if_splits)
  have "cons_idle ?q" using assms(1) by (auto simp: cons_idle_def cons_ok_def shape_ok_def)
  moreover have "cached_prod ?q - cached_cons ?q = ?e" by simp
  moreover have "producer r \<noteq> cached_cons r \<Longrightarrow> 0 < unat ?e"
    by (auto simp: unsigned_eq_0_iff neq0_conv [symmetric])
  moreover have "unat n \<le> unat nb" "unat n \<le> unat ?e" unfolding eq by (auto simp: word_less_nat_alt)
  moreover have "0 < unat nb \<Longrightarrow> 0 < unat ?e \<Longrightarrow> 0 < unat n" unfolding eq by simp
  ultimately show ?thesis unfolding eq(1) by (auto split: if_splits)
qed

lemma peek_cases:
  assumes "cons_idle r" and "nb < 2 ^ 32" and "xsk_ring_cons__peek r nb idx = (m, i, r1)"
  obtains q where "q = r \<or> q = r\<lparr>cached_prod := producer r\<rparr>" "cons_idle q"
    "unat m \<le> unat nb" "unat m \<le> unat (cached_prod q - cached_cons q)"
    "0 < unat nb \<longrightarrow> producer r \<noteq> cached_cons r \<longrightarrow> 0 < unat m"
    "r1 = q\<lparr>cached_cons := cached_cons q + ucast m\<rparr>" "0 < unat m \<longrightarrow> i = cached_cons r"
proof -
  obtain n q where nq: "xsk_cons_nb_avail r (ucast nb) = (n, q)" by fastforce
  have u: "unat (ucast nb :: u32) = unat nb"
    using assms(2) by (intro unat_narrow) (simp add: word_less_nat_alt)
  note c = nb_avail_cases [OF assms(1) nq]
  have cc: "cached_cons q = cached_cons r" using c by auto
  have m: "m = ucast n" and "r1 = q\<lparr>cached_cons := cached_cons q + n\<rparr>" "0 < unat n \<Longrightarrow> i = cached_cons q"
    using assms(3)
    by (auto simp: xsk_ring_cons__peek_def nq word_less_nat_alt Let_def unsigned_eq_0_iff split: if_splits)
  then show ?thesis using c u cc by (intro that [of q]) auto
qed

lemma ring_take_law:
  assumes "cons_idle r"
  shows "\<exists>xs r'. ring_take n r = Some (xs, r') \<and> cons_idle r' \<and> cons_queue r = xs @ cons_queue r' \<and>
     length xs \<le> n \<and> (0 < n \<longrightarrow> cons_queue r \<noteq> [] \<longrightarrow> xs \<noteq> [])"
proof -
  define nb :: u64 where "nb = of_nat (min n 4294967295)"
  have nb: "unat nb = min n 4294967295" "nb < 2 ^ 32"
    by (simp_all add: nb_def unat_of_nat word_less_nat_alt)
  obtain m i r1 where pk: "xsk_ring_cons__peek r nb 0 = (m, i, r1)" by (cases "xsk_ring_cons__peek r nb 0") auto
  obtain q where
    q: "q = r \<or> q = r\<lparr>cached_prod := producer r\<rparr>" "cons_idle q"
    and m: "unat m \<le> unat nb" "unat m \<le> unat (cached_prod q - cached_cons q)"
      "0 < unat nb \<longrightarrow> producer r \<noteq> cached_cons r \<longrightarrow> 0 < unat m"
    and r1: "r1 = q\<lparr>cached_cons := cached_cons q + ucast m\<rparr>" "0 < unat m \<longrightarrow> i = cached_cons r"
    by (rule peek_cases [OF assms nb(2) pk])
  have cc: "cached_cons q = cached_cons r" "producer q = producer r" "cons_queue q = cons_queue r"
    using q(1) by (auto simp: cons_queue_def slot_def)
  define w :: u32 where "w = ucast m"
  have uw: "unat w = unat m" unfolding w_def using m(1) nb(1) by (intro unat_narrow) simp
  have ok: "cons_ok q" and eq: "cached_cons q = consumer q" using q(2) by (auto simp: cons_idle_def)
  let ?p = "producer q - consumer q" and ?r' = "q\<lparr>cached_cons := cached_cons q + w, consumer := consumer q + w\<rparr>"
  have le: "unat w \<le> unat (cached_prod q - consumer q)" "unat w \<le> unat ?p"
    using m(2) uw eq ok unfolding cons_ok_def by auto
  have d: "unat (producer q - (consumer q + w)) = unat ?p - unat w"
    "unat (cached_prod q - (consumer q + w)) = unat (cached_prod q - consumer q) - unat w"
    using unat_diff_chain [of "consumer q + w" "consumer q" "producer q"]
      unat_diff_chain [of "consumer q + w" "consumer q" "cached_prod q"] le by simp_all
  have b: "unat ?p \<le> unat (ring_size q)" "unat (cached_prod q - consumer q) \<le> unat ?p"
    using ok by (auto simp: cons_ok_def)
  have "shape_ok ?r'" using ok by (simp add: cons_ok_def shape_ok_def)
  then have idle: "cons_idle ?r'" using b by (simp add: cons_idle_def cons_ok_def d eq diff_le_mono)
  have sh: "shape_ok r1" using ok by (simp add: r1(1) cons_ok_def shape_ok_def)
  define xs where "xs = map (\<lambda>j. ring q ! slot q (cached_cons q + of_nat j)) [0..<unat w]"
  have sl: "slot r1 = slot q" "slot ?r' = slot q" by (auto simp: fun_eq_iff slot_def r1(1))
  have drain: "ring_drain r1 i (unat m) = Some xs"
    using ring_drain_eq [OF sh, of i "unat m"] r1 cc uw unfolding xs_def sl by (cases "unat m") (simp_all add: r1(1))
  have take: "ring_take n r = Some (xs, ?r')"
    using drain by (simp add: ring_take_def nb_def [symmetric] pk xsk_ring_cons__release_def r1(1) w_def)
  have "cons_queue q = xs @ cons_queue ?r'"
  proof -
    have "unat ?p = unat w + (unat ?p - unat w)" using le by simp
    then have "cons_queue q = map (\<lambda>j. ring q ! slot q (consumer q + of_nat j)) [0..<unat w + (unat ?p - unat w)]"
      by (simp add: cons_queue_def eq)
    then show ?thesis unfolding map_upt_add cons_queue_def xs_def sl by (simp add: eq d(1) add.assoc)
  qed
  moreover have "length xs \<le> n" using m(1) nb(1) uw by (simp add: xs_def)
  moreover have "xs \<noteq> []" if "0 < n" "cons_queue r \<noteq> []"
    using m(3) that nb(1) uw by (auto simp: xs_def cons_queue_def)
  ultimately show ?thesis using take idle cc(3) by auto
qed

lemma kernel_put_law:
  assumes "cons_idle r" and "length vs \<le> cons_room r"
  shows "\<exists>r'. kernel_put vs r = Some r' \<and> cons_idle r' \<and> cons_queue r' = cons_queue r @ vs"
proof -
  have sh: "shape_ok r" and eq: "cached_cons r = consumer r"
    and b: "unat (cached_prod r - consumer r) \<le> unat (producer r - consumer r)"
      "unat (producer r - consumer r) \<le> unat (ring_size r)"
    using assms(1) by (auto simp: cons_idle_def cons_ok_def)
  have fit: "unat (producer r - consumer r) + length vs \<le> unat (ring_size r)"
    using assms(2) b unfolding cons_room_def by linarith
  define w :: u32 where "w = of_nat (length vs)"
  have "length vs < 4294967296" using fit unat_u32_less [of "ring_size r"] by linarith
  then have uw: "unat w = length vs" by (simp add: w_def unat_of_nat)
  have vsz: "length vs \<le> unat (ring_size r)" using fit by simp
  obtain a where a: "ring_fill r (producer r) vs = Some (r\<lparr>ring := a\<rparr>)" "length a = length (ring r)"
    "\<forall>j < length vs. a ! slot r (producer r + of_nat j) = vs ! j"
    "\<forall>s < length (ring r). (\<forall>j < length vs. s \<noteq> slot r (producer r + of_nat j)) \<longrightarrow> a ! s = ring r ! s"
    using ring_fill_effect [OF sh vsz, of "producer r"] by auto
  let ?r' = "r\<lparr>ring := a, producer := producer r + w\<rparr>"
  have "unat (producer r - consumer r) + unat w < 4294967296"
    using fit uw unat_u32_less [of "ring_size r"] by linarith
  then have "unat (producer r - consumer r + w) = unat (producer r - consumer r) + unat w"
    by (rule unat_add32)
  moreover have "producer r + w - consumer r = producer r - consumer r + w" by simp
  ultimately have d: "unat (producer r + w - consumer r) = unat (producer r - consumer r) + length vs"
    by (simp only: uw)
  have "shape_ok ?r'" using sh a(2) by (simp add: shape_ok_def)
  then have idle: "cons_idle ?r'"
    using assms(1) fit b d by (simp add: cons_idle_def cons_ok_def)
  have pos: "producer r = cached_cons r + of_nat (unat (producer r - cached_cons r))" by simp
  have "slot ?r' = slot r" by (auto simp: fun_eq_iff slot_def)
  then have "cons_queue ?r' = cons_queue r @ vs"
    using queue_after_fill [OF sh fit a(2), of "cached_cons r"] a(3,4) d pos eq
    unfolding cons_queue_def by simp
  then show ?thesis using a(1) idle by (auto simp: kernel_put_def w_def)
qed

interpretation rx: fifo_ring cons_idle cons_queue cons_room kernel_put ring_take
proof (unfold_locales, goal_cases)
  case (1 r vs)
  then show ?case by (rule kernel_put_law)
next
  case (2 r n)
  then show ?case by (rule ring_take_law)
qed

section \<open>Properties\<close>

text \<open>
  C7. The fill ring is a queue. From any state in which the program has no reservation
  outstanding, run any sequence of batches of the program (reserve, write, submit, taken only
  when the batch fits) and of takes by the kernel: every write stays inside the array, and what
  the kernel got followed by what is still in the ring is what was in the ring followed by the
  batches, in order. The counters may wrap around 32 bits any number of times.
\<close>

theorem fill_ring_fifo:
  assumes "prod_idle r"
  shows "\<exists>ins outs r'. ring_run free_slots ring_put kernel_take ops r = Some (ins, outs, r') \<and>
     prod_idle r' \<and> outs @ prod_queue r' = prod_queue r @ ins"
  using assms by (rule fill.run_fifo)

definition ring4 :: "u64 xsk_ring" where
  "ring4 = \<lparr>cached_prod = 0xffffffff, cached_cons = 2, ring_mask = 3, ring_size = 4,
     producer = 0xffffffff, consumer = 0xfffffffe, ring_flags = 0, ring = [10, 20, 30, 40]\<rparr>"

lemma ring4_shape: "shape_ok ring4"
  unfolding shape_ok_def by (intro conjI exI [of _ 2]) (simp_all add: ring4_def)

theorem fill_ring_fifo_witness:
  "prod_idle ring4 \<and> (\<exists>ins outs r'.
     ring_run free_slots ring_put kernel_take [Put [7, 8], Get 3, Put [9]] ring4 = Some (ins, outs, r') \<and>
     prod_idle r' \<and> outs @ prod_queue r' = prod_queue ring4 @ ins)"
proof -
  have "prod_idle ring4"
    using ring4_shape unfolding prod_idle_def prod_ok_def by (simp add: ring4_def stale_def)
  then show ?thesis using fill_ring_fifo by blast
qed

text \<open>
  C8. The receive ring is a queue in the same sense: for any sequence of kernel batches that fit
  and of program takes (peek, read, release), the descriptors the program got followed by those
  still in the ring are the initial ones followed by the kernel's, in order.
\<close>

theorem rx_ring_fifo:
  assumes "cons_idle r"
  shows "\<exists>ins outs r'. ring_run cons_room kernel_put ring_take ops r = Some (ins, outs, r') \<and>
     cons_idle r' \<and> outs @ cons_queue r' = cons_queue r @ ins"
  using assms by (rule rx.run_fifo)

theorem rx_ring_fifo_witness:
  "cons_idle (ring4\<lparr>cached_cons := 0xfffffffe\<rparr>) \<and> (\<exists>ins outs r'.
     ring_run cons_room kernel_put ring_take [Put [7, 8], Get 3, Put [9]] (ring4\<lparr>cached_cons := 0xfffffffe\<rparr>) =
       Some (ins, outs, r') \<and>
     cons_idle r' \<and> outs @ cons_queue r' = cons_queue (ring4\<lparr>cached_cons := 0xfffffffe\<rparr>) @ ins)"
proof -
  have "shape_ok (ring4\<lparr>cached_cons := 0xfffffffe\<rparr>)" using ring4_shape by (simp add: shape_ok_def)
  then have "cons_idle (ring4\<lparr>cached_cons := 0xfffffffe\<rparr>)"
    unfolding cons_idle_def cons_ok_def by (simp add: ring4_def)
  then show ?thesis using rx_ring_fifo by blast
qed

end
