(* ===== verification/Xsk_Helpers.thy ===== *)
theory Xsk_Helpers
  imports Xsk_Ring
begin

text \<open>
  The AF\_XDP socket helpers of \<^verbatim>\<open>src/common/xsk_user_helpers.c\<close>: the packet memory
  (umem), the stack of free frames in it, and the set-up of a socket, which hands half of the
  frames to the kernel through the fill ring. The frame stack is an interface of its own, a
  last-in first-out pool, that the receive path builds on.
\<close>

section \<open>State\<close>

definition NUM_FRAMES :: nat where "NUM_FRAMES = 4096"
definition FRAME_SIZE :: nat where "FRAME_SIZE = 4096"
definition INVALID_UMEM_FRAME :: u64 where "INVALID_UMEM_FRAME = 0xffffffffffffffff"
definition XSK_RING_PROD__DEFAULT_NUM_DESCS :: nat where "XSK_RING_PROD__DEFAULT_NUM_DESCS = 2048"
definition XSK_RING_CONS__DEFAULT_NUM_DESCS :: nat where "XSK_RING_CONS__DEFAULT_NUM_DESCS = 2048"

text \<open>The records hold what is behind the pointers: the rings, and the bytes of the buffer.\<close>

record xsk_umem_info =
  fq :: "u64 xsk_ring"
  cq :: "u64 xsk_ring"
  umem :: int           \<comment> \<open>libbpf's handle, 0 for a null pointer\<close>
  buffer :: "byte list"

record stats_record =
  timestamp :: u64
  rx_packets :: u64
  rx_bytes :: u64
  tx_packets :: u64
  tx_bytes :: u64

record xsk_socket_info =
  rx :: "xdp_desc xsk_ring"
  tx :: "xdp_desc xsk_ring"
  umem_info :: xsk_umem_info
  xsk :: int
  umem_frame_addr :: "u64 list"
  umem_frame_free :: u32
  outstanding_tx :: u32
  stats :: stats_record
  prev_stats :: stats_record

section \<open>Operations\<close>

definition xsk_ring_prod__free :: "'e xsk_ring \<Rightarrow> u32 \<times> 'e xsk_ring" where
  "xsk_ring_prod__free r =
     (let r1 = r\<lparr>cached_cons := consumer r + ring_size r\<rparr>
      in (cached_cons r1 - cached_prod r1, r1))"

text \<open>The part of \<open>xsk_umem__create\<close> and \<open>xsk_socket__create\<close> that fills in a ring.\<close>

definition map_ring :: "env \<Rightarrow> string \<Rightarrow> nat \<Rightarrow> 'e list \<Rightarrow> u32 \<Rightarrow> 'e xsk_ring" where
  "map_ring env name n mem cons0 =
     (case ring_counters env name of (p, c, f) \<Rightarrow>
        \<lparr>cached_prod = 0, cached_cons = cons0, ring_mask = of_nat n - 1, ring_size = of_nat n,
         producer = p, consumer = c, ring_flags = f, ring = mem\<rparr>)"

definition configure_xsk_umem ::
    "env \<Rightarrow> nat \<Rightarrow> u64 \<Rightarrow> byte list \<Rightarrow> 'a world_scheme \<Rightarrow> xsk_umem_info option \<times> 'a world_scheme" where
  "configure_xsk_umem env buf sz bytes w =
     (let (p, w) = c_calloc env 112 w
      in if p = 0 then (None, w)
         else let (r, w) = sys env (Bpf (Xsk_umem_create buf sz)) w;
                  ret = rv r
              in if ret \<noteq> 0 then (None, w\<lparr>errno := - ret\<rparr>)
                 else (Some \<lparr>fq = map_ring env ''fill'' XSK_RING_PROD__DEFAULT_NUM_DESCS (ring_addrs env ''fill'')
                                  (of_nat XSK_RING_PROD__DEFAULT_NUM_DESCS),
                             cq = map_ring env ''comp'' XSK_RING_CONS__DEFAULT_NUM_DESCS (ring_addrs env ''comp'') 0,
                             umem = int buf, buffer = bytes\<rparr>, w))"

text \<open>An index outside \<open>umem_frame_addr\<close> is undefined.\<close>

definition xsk_alloc_umem_frame :: "xsk_socket_info \<Rightarrow> (u64 \<times> xsk_socket_info) option" where
  "xsk_alloc_umem_frame x =
     (if umem_frame_free x = 0 then Some (INVALID_UMEM_FRAME, x)
      else let k = umem_frame_free x - 1
           in if unat k < length (umem_frame_addr x)
              then Some (umem_frame_addr x ! unat k,
                         x\<lparr>umem_frame_free := k,
                           umem_frame_addr := (umem_frame_addr x)[unat k := INVALID_UMEM_FRAME]\<rparr>)
              else None)"

text \<open>The assertion aborts the program.\<close>

definition xsk_free_umem_frame :: "xsk_socket_info \<Rightarrow> u64 \<Rightarrow> xsk_socket_info option" where
  "xsk_free_umem_frame x frame =
     (if \<not> unat (umem_frame_free x) < NUM_FRAMES then None
      else let k = umem_frame_free x
           in if unat k < length (umem_frame_addr x)
              then Some (x\<lparr>umem_frame_addr := (umem_frame_addr x)[unat k := frame],
                           umem_frame_free := k + 1\<rparr>)
              else None)"

definition xsk_umem_free_frames :: "xsk_socket_info \<Rightarrow> u64" where
  "xsk_umem_free_frames x = ucast (umem_frame_free x)"

text \<open>
  The loop that moves \<open>n\<close> frames from the stack into reserved slots of the fill ring, shared by
  the set-up and by the receive path.
\<close>

fun stuff_fill :: "nat \<Rightarrow> u32 \<Rightarrow> xsk_socket_info \<Rightarrow> xsk_socket_info option" where
  "stuff_fill 0 idx x = Some x"
| "stuff_fill (Suc n) idx x = do {
     (frame, x1) \<leftarrow> xsk_alloc_umem_frame x;
     q \<leftarrow> ring_write (fq (umem_info x1)) (xsk_ring_prod__fill_addr (fq (umem_info x1)) idx) frame;
     stuff_fill n (idx + 1) (x1\<lparr>umem_info := (umem_info x1)\<lparr>fq := q\<rparr>\<rparr>)
   }"

definition zero_stats :: stats_record where
  "zero_stats = \<lparr>timestamp = 0, rx_packets = 0, rx_bytes = 0, tx_packets = 0, tx_bytes = 0\<rparr>"

definition zero_ring :: "'e xsk_ring" where
  "zero_ring = \<lparr>cached_prod = 0, cached_cons = 0, ring_mask = 0, ring_size = 0, producer = 0,
     consumer = 0, ring_flags = 0, ring = []\<rparr>"

text \<open>The socket after its frame table is initialised, and the store through \<open>umem->fq\<close>.\<close>

definition set_up_socket :: "env \<Rightarrow> int \<Rightarrow> xsk_umem_info \<Rightarrow> xsk_socket_info" where
  "set_up_socket env h um =
     \<lparr>rx = map_ring env ''rx'' XSK_RING_CONS__DEFAULT_NUM_DESCS (ring_descs env ''rx'') 0,
      tx = map_ring env ''tx'' XSK_RING_PROD__DEFAULT_NUM_DESCS (ring_descs env ''tx'')
             (of_nat XSK_RING_PROD__DEFAULT_NUM_DESCS),
      umem_info = um, xsk = h,
      umem_frame_addr = map (\<lambda>i. of_nat (i * FRAME_SIZE)) [0..<NUM_FRAMES],
      umem_frame_free = of_nat NUM_FRAMES, outstanding_tx = 0,
      stats = zero_stats, prev_stats = zero_stats\<rparr>"

definition set_fq :: "u64 xsk_ring \<Rightarrow> xsk_socket_info \<Rightarrow> xsk_socket_info" where
  "set_fq q x = x\<lparr>umem_info := (umem_info x)\<lparr>fq := q\<rparr>\<rparr>"

definition xsk_configure_socket ::
    "env \<Rightarrow> string \<Rightarrow> u32 \<Rightarrow> u16 \<Rightarrow> int \<Rightarrow> xsk_umem_info \<Rightarrow> 'a world_scheme \<Rightarrow>
     (xsk_socket_info option \<times> 'a world_scheme) option" where
  "xsk_configure_socket env ifname xdp_flags xsk_bind_flags xsk_if_queue um w =
     (let (p, w) = c_calloc env 32968 w
      in if p = 0 then Some (None, w)
         else let (ret, w) = call env (Bpf (Xsk_socket_create ifname xsk_if_queue (umem um) xdp_flags xsk_bind_flags)) w
         in if ret \<noteq> 0 then Some (None, w\<lparr>errno := - ret\<rparr>)
         else let (ifindex, w) = call env (Sock (If_nametoindex ifname)) w;
                  (ret, w) = call env (Bpf (Get_link_xdp_id ifindex xdp_flags)) w
         in if ret \<noteq> 0 then Some (None, w\<lparr>errno := - ret\<rparr>)
         else let x = set_up_socket env (int p) um;
                  (ret, idx, q) = xsk_ring_prod__reserve (fq (umem_info x)) (of_nat XSK_RING_PROD__DEFAULT_NUM_DESCS) 0
         in if ret \<noteq> of_nat XSK_RING_PROD__DEFAULT_NUM_DESCS
            then Some (None, w\<lparr>errno := - sint (ucast ret :: u32)\<rparr>)
            else do {
              x \<leftarrow> stuff_fill XSK_RING_PROD__DEFAULT_NUM_DESCS idx (set_fq q x);
              Some (Some (set_fq (xsk_ring_prod__submit (fq (umem_info x)) (of_nat XSK_RING_PROD__DEFAULT_NUM_DESCS)) x), w)
            })"

section \<open>The pool of free frames\<close>

definition frames_ok :: "xsk_socket_info \<Rightarrow> bool" where
  "frames_ok x \<longleftrightarrow> length (umem_frame_addr x) = NUM_FRAMES \<and> unat (umem_frame_free x) \<le> NUM_FRAMES"

text \<open>The free frames, the next one to be handed out first.\<close>

definition pool :: "xsk_socket_info \<Rightarrow> u64 list" where
  "pool x = rev (take (unat (umem_frame_free x)) (umem_frame_addr x))"

text \<open>What the operations on frames leave alone: everything but the pool.\<close>

definition frames_of :: "xsk_socket_info \<Rightarrow> xsk_socket_info" where
  "frames_of x = x\<lparr>umem_frame_addr := [], umem_frame_free := 0\<rparr>"

locale frame_pool =
  fixes inv :: "'x \<Rightarrow> bool" and free_list :: "'x \<Rightarrow> 'f list" and rest :: "'x \<Rightarrow> 'y"
    and capacity :: nat and bad :: 'f
    and alloc :: "'x \<Rightarrow> ('f \<times> 'x) option" and release :: "'x \<Rightarrow> 'f \<Rightarrow> 'x option"
  assumes alloc_empty: "inv x \<Longrightarrow> free_list x = [] \<Longrightarrow> alloc x = Some (bad, x)"
    and alloc_pop: "inv x \<Longrightarrow> free_list x = f # fs \<Longrightarrow>
        \<exists>x'. alloc x = Some (f, x') \<and> inv x' \<and> free_list x' = fs \<and> rest x' = rest x"
    and release_push: "inv x \<Longrightarrow> length (free_list x) < capacity \<Longrightarrow>
        \<exists>x'. release x f = Some x' \<and> inv x' \<and> free_list x' = f # free_list x \<and> rest x' = rest x"
    and release_full: "inv x \<Longrightarrow> length (free_list x) = capacity \<Longrightarrow> release x f = None"
    and bounded: "inv x \<Longrightarrow> length (free_list x) \<le> capacity"
begin

lemma alloc_total:
  "inv x \<Longrightarrow> \<exists>x'. alloc x = Some (hd (free_list x @ [bad]), x') \<and> inv x' \<and>
     free_list x' = tl (free_list x) \<and> rest x' = rest x"
  using alloc_empty [of x] alloc_pop [of x] by (cases "free_list x") force+

lemma release_alloc:
  assumes "inv x" and "length (free_list x) < capacity"
  shows "\<exists>x1 x2. release x f = Some x1 \<and> alloc x1 = Some (f, x2) \<and> inv x2 \<and>
     free_list x2 = free_list x \<and> rest x2 = rest x"
proof -
  obtain x1 where x1: "release x f = Some x1" "inv x1" "free_list x1 = f # free_list x" "rest x1 = rest x"
    using release_push [OF assms] by blast
  then show ?thesis using alloc_pop [OF x1(2,3)] by auto
qed

end

lemma pool_length: "frames_ok x \<Longrightarrow> length (pool x) = unat (umem_frame_free x)"
  by (simp add: pool_def frames_ok_def)

lemma alloc_frame_pop:
  assumes "frames_ok x" and "pool x = f # fs"
  shows "\<exists>x'. xsk_alloc_umem_frame x = Some (f, x') \<and> frames_ok x' \<and> pool x' = fs \<and>
     frames_of x' = frames_of x"
proof -
  define k where "k = umem_frame_free x - 1"
  have nz: "umem_frame_free x \<noteq> 0" using assms pool_length [OF assms(1)] by auto
  then have "1 \<le> umem_frame_free x" by (simp add: word_le_nat_alt unat_gt_0 Suc_le_eq)
  then have k: "unat (umem_frame_free x) = Suc (unat k)"
    using nz by (simp add: k_def unat_sub unat_gt_0)
  then have lt: "unat k < length (umem_frame_addr x)" using assms(1) by (simp add: frames_ok_def)
  have "take (Suc (unat k)) (umem_frame_addr x) = take (unat k) (umem_frame_addr x) @ [umem_frame_addr x ! unat k]"
    by (rule take_Suc_conv_app_nth [OF lt])
  then have "f = umem_frame_addr x ! unat k" "fs = rev (take (unat k) (umem_frame_addr x))"
    using assms(2) by (simp_all add: pool_def k)
  moreover have "unat k \<le> NUM_FRAMES" using k assms(1) by (simp add: frames_ok_def)
  ultimately show ?thesis using nz lt assms(1)
    by (simp add: xsk_alloc_umem_frame_def k_def [symmetric] frames_ok_def pool_def frames_of_def)
qed

lemma alloc_frame_empty: "frames_ok x \<Longrightarrow> pool x = [] \<Longrightarrow> xsk_alloc_umem_frame x = Some (INVALID_UMEM_FRAME, x)"
  using pool_length [of x] by (simp add: xsk_alloc_umem_frame_def unsigned_eq_0_iff)

lemma free_frame_push:
  assumes "frames_ok x" and "length (pool x) < NUM_FRAMES"
  shows "\<exists>x'. xsk_free_umem_frame x f = Some x' \<and> frames_ok x' \<and> pool x' = f # pool x \<and>
     frames_of x' = frames_of x"
proof -
  let ?k = "umem_frame_free x"
  have lt: "unat ?k < NUM_FRAMES" using assms pool_length by simp
  then have len: "unat ?k < length (umem_frame_addr x)" using assms(1) by (simp add: frames_ok_def)
  have k1: "unat (?k + 1) = Suc (unat ?k)" using lt unat_add32 [of ?k 1] by (simp add: NUM_FRAMES_def)
  have "take (Suc (unat ?k)) ((umem_frame_addr x)[unat ?k := f]) = take (unat ?k) (umem_frame_addr x) @ [f]"
    using len by (simp add: take_Suc_conv_app_nth)
  then show ?thesis using lt len assms(1)
    by (simp add: xsk_free_umem_frame_def frames_ok_def pool_def frames_of_def k1 Let_def)
qed

interpretation umem_pool: frame_pool frames_ok pool frames_of NUM_FRAMES INVALID_UMEM_FRAME
  xsk_alloc_umem_frame xsk_free_umem_frame
proof (unfold_locales, goal_cases)
  case (1 x)
  then show ?case by (rule alloc_frame_empty)
next
  case (2 x f fs)
  then show ?case by (rule alloc_frame_pop)
next
  case (3 x f)
  then show ?case by (rule free_frame_push)
next
  case (4 x f)
  then show ?case using pool_length [of x] by (simp add: xsk_free_umem_frame_def)
next
  case (5 x)
  then show ?case using pool_length [of x] by (simp add: frames_ok_def)
qed

section \<open>Moving frames into the fill ring\<close>

text \<open>
  Asking the pool for \<open>n\<close> frames gives the free ones and then, when it runs dry, the invalid
  address.
\<close>

definition stock :: "nat \<Rightarrow> u64 list \<Rightarrow> u64 list" where
  "stock n p = take n p @ replicate (n - length p) INVALID_UMEM_FRAME"

lemma stock_length [simp]: "length (stock n p) = n"
  by (simp add: stock_def)

lemma stock_0 [simp]: "stock 0 p = []"
  by (simp add: stock_def)

lemma stock_Suc: "stock (Suc n) p = hd (p @ [INVALID_UMEM_FRAME]) # stock n (tl p)"
  by (cases p) (simp_all add: stock_def)

lemma stock_enough: "n \<le> length p \<Longrightarrow> stock n p = take n p"
  by (simp add: stock_def)

text \<open>Everything but the pool and the fill ring.\<close>

definition frame_of :: "xsk_socket_info \<Rightarrow> xsk_socket_info" where
  "frame_of x = set_fq zero_ring (frames_of x)"

lemma set_fq_simps [simp]:
  "frames_ok (set_fq q x) = frames_ok x" "pool (set_fq q x) = pool x"
  "fq (umem_info (set_fq q x)) = q" "set_fq q (set_fq q' x) = set_fq q x"
  "rx (set_fq q x) = rx x" "buffer (umem_info (set_fq q x)) = buffer (umem_info x)"
  "stats (set_fq q x) = stats x"
  by (simp_all add: set_fq_def frames_ok_def pool_def)

lemma frame_of_set_fq [simp]: "frame_of (set_fq q x) = frame_of x"
  by (simp add: frame_of_def frames_of_def set_fq_def)

lemma frames_of_eqD:
  "frames_of x' = frames_of x \<Longrightarrow> umem_info x' = umem_info x \<and> frame_of x' = frame_of x"
  unfolding frame_of_def frames_of_def by (cases x, cases x') simp

lemma frame_of_eqD:
  "frame_of x' = frame_of x \<Longrightarrow>
     rx x' = rx x \<and> buffer (umem_info x') = buffer (umem_info x) \<and> stats x' = stats x"
  unfolding frame_of_def frames_of_def set_fq_def
  by (cases x, cases x', cases "umem_info x", cases "umem_info x'") simp

lemma stuff_fill_effect:
  assumes "frames_ok x" and "shape_ok (fq (umem_info x))"
  shows "\<exists>x'. stuff_fill n idx x = Some x' \<and> frames_ok x' \<and> pool x' = drop n (pool x) \<and>
     ring_fill (fq (umem_info x)) idx (stock n (pool x)) = Some (fq (umem_info x')) \<and>
     frame_of x' = frame_of x"
  using assms
proof (induction n arbitrary: idx x)
  case 0
  then show ?case by simp
next
  case (Suc n)
  let ?f = "hd (pool x @ [INVALID_UMEM_FRAME])" and ?q = "fq (umem_info x)"
  obtain x1 where x1: "xsk_alloc_umem_frame x = Some (?f, x1)" "frames_ok x1"
    "pool x1 = tl (pool x)" "frames_of x1 = frames_of x"
    using umem_pool.alloc_total [OF Suc.prems(1)] by blast
  have same: "umem_info x1 = umem_info x" "frame_of x1 = frame_of x"
    using frames_of_eqD [OF x1(4)] by auto
  let ?q1 = "?q\<lparr>ring := (ring ?q)[slot ?q idx := ?f]\<rparr>"
  have w: "ring_write ?q (xsk_ring_prod__fill_addr ?q idx) ?f = Some ?q1"
    using slot_less [OF Suc.prems(2)] by (simp add: ring_write_def fill_addr_slot)
  have "shape_ok ?q1" using Suc.prems(2) by (simp add: shape_ok_def)
  then obtain x' where x': "stuff_fill n (idx + 1) (set_fq ?q1 x1) = Some x'" "frames_ok x'"
    "pool x' = drop n (tl (pool x))" "ring_fill ?q1 (idx + 1) (stock n (tl (pool x))) = Some (fq (umem_info x'))"
    "frame_of x' = frame_of x"
    using Suc.IH [of "set_fq ?q1 x1" "idx + 1"] x1(2,3) same by auto
  have "stuff_fill (Suc n) idx x = Some x'"
    using x1(1) w x'(1) same by (simp add: set_fq_def)
  moreover have "drop n (tl (pool x)) = drop (Suc n) (pool x)" by (simp add: drop_Suc)
  ultimately show ?case using x' w by (simp add: stock_Suc)
qed

text \<open>Reserve, move and submit on the socket is the producer protocol on its fill ring.\<close>

lemma stuff_submit:
  assumes "frames_ok x" and "prod_idle (fq (umem_info x))" and "n \<le> free_slots (fq (umem_info x))"
    and "xsk_ring_prod__reserve (fq (umem_info x)) (of_nat n) i0 = (ret, idx, q)"
  shows "ret = of_nat n \<and> (\<exists>x'. stuff_fill n idx (set_fq q x) = Some x' \<and> frames_ok x' \<and>
     pool x' = drop n (pool x) \<and> frame_of x' = frame_of x \<and>
     prod_idle (xsk_ring_prod__submit (fq (umem_info x')) (of_nat n)) \<and>
     prod_queue (xsk_ring_prod__submit (fq (umem_info x')) (of_nat n)) =
       prod_queue (fq (umem_info x)) @ stock n (pool x) \<and>
     free_slots (xsk_ring_prod__submit (fq (umem_info x')) (of_nat n)) = free_slots (fq (umem_info x)) - n)"
proof -
  let ?q0 = "fq (umem_info x)" and ?vs = "stock n (pool x)"
  have ok: "prod_ok ?q0" using assms(2) by (simp add: prod_idle_def)
  have small: "n < 4294967296"
    using assms(3) prod_ok_dist(5) [OF ok] unat_u32_less [of "ring_size ?q0"] by linarith
  have un: "unat (of_nat n :: u64) = n" "(of_nat n :: u64) < 2 ^ 32"
    using small by (simp_all add: unat_of_nat word_less_nat_alt)
  from reserve_cases [OF ok un(2) assms(4)] have r: "ret = of_nat n" "shape_ok q"
    using assms(3) ok refreshed_ok(1) [OF ok] by (auto simp: un(1) prod_ok_def shape_ok_def)
  have r0: "xsk_ring_prod__reserve ?q0 (of_nat n) 0 = (ret, idx, q)"
    using assms(3,4) reserve_cases [OF ok un(2) assms(4)]
    by (auto simp: un(1) xsk_ring_prod__reserve_def split: prod.splits if_splits)
  obtain x' where x': "stuff_fill n idx (set_fq q x) = Some x'" "frames_ok x'" "pool x' = drop n (pool x)"
    "ring_fill q idx ?vs = Some (fq (umem_info x'))" "frame_of x' = frame_of x"
    using stuff_fill_effect [of "set_fq q x" n idx] assms(1) r(2) by auto
  have "ring_put ?vs ?q0 = Some (xsk_ring_prod__submit (fq (umem_info x')) (of_nat n))"
    using x'(4) r(1) by (simp add: ring_put_def r0)
  then show ?thesis using ring_put_ok [OF assms(2), of ?vs] assms(3) x' r(1) by auto
qed

section \<open>Socket set-up\<close>

definition all_frames :: "u64 list" where
  "all_frames = rev (map (\<lambda>i. of_nat (i * FRAME_SIZE)) [0..<NUM_FRAMES])"

text \<open>The rings the kernel maps for a new socket: nothing produced, nothing consumed.\<close>

definition fresh_rings :: "env \<Rightarrow> bool" where
  "fresh_rings env \<longleftrightarrow>
     (\<forall>name. fst (ring_counters env name) = 0 \<and> fst (snd (ring_counters env name)) = 0) \<and>
     (\<forall>name. length (ring_addrs env name) = 2048) \<and> (\<forall>name. length (ring_descs env name) = 2048)"

definition sock_fresh :: "xsk_socket_info \<Rightarrow> bool" where
  "sock_fresh x \<longleftrightarrow> frames_ok x \<and> prod_idle (fq (umem_info x)) \<and> cons_idle (rx x) \<and> cons_queue (rx x) = [] \<and>
     length (prod_queue (fq (umem_info x))) = 2048 \<and> prod_queue (fq (umem_info x)) @ pool x = all_frames"

lemma map_ring_shape:
  "length mem = 2048 \<Longrightarrow> shape_ok (map_ring env name 2048 mem c0)"
  unfolding shape_ok_def
  by (intro conjI exI [of _ 11]) (simp_all add: map_ring_def split: prod.split)

lemma map_ring_prod_fresh:
  assumes "length mem = 2048" and "fst (ring_counters env name) = 0" and "fst (snd (ring_counters env name)) = 0"
  shows "prod_idle (map_ring env name 2048 mem 2048)" "prod_queue (map_ring env name 2048 mem 2048) = []"
    "free_slots (map_ring env name 2048 mem 2048) = 2048"
  using map_ring_shape [OF assms(1), of env name 2048] assms(2,3)
  by (simp_all add: prod_idle_def prod_ok_def prod_queue_def free_slots_def stale_def map_ring_def
      split: prod.splits)

lemma map_ring_cons_fresh:
  assumes "length mem = 2048" and "fst (ring_counters env name) = 0" and "fst (snd (ring_counters env name)) = 0"
  shows "cons_idle (map_ring env name 2048 mem 0)" "cons_queue (map_ring env name 2048 mem 0) = []"
  using map_ring_shape [OF assms(1), of env name 0] assms(2,3)
  by (simp_all add: cons_idle_def cons_ok_def cons_queue_def map_ring_def split: prod.splits)

lemma all_frames_length [simp]: "length all_frames = 4096"
  by (simp add: all_frames_def NUM_FRAMES_def)

text \<open>From the reservation on, with a fresh fill ring nothing can go wrong.\<close>

lemma set_up_socket_frames:
  "frames_ok (set_up_socket env h um)" "pool (set_up_socket env h um) = all_frames"
  "umem_info (set_up_socket env h um) = um"
  by (simp_all add: frames_ok_def pool_def set_up_socket_def NUM_FRAMES_def all_frames_def)

lemma set_up_stuffed:
  assumes "fresh_rings env" and "prod_idle (fq um)" and "prod_queue (fq um) = []" and "free_slots (fq um) = 2048"
    and "xsk_ring_prod__reserve (fq um) 2048 0 = (ret, idx, q)"
  shows "ret = 2048" and "\<exists>x. stuff_fill 2048 idx (set_fq q (set_up_socket env h um)) = Some x \<and>
     sock_fresh (set_fq (xsk_ring_prod__submit (fq (umem_info x)) 2048) x) \<and>
     buffer (umem_info x) = buffer um"
proof -
  let ?x = "set_up_socket env h um"
  have rs: "xsk_ring_prod__reserve (fq (umem_info ?x)) (of_nat 2048) 0 = (ret, idx, q)"
    using assms(5) by (simp add: set_up_socket_frames)
  have "ret = of_nat 2048 \<and> (\<exists>x'. stuff_fill 2048 idx (set_fq q ?x) = Some x' \<and> frames_ok x' \<and>
     pool x' = drop 2048 all_frames \<and> frame_of x' = frame_of ?x \<and>
     prod_idle (xsk_ring_prod__submit (fq (umem_info x')) (of_nat 2048)) \<and>
     prod_queue (xsk_ring_prod__submit (fq (umem_info x')) (of_nat 2048)) = stock 2048 all_frames)"
    using stuff_submit [OF _ _ _ rs] assms(2-4) by (auto simp: set_up_socket_frames)
  then obtain x' where x': "ret = 2048" "stuff_fill 2048 idx (set_fq q ?x) = Some x'" "frames_ok x'"
    "pool x' = drop 2048 all_frames" "frame_of x' = frame_of ?x"
    "prod_idle (xsk_ring_prod__submit (fq (umem_info x')) 2048)"
    "prod_queue (xsk_ring_prod__submit (fq (umem_info x')) 2048) = take 2048 all_frames"
    by (auto simp: stock_enough)
  have "rx x' = map_ring env ''rx'' 2048 (ring_descs env ''rx'') 0" "buffer (umem_info x') = buffer um"
    using frame_of_eqD [OF x'(5)] by (simp_all add: set_up_socket_def XSK_RING_CONS__DEFAULT_NUM_DESCS_def)
  then have "sock_fresh (set_fq (xsk_ring_prod__submit (fq (umem_info x')) 2048) x')"
    using x' assms(1) map_ring_cons_fresh [of "ring_descs env ''rx''" env "''rx''"]
    by (simp add: sock_fresh_def fresh_rings_def)
  then show "ret = 2048" and "\<exists>x. stuff_fill 2048 idx (set_fq q ?x) = Some x \<and>
     sock_fresh (set_fq (xsk_ring_prod__submit (fq (umem_info x)) 2048) x) \<and>
     buffer (umem_info x) = buffer um"
    using x'(1,2) \<open>buffer (umem_info x') = buffer um\<close> by auto
qed

lemma xsk_configure_socket_ok:
  assumes "fresh_rings env" and "prod_idle (fq um)" and "prod_queue (fq um) = []" and "free_slots (fq um) = 2048"
  obtains xo w' where "xsk_configure_socket env ifname fl bfl qid um w = Some (xo, w')"
    "grows w w'" "xo \<noteq> None \<longleftrightarrow> list_all call_ok (since w w')"
    "\<forall>x. xo = Some x \<longrightarrow> sock_fresh x \<and> buffer (umem_info x) = buffer um"
proof -
  obtain p w1 where c1: "c_calloc env 32968 w = (p, w1)" by fastforce
  obtain v2 w2 where c2: "call env (Bpf (Xsk_socket_create ifname qid (umem um) fl bfl)) w1 = (v2, w2)" by fastforce
  obtain v3 w3 where c3: "call env (Sock (If_nametoindex ifname)) w2 = (v3, w3)" by fastforce
  obtain v4 w4 where c4: "call env (Bpf (Get_link_xdp_id v3 fl)) w3 = (v4, w4)" by fastforce
  obtain ret idx q where r: "xsk_ring_prod__reserve (fq um) 2048 0 = (ret, idx, q)"
    by (cases "xsk_ring_prod__reserve (fq um) 2048 0") auto
  obtain x where x: "ret = 2048" "stuff_fill 2048 idx (set_fq q (set_up_socket env (int p) um)) = Some x"
    "sock_fresh (set_fq (xsk_ring_prod__submit (fq (umem_info x)) 2048) x)" "buffer (umem_info x) = buffer um"
    using set_up_stuffed(1) [OF assms r] set_up_stuffed(2) [OF assms r, of "int p"] by auto
  obtain r1 where t1: "trace w1 = trace w @ [(Calloc 32968, r1)]" "(p \<noteq> 0) = (rv r1 \<noteq> 0)"
    using c_calloc_effect [OF c1] by auto
  obtain r2 where t2: "trace w2 = trace w1 @ [(Bpf (Xsk_socket_create ifname qid (umem um) fl bfl), r2)]" "v2 = rv r2"
    using call_effect [OF c2] by auto
  obtain r3 where t3: "trace w3 = trace w2 @ [(Sock (If_nametoindex ifname), r3)]"
    using call_effect [OF c3] by auto
  obtain r4 where t4: "trace w4 = trace w3 @ [(Bpf (Get_link_xdp_id v3 fl), r4)]" "v4 = rv r4"
    using call_effect [OF c4] by auto
  note defs = xsk_configure_socket_def c1 c2 c3 c4 r set_up_socket_frames XSK_RING_PROD__DEFAULT_NUM_DESCS_def
  note ts = t1 t2 t3 t4 since_def grows_def
  let ?x = "set_fq (xsk_ring_prod__submit (fq (umem_info x)) 2048) x"
  consider "p = 0" | "p \<noteq> 0" "v2 \<noteq> 0" | "p \<noteq> 0" "v2 = 0" "v4 \<noteq> 0" | "p \<noteq> 0" "v2 = 0" "v4 = 0" by blast
  then show ?thesis
  proof cases
    case 1
    show ?thesis using 1 t1 by (intro that [of None w1]) (simp_all add: defs ts)
  next
    case 2
    then show ?thesis using t1 t2 by (intro that [of None "w2\<lparr>errno := - v2\<rparr>"]) (simp_all add: defs ts)
  next
    case 3
    then show ?thesis using t1 t2 t4
      by (intro that [of None "w4\<lparr>errno := - v4\<rparr>"]) (simp_all add: defs ts)
  next
    case 4
    then show ?thesis using t1 t2 t4 x by (intro that [of "Some ?x" w4]) (auto simp add: defs ts)
  qed
qed

end
