(* ===== verification/Adaptor_Receive.thy ===== *)
theory Adaptor_Receive
  imports Xsk_Helpers
begin

text \<open>
  The receive half of the adaptor, \<^verbatim>\<open>src/adaptor/adaptor_receive.c\<close>: creation of the
  AF\_XDP socket, and the receive path that takes a batch of descriptors from the receive ring,
  restocks the fill ring and hands the payload of every packet to the caller's callback.

  One call sees one state of the kernel's counters: a kernel that moves its own counter while
  the call runs only shows up at the next call.
\<close>

section \<open>Socket creation\<close>

definition RX_BATCH_SIZE :: nat where "RX_BATCH_SIZE = 64"

definition alloc :: "env \<Rightarrow> nat \<Rightarrow> 'a world_scheme \<Rightarrow> nat \<times> 'a world_scheme" where
  "alloc env sz w =
     (let (new_mem, w) = c_malloc env sz w
      in if new_mem = 0 then (0, w) else (new_mem, w))"

text \<open>
  \<open>posix_memalign\<close> answers 0 on success; the buffer is then a fresh block whose contents come
  from the environment. \<open>umem\<close> is an output only in intention: the parameter is overwritten
  locally, so the caller's pointee never changes and it does not appear in the result.
\<close>

definition posix_memalign :: "env \<Rightarrow> nat \<Rightarrow> 'a world_scheme \<Rightarrow> int \<times> nat \<times> byte list \<times> 'a world_scheme" where
  "posix_memalign env n w =
     (let (r, w) = sys env (Memalign n) w
      in if rv r \<noteq> 0 then (rv r, 0, [], w)
         else let bytes = take n (rdata r @ replicate n 0); (p, w) = new_block bytes w
              in (0, p, bytes, w))"

definition adaptor__create_xsk_sock ::
    "env \<Rightarrow> string \<Rightarrow> u32 \<Rightarrow> u16 \<Rightarrow> int \<Rightarrow> 'a world_scheme \<Rightarrow>
     (xsk_socket_info option \<times> 'a world_scheme) option" where
  "adaptor__create_xsk_sock env ifname xdp_flags xsk_bind_flags xsk_if_queue w =
     (let (ret, w) = call env (Sock Setrlimit) w
      in if ret \<noteq> 0
         then Some (None, set_err (''ERROR: setrlimit(RLIMIT_MEMLOCK) \"'' @ strerror env (errno w) @ ''\"\<newline>'') w)
         else let packet_buffer_size = NUM_FRAMES * FRAME_SIZE;
                  (ret, packet_buffer, bytes, w) = posix_memalign env packet_buffer_size w
         in if ret \<noteq> 0
         then Some (None, set_err (''ERROR: Can't allocate buffer memory \"'' @ strerror env (errno w) @ ''\"\<newline>'') w)
         else let (um, w) = configure_xsk_umem env packet_buffer (of_nat packet_buffer_size) bytes w
         in case um of
           None \<Rightarrow> Some (None, set_err (''ERROR: Can't create umem \"'' @ strerror env (errno w) @ ''\"\<newline>'') w)
         | Some um \<Rightarrow> do {
             (x, w) \<leftarrow> xsk_configure_socket env ifname xdp_flags xsk_bind_flags xsk_if_queue um w;
             case x of
               None \<Rightarrow>
                 (let w = set_err (''ERROR: Can't setup AF_XDP socket \"'' @ strerror env (errno w) @ ''\"\<newline>'') w;
                      (_, w) = call env (Bpf (Xsk_umem_delete (umem um))) w
                  in Some (None, w))
             | Some x \<Rightarrow> Some (Some x, w)
           })"

section \<open>The receive path\<close>

text \<open>
  The callback gets its context, a pointer to the payload and a length; the pointer is modelled
  by the bytes of the packet memory from there on. It may fail, as C code may.
\<close>

type_synonym 'c vtl_recv_cb = "'c \<Rightarrow> byte list \<Rightarrow> u32 \<Rightarrow> 'c option"

record 'c vtl_recv_params =
  recv_cb :: "'c vtl_recv_cb option"
  ctx :: 'c
  global_exit :: bool

definition ETH_HLEN :: nat where "ETH_HLEN = 14"
definition IPHDR_SIZE :: nat where "IPHDR_SIZE = 20"
definition VTLHDR_SIZE :: nat where "VTLHDR_SIZE = 2"

text \<open>\<open>xsk_umem__get_data\<close>: \<open>&((char *)umem_area)[addr]\<close>.\<close>

definition xsk_umem__get_data :: "byte list \<Rightarrow> u64 \<Rightarrow> byte list option" where
  "xsk_umem__get_data umem_area addr =
     (if unat addr \<le> length umem_area then Some (drop (unat addr) umem_area) else None)"

definition process_packet ::
    "xsk_socket_info \<Rightarrow> u64 \<Rightarrow> u32 \<Rightarrow> 'c vtl_recv_params \<Rightarrow> (bool \<times> 'c vtl_recv_params) option" where
  "process_packet x addr len rp = do {
     pkt \<leftarrow> xsk_umem__get_data (buffer (umem_info x)) addr;
     let hdr_size = ETH_HLEN + IPHDR_SIZE + VTLHDR_SIZE;
     data \<leftarrow> (if hdr_size \<le> length pkt then Some (drop hdr_size pkt) else None);
     let data_size = len - of_nat hdr_size;
     (case recv_cb rp of
        None \<Rightarrow> Some (True, rp)
      | Some cb \<Rightarrow> do { c \<leftarrow> cb (ctx rp) data data_size; Some (True, rp\<lparr>ctx := c\<rparr>) })
   }"

text \<open>\<open>while (ret != stock_frames) ret = reserve(fq, rcvd, &idx_fq)\<close>: may spin for ever.\<close>

partial_function (option) reserve_retry ::
    "u32 \<Rightarrow> u32 \<Rightarrow> u32 \<Rightarrow> u32 \<Rightarrow> 'e xsk_ring \<Rightarrow> (u32 \<times> 'e xsk_ring) option" where
  "reserve_retry ret stock_frames rcvd idx q =
     (if ret = stock_frames then Some (idx, q)
      else let (ret, idx, q) = xsk_ring_prod__reserve q (ucast rcvd) idx
           in reserve_retry (ucast ret) stock_frames rcvd idx q)"

definition restock :: "u32 \<Rightarrow> xsk_socket_info \<Rightarrow> xsk_socket_info option" where
  "restock rcvd x =
     (let (stock_frames, q) = xsk_prod_nb_free (fq (umem_info x)) (ucast (xsk_umem_free_frames x))
      in if stock_frames > 0
         then let (ret, idx, q) = xsk_ring_prod__reserve q (ucast stock_frames) 0
              in do {
                (idx, q) \<leftarrow> reserve_retry (ucast ret) stock_frames rcvd idx q;
                x \<leftarrow> stuff_fill (unat stock_frames) idx (set_fq q x);
                Some (set_fq (xsk_ring_prod__submit (fq (umem_info x)) (ucast stock_frames)) x)
              }
         else Some (set_fq q x))"

fun process_loop ::
    "nat \<Rightarrow> u32 \<Rightarrow> xsk_socket_info \<Rightarrow> 'c vtl_recv_params \<Rightarrow> (xsk_socket_info \<times> 'c vtl_recv_params) option" where
  "process_loop 0 idx x rp = Some (x, rp)"
| "process_loop (Suc n) idx x rp = do {
     d \<leftarrow> ring_read (rx x) (xsk_ring_cons__rx_desc (rx x) idx);
     (ok, rp) \<leftarrow> process_packet x (desc_addr d) (desc_len d) rp;
     x \<leftarrow> (if ok then Some x else xsk_free_umem_frame x (desc_addr d));
     process_loop n (idx + 1) x rp
   }"

definition handle_receive_packets ::
    "xsk_socket_info \<Rightarrow> 'c vtl_recv_params \<Rightarrow> (xsk_socket_info \<times> 'c vtl_recv_params) option" where
  "handle_receive_packets x rp =
     (let (n, idx_rx, r) = xsk_ring_cons__peek (rx x) (of_nat RX_BATCH_SIZE) 0;
          rcvd = (ucast n :: u32); x = x\<lparr>rx := r\<rparr>
      in if rcvd = 0 then Some (x, rp)
         else do {
           x \<leftarrow> restock rcvd x;
           (x, rp) \<leftarrow> process_loop (unat rcvd) idx_rx x rp;
           Some (x\<lparr>rx := xsk_ring_cons__release (rx x) (ucast rcvd)\<rparr>, rp)
         })"

definition adaptor__rcv_data ::
    "env \<Rightarrow> xsk_socket_info \<Rightarrow> bool \<Rightarrow> 'c vtl_recv_params \<Rightarrow> 'a world_scheme \<Rightarrow>
     (xsk_socket_info \<times> 'c vtl_recv_params \<times> 'a world_scheme) option" where
  "adaptor__rcv_data env x xsk_poll_mode rp w =
     (let (ret, w) = (if xsk_poll_mode then call env (Sock (Poll (xsk x))) w else (1, w))
      in if ret \<le> 0 \<or> ret > 1 then Some (x, rp, w)
         else do { (x, rp) \<leftarrow> handle_receive_packets x rp; Some (x, rp, w) })"

section \<open>What a batch does\<close>

definition desc_ok :: "byte list \<Rightarrow> xdp_desc \<Rightarrow> bool" where
  "desc_ok buf d \<longleftrightarrow> unat (desc_addr d) + 36 \<le> length buf"

text \<open>The callback over the batch, oldest descriptor first.\<close>

fun deliver :: "byte list \<Rightarrow> 'c vtl_recv_cb option \<Rightarrow> xdp_desc list \<Rightarrow> 'c \<Rightarrow> 'c option" where
  "deliver buf cb [] c = Some c"
| "deliver buf cb (d # ds) c =
     (case cb of None \<Rightarrow> Some c
      | Some f \<Rightarrow> Option.bind (f c (drop (unat (desc_addr d) + 36) buf) (desc_len d - 36)) (deliver buf cb ds))"

lemma process_packet_deliver:
  assumes "desc_ok (buffer (umem_info x)) d"
  shows "process_packet x (desc_addr d) (desc_len d) rp =
     map_option (\<lambda>c. (True, rp\<lparr>ctx := c\<rparr>)) (deliver (buffer (umem_info x)) (recv_cb rp) [d] (ctx rp))"
proof -
  have "unat (desc_addr d) \<le> length (buffer (umem_info x))"
    and "36 \<le> length (drop (unat (desc_addr d)) (buffer (umem_info x)))"
    using assms by (simp_all add: desc_ok_def)
  then show ?thesis
    by (simp add: process_packet_def xsk_umem__get_data_def ETH_HLEN_def IPHDR_SIZE_def VTLHDR_SIZE_def
        add.commute map_conv_bind_option split: option.splits)
qed

lemma deliver_no_cb [simp]: "deliver buf None ds c = Some c"
  by (cases ds) simp_all

lemma deliver_Cons: "deliver buf cb (d # ds) c = Option.bind (deliver buf cb [d] c) (deliver buf cb ds)"
  by (cases cb) simp_all

lemma process_loop_deliver:
  assumes "ring_drain (rx x) idx n = Some ds" and "\<forall>d \<in> set ds. desc_ok (buffer (umem_info x)) d"
  shows "process_loop n idx x rp =
     map_option (\<lambda>c. (x, rp\<lparr>ctx := c\<rparr>)) (deliver (buffer (umem_info x)) (recv_cb rp) ds (ctx rp))"
  using assms
proof (induction n arbitrary: idx rp ds)
  case 0
  then show ?case by auto
next
  case (Suc n)
  let ?del = "deliver (buffer (umem_info x)) (recv_cb rp)"
  obtain d ds' where r: "ring_read (rx x) (xsk_ring_cons__rx_desc (rx x) idx) = Some d"
    "ring_drain (rx x) (idx + 1) n = Some ds'" "ds = d # ds'"
    using Suc.prems(1) by (auto simp: bind_eq_Some_conv)
  have p: "process_packet x (desc_addr d) (desc_len d) rp = map_option (\<lambda>c. (True, rp\<lparr>ctx := c\<rparr>)) (?del [d] (ctx rp))"
    using Suc.prems(2) r(3) by (intro process_packet_deliver) simp
  show ?case
  proof (cases "?del [d] (ctx rp)")
    case None
    then show ?thesis by (simp add: r p deliver_Cons [of _ _ d ds'] del: deliver.simps)
  next
    case (Some c)
    then show ?thesis using Suc.IH [OF r(2), of "rp\<lparr>ctx := c\<rparr>"] Suc.prems(2) r(3)
      by (simp add: r p deliver_Cons [of _ _ d ds'] del: deliver.simps)
  qed
qed

text \<open>How many frames a call moves to the fill ring.\<close>

definition stock_count :: "xsk_socket_info \<Rightarrow> nat" where
  "stock_count x = unat (fst (xsk_prod_nb_free (fq (umem_info x)) (umem_frame_free x)))"

lemma stock_count_le: "prod_ok (fq (umem_info x)) \<Longrightarrow> stock_count x \<le> free_slots (fq (umem_info x))"
  using nb_free_cases [OF _ surjective_pairing, of "fq (umem_info x)" "umem_frame_free x"]
    prod_ok_dist(4) [of "fq (umem_info x)"]
  by (auto simp: stock_count_def)

lemma stock_count_exhausted:
  "prod_ok (fq (umem_info x)) \<Longrightarrow> umem_frame_free x = 0 \<Longrightarrow> stock_count x = free_cached (fq (umem_info x))"
  using nb_free_cases [OF _ surjective_pairing, of "fq (umem_info x)" 0] by (simp add: stock_count_def)

lemma reserve_retry_done [simp]: "reserve_retry s s rcvd idx q = Some (idx, q)"
  by (simp add: reserve_retry.simps)

lemma refreshed_idle: "prod_idle q \<Longrightarrow> prod_idle (refreshed q)"
  using refreshed_ok(1) [of q] by (simp add: prod_idle_def refreshed_def)

lemma restock_ok:
  assumes "frames_ok x" and "prod_idle (fq (umem_info x))"
  obtains x' where "restock rcvd x = Some x'" "frames_ok x'" "prod_idle (fq (umem_info x'))"
    "pool x' = drop (stock_count x) (pool x)" "frame_of x' = frame_of x"
    "prod_queue (fq (umem_info x')) = prod_queue (fq (umem_info x)) @ stock (stock_count x) (pool x)"
    "free_slots (fq (umem_info x')) = free_slots (fq (umem_info x)) - stock_count x"
proof -
  let ?q = "fq (umem_info x)"
  have ok: "prod_ok ?q" using assms(2) by (simp add: prod_idle_def)
  obtain k q where kq: "xsk_prod_nb_free ?q (umem_frame_free x) = (k, q)" by fastforce
  have nf: "xsk_prod_nb_free ?q (ucast (xsk_umem_free_frames x)) = (k, q)"
    using kq by (simp add: xsk_umem_free_frames_def)
  have k: "stock_count x = unat k" by (simp add: stock_count_def kq)
  have q: "q = ?q \<or> q = refreshed ?q" using nb_free_cases [OF ok kq] by auto
  then have idle: "prod_idle q" and same: "prod_queue q = prod_queue ?q" "free_slots q = free_slots ?q"
    using assms(2) refreshed_idle refreshed_ok(3,4) [OF ok] by auto
  have le: "unat k \<le> free_slots q" using stock_count_le [OF ok] k same by simp
  show ?thesis
  proof (cases "k = 0")
    case True
    then show ?thesis using nf assms idle same k
      by (intro that [of "set_fq q x"]) (simp_all add: restock_def)
  next
    case False
    obtain ret idx q1 where rs: "xsk_ring_prod__reserve q (of_nat (unat k)) 0 = (ret, idx, q1)"
      by (cases "xsk_ring_prod__reserve q (of_nat (unat k)) 0") auto
    have w: "(of_nat (unat k) :: u64) = ucast k" by simp
    obtain x' where x': "ret = ucast k" "stuff_fill (unat k) idx (set_fq q1 x) = Some x'" "frames_ok x'"
      "pool x' = drop (unat k) (pool x)" "frame_of x' = frame_of x"
      "prod_idle (xsk_ring_prod__submit (fq (umem_info x')) (ucast k))"
      "prod_queue (xsk_ring_prod__submit (fq (umem_info x')) (ucast k)) = prod_queue ?q @ stock (unat k) (pool x)"
      "free_slots (xsk_ring_prod__submit (fq (umem_info x')) (ucast k)) = free_slots ?q - unat k"
      using stuff_submit [of "set_fq q x" "unat k" 0 ret idx q1] assms(1) idle le rs same
      unfolding w by auto
    have "0 < k" using False by (simp add: word_less_nat_alt unat_gt_0)
    then have "restock rcvd x = Some (set_fq (xsk_ring_prod__submit (fq (umem_info x')) (ucast k)) x')"
      using nf rs x'(1,2) unfolding w by (simp add: restock_def)
    then show ?thesis using x' k
      by (intro that [of "set_fq (xsk_ring_prod__submit (fq (umem_info x')) (ucast k)) x'"]) simp_all
  qed
qed

lemma ring_drain_length: "ring_drain r idx n = Some xs \<Longrightarrow> length xs = n"
  by (induction n arbitrary: idx xs) (auto simp: bind_eq_Some_conv)

definition set_rx :: "xdp_desc xsk_ring \<Rightarrow> xsk_socket_info \<Rightarrow> xsk_socket_info" where
  "set_rx r x = x\<lparr>rx := r\<rparr>"

lemma set_rx_simps [simp]:
  "frames_ok (set_rx r x) = frames_ok x" "pool (set_rx r x) = pool x" "umem_info (set_rx r x) = umem_info x"
  "rx (set_rx r x) = r" "stock_count (set_rx r x) = stock_count x" "set_rx r (set_rx r' x) = set_rx r x"
  by (simp_all add: set_rx_def frames_ok_def pool_def stock_count_def)

text \<open>The call is one take from the receive ring, one restocking and one pass of the callback.\<close>

lemma handle_batch:
  assumes "frames_ok x" and "prod_idle (fq (umem_info x))"
    and "ring_take RX_BATCH_SIZE (rx x) = Some (ds, r')" and "length ds \<le> RX_BATCH_SIZE"
    and "\<forall>d \<in> set ds. desc_ok (buffer (umem_info x)) d"
  obtains x' where "handle_receive_packets x rp =
      map_option (\<lambda>c. (x', rp\<lparr>ctx := c\<rparr>)) (deliver (buffer (umem_info x)) (recv_cb rp) ds (ctx rp))"
    "rx x' = r'" "frames_ok x'" "prod_idle (fq (umem_info x'))"
    "buffer (umem_info x') = buffer (umem_info x)"
    "pool x' = drop (if ds = [] then 0 else stock_count x) (pool x)"
    "prod_queue (fq (umem_info x')) =
       prod_queue (fq (umem_info x)) @ stock (if ds = [] then 0 else stock_count x) (pool x)"
proof -
  obtain m idx r1 where pk: "xsk_ring_cons__peek (rx x) (of_nat RX_BATCH_SIZE) 0 = (m, idx, r1)"
    by (cases "xsk_ring_cons__peek (rx x) (of_nat RX_BATCH_SIZE) 0") auto
  have d: "ring_drain r1 idx (unat m) = Some ds" and r': "r' = xsk_ring_cons__release r1 m"
    using assms(3) pk by (auto simp: ring_take_def RX_BATCH_SIZE_def bind_eq_Some_conv)
  have len: "length ds = unat m" using ring_drain_length [OF d] .
  define rcvd where "rcvd = (ucast m :: u32)"
  have rc: "unat rcvd = unat m" using assms(4) len by (simp add: rcvd_def RX_BATCH_SIZE_def unat_narrow)
  then have "unat (ucast rcvd :: u64) = unat m" by simp
  then have rback: "(ucast rcvd :: u64) = m" by (rule unsigned_word_eqI)
  show ?thesis
  proof (cases "ds = []")
    case True
    then have z: "m = 0" "rcvd = 0" using len rc by (simp_all add: unsigned_eq_0_iff)
    have "handle_receive_packets x rp = Some (set_rx r1 x, rp)"
      using z by (simp add: handle_receive_packets_def pk rcvd_def set_rx_def)
    moreover have "r' = r1" using r' z by (simp add: xsk_ring_cons__release_def)
    ultimately show ?thesis using True assms(1,2) by (intro that [of "set_rx r' x"]) simp_all
  next
    case False
    then have nz: "rcvd \<noteq> 0" using len rc by auto
    obtain x1 where x1: "restock rcvd (set_rx r1 x) = Some x1" "frames_ok x1" "prod_idle (fq (umem_info x1))"
      "pool x1 = drop (stock_count x) (pool x)" "frame_of x1 = frame_of (set_rx r1 x)"
      "prod_queue (fq (umem_info x1)) = prod_queue (fq (umem_info x)) @ stock (stock_count x) (pool x)"
      using restock_ok [of "set_rx r1 x" rcvd] assms(1,2) by auto
    have keep: "rx x1 = r1" "buffer (umem_info x1) = buffer (umem_info x)"
      using frame_of_eqD [OF x1(5)] by auto
    have loop: "process_loop (unat rcvd) idx x1 rp = map_option (\<lambda>c. (x1, rp\<lparr>ctx := c\<rparr>))
        (deliver (buffer (umem_info x)) (recv_cb rp) ds (ctx rp))"
      using process_loop_deliver [of x1 idx "unat rcvd" ds rp] d assms(5) keep rc by simp
    have "handle_receive_packets x rp = map_option (\<lambda>c. (set_rx r' x1, rp\<lparr>ctx := c\<rparr>))
        (deliver (buffer (umem_info x)) (recv_cb rp) ds (ctx rp))"
      using nz x1(1) loop r' rback keep
      by (simp add: handle_receive_packets_def pk rcvd_def [symmetric] set_rx_def map_conv_bind_option o_def)
    then show ?thesis using False x1 keep(2) by (intro that [of "set_rx r' x1"]) simp_all
  qed
qed

section \<open>A new socket\<close>

lemma posix_memalign_effect:
  "posix_memalign env n w = (ret, p, bytes, w') \<Longrightarrow>
     \<exists>r. trace w' = trace w @ [(Memalign n, r)] \<and> ret = rv r \<and> (ret = 0 \<longrightarrow> length bytes = n)"
  by (auto simp: posix_memalign_def sys_def new_block_def Let_def split: if_splits)

lemma configure_xsk_umem_effect:
  assumes "fresh_rings env" and "configure_xsk_umem env buf sz bytes w = (um, w')"
  obtains t where "trace w' = trace w @ t" "um \<noteq> None \<longleftrightarrow> list_all call_ok t"
    "\<forall>u. um = Some u \<longrightarrow> prod_idle (fq u) \<and> prod_queue (fq u) = [] \<and> free_slots (fq u) = 2048 \<and> buffer u = bytes"
proof -
  obtain p w1 where c1: "c_calloc env 112 w = (p, w1)" by fastforce
  obtain r2 w2 where c2: "sys env (Bpf (Xsk_umem_create buf sz)) w1 = (r2, w2)" by fastforce
  obtain r1 where t1: "trace w1 = trace w @ [(Calloc 112, r1)]" "(p \<noteq> 0) = (rv r1 \<noteq> 0)"
    using c_calloc_effect [OF c1] by auto
  have t2: "trace w2 = trace w1 @ [(Bpf (Xsk_umem_create buf sz), r2)]" using sys_effect [OF c2] by simp
  note fresh = map_ring_prod_fresh [of "ring_addrs env ''fill''" env "''fill''"]
  note ass = assms [unfolded configure_xsk_umem_def c1 c2 XSK_RING_PROD__DEFAULT_NUM_DESCS_def fresh_rings_def]
  show ?thesis
  proof (cases "p = 0")
    case True
    then show ?thesis using ass t1 by (intro that [of "[(Calloc 112, r1)]"]) (auto simp: c2)
  next
    case False
    then show ?thesis using ass t1 t2 fresh
      by (intro that [of "[(Calloc 112, r1), (Bpf (Xsk_umem_create buf sz), r2)]"]) (auto simp: c2 Let_def split: if_splits)
  qed
qed

lemma snprintf_prefix: "k < n \<Longrightarrow> take k (snprintf n s) = take k s"
  by (simp add: snprintf_def min_absorb1)



section \<open>The receive call\<close>

definition rx_ready :: "xsk_socket_info \<Rightarrow> bool" where
  "rx_ready x \<longleftrightarrow> frames_ok x \<and> prod_idle (fq (umem_info x)) \<and> cons_idle (rx x)"

lemma receive_batch_ok:
  assumes "rx_ready x" and "\<forall>d \<in> set (cons_queue (rx x)). desc_ok (buffer (umem_info x)) d"
  obtains ds x' where "cons_queue (rx x) = ds @ cons_queue (rx x')" "length ds \<le> 64"
    "cons_queue (rx x) \<noteq> [] \<longrightarrow> ds \<noteq> []" "rx_ready x'" "buffer (umem_info x') = buffer (umem_info x)"
    "handle_receive_packets x rp =
      map_option (\<lambda>c. (x', rp\<lparr>ctx := c\<rparr>)) (deliver (buffer (umem_info x)) (recv_cb rp) ds (ctx rp))"
    "pool x' = drop (if ds = [] then 0 else stock_count x) (pool x)"
    "prod_queue (fq (umem_info x')) =
       prod_queue (fq (umem_info x)) @ stock (if ds = [] then 0 else stock_count x) (pool x)"
proof -
  have r: "frames_ok x" "prod_idle (fq (umem_info x))" "cons_idle (rx x)" using assms(1) by (auto simp: rx_ready_def)
  obtain ds r' where t: "ring_take RX_BATCH_SIZE (rx x) = Some (ds, r')" "cons_idle r'"
    "cons_queue (rx x) = ds @ cons_queue r'" "length ds \<le> RX_BATCH_SIZE"
    "0 < RX_BATCH_SIZE \<longrightarrow> cons_queue (rx x) \<noteq> [] \<longrightarrow> ds \<noteq> []"
    using ring_take_law [OF r(3)] by blast
  have ok: "\<forall>d \<in> set ds. desc_ok (buffer (umem_info x)) d" using assms(2) t(3) by auto
  show ?thesis
  proof (rule handle_batch [OF r(1,2) t(1,4) ok, of rp], goal_cases)
    case (1 x')
    show ?case using t(2-5) 1 by (intro that [of ds x']) (simp_all add: rx_ready_def RX_BATCH_SIZE_def)
  qed
qed

text \<open>
  C6. The receive call. With the rings in order and the queued descriptors inside the packet
  memory, the call returns (its retry loop does not spin): it takes at most 64 descriptors from
  the front of the receive queue, and at least one if there is any, runs the callback on each in
  order with the bytes behind the 36 bytes of headers and the length less 36, and leaves the
  others queued. If the callback never fails, neither does the call. Frames only go from the pool
  to the fill ring: those of the packets just processed are not put back into the pool.
\<close>

theorem receive_batch:
  assumes "rx_ready x" and "\<forall>d \<in> set (cons_queue (rx x)). desc_ok (buffer (umem_info x)) d"
    and "\<forall>c. deliver (buffer (umem_info x)) (recv_cb rp) (cons_queue (rx x)) c \<noteq> None"
  shows "\<exists>ds x' c k. handle_receive_packets x rp = Some (x', rp\<lparr>ctx := c\<rparr>) \<and>
     deliver (buffer (umem_info x)) (recv_cb rp) ds (ctx rp) = Some c \<and>
     cons_queue (rx x) = ds @ cons_queue (rx x') \<and> length ds \<le> 64 \<and> (cons_queue (rx x) \<noteq> [] \<longrightarrow> ds \<noteq> []) \<and>
     rx_ready x' \<and> buffer (umem_info x') = buffer (umem_info x) \<and> pool x' = drop k (pool x) \<and>
     prod_queue (fq (umem_info x')) = prod_queue (fq (umem_info x)) @ stock k (pool x)"
proof -
  have app: "deliver buf cb (as @ bs) c = Option.bind (deliver buf cb as c) (deliver buf cb bs)"
    for buf as bs c and cb :: "'a vtl_recv_cb option"
    by (induction as arbitrary: c) (auto split: option.splits Option.bind_splits)
  show ?thesis
  proof (rule receive_batch_ok [OF assms(1,2), of rp], goal_cases)
    case (1 ds x')
    obtain c where "deliver (buffer (umem_info x)) (recv_cb rp) ds (ctx rp) = Some c"
      using assms(3) 1(1) app [of "buffer (umem_info x)" "recv_cb rp" ds] by (metis Option.bind.bind_lzero option.exhaust)
    then show ?case using 1 by (intro exI [of _ ds] exI [of _ x'] exI [of _ c]
          exI [of _ "if ds = [] then 0 else stock_count x"]) simp
  qed
qed

text \<open>A socket with one packet of 40 bytes at address 8 of a small packet memory.\<close>

definition rx_example :: xsk_socket_info where
  "rx_example =
     \<lparr>rx = \<lparr>cached_prod = 0xffffffff, cached_cons = 0xffffffff, ring_mask = 3, ring_size = 4,
             producer = 0, consumer = 0xffffffff, ring_flags = 0,
             ring = replicate 4 \<lparr>desc_addr = 8, desc_len = 40\<rparr>\<rparr>,
      tx = zero_ring,
      umem_info = \<lparr>fq = ring4, cq = zero_ring, umem = 1, buffer = replicate 48 7\<rparr>, xsk = 1,
      umem_frame_addr = replicate 4096 0, umem_frame_free = 1, outstanding_tx = 0,
      stats = zero_stats, prev_stats = zero_stats\<rparr>"

lemma rx_example_ready: "rx_ready rx_example"
proof -
  have "shape_ok (rx rx_example)" unfolding shape_ok_def by (intro conjI exI [of _ 2]) (simp_all add: rx_example_def)
  then have "cons_idle (rx rx_example)" by (simp add: rx_example_def cons_idle_def cons_ok_def)
  moreover have "prod_idle ring4" using ring4_shape unfolding prod_idle_def prod_ok_def by (simp add: ring4_def stale_def)
  ultimately show ?thesis by (simp add: rx_ready_def rx_example_def frames_ok_def NUM_FRAMES_def)
qed

lemma rx_example_queue: "cons_queue (rx rx_example) = [\<lparr>desc_addr = 8, desc_len = 40\<rparr>]"
  by (simp add: cons_queue_def rx_example_def slot_def)

text \<open>The callback that records every payload.\<close>

definition log_cb :: "byte list list vtl_recv_cb" where
  "log_cb c data n = Some (c @ [take (unat n) data])"

theorem receive_batch_witness:
  "rx_ready rx_example \<and> (\<exists>ds x' c k.
     handle_receive_packets rx_example \<lparr>recv_cb = Some log_cb, ctx = [], global_exit = False\<rparr> =
       Some (x', \<lparr>recv_cb = Some log_cb, ctx = [], global_exit = False\<rparr>\<lparr>ctx := c\<rparr>) \<and>
     deliver (buffer (umem_info rx_example)) (Some log_cb) ds [] = Some c \<and>
     cons_queue (rx rx_example) = ds @ cons_queue (rx x') \<and> length ds \<le> 64 \<and>
     (cons_queue (rx rx_example) \<noteq> [] \<longrightarrow> ds \<noteq> []) \<and>
     rx_ready x' \<and> buffer (umem_info x') = buffer (umem_info rx_example) \<and> pool x' = drop k (pool rx_example) \<and>
     prod_queue (fq (umem_info x')) = prod_queue (fq (umem_info rx_example)) @ stock k (pool rx_example))"
proof -
  have "\<forall>d \<in> set (cons_queue (rx rx_example)). desc_ok (buffer (umem_info rx_example)) d"
    unfolding rx_example_queue by (simp add: desc_ok_def rx_example_def)
  moreover have "\<forall>c. deliver (buffer (umem_info rx_example)) (Some log_cb) (cons_queue (rx rx_example)) c \<noteq> None"
    by (simp add: rx_example_queue log_cb_def)
  ultimately show ?thesis
    using receive_batch [OF rx_example_ready, where rp = "\<lparr>recv_cb = Some log_cb, ctx = [], global_exit = False\<rparr>"]
      rx_example_ready by simp
qed

end
