(* ===== verification/Receive_System.thy ===== *)
theory Receive_System
  imports Adaptor_Receive
begin

text \<open>
  The receive path as a system: the program's receive call interleaved, in any order, with the
  two things the kernel does to an AF\_XDP socket. It fetches frame addresses from the fill ring
  (addresses outside the packet memory are dropped, as the kernel does) and it stores a packet in
  a frame it holds, behind the 256 bytes of headroom, and queues its descriptor. The callback is
  the one that records every payload.

  Two invariants hold in every reachable state: no frame has two owners, so a packet waiting to
  be processed is never overwritten; and the payloads recorded, followed by those still queued,
  are those that arrived, in order. A third fact is about what the code does not do: frames are
  never given back, so the socket stops receiving once they have been used up.
\<close>

section \<open>States and steps\<close>

record rx_system =
  sock :: xsk_socket_info
  params :: "byte list list vtl_recv_params"
  inflight :: "u64 list"          \<comment> \<open>frames the kernel holds\<close>
  arrived :: "byte list list"     \<comment> \<open>payloads of the packets stored so far\<close>

definition XDP_PACKET_HEADROOM :: nat where "XDP_PACKET_HEADROOM = 256"

definition valid_frame :: "u64 \<Rightarrow> bool" where
  "valid_frame f \<longleftrightarrow> unat f mod FRAME_SIZE = 0 \<and> unat f < NUM_FRAMES * FRAME_SIZE"

inductive rx_step :: "rx_system \<Rightarrow> rx_system \<Rightarrow> bool" where
  receive:
    "handle_receive_packets (sock s) (params s) = Some (x, rp) \<Longrightarrow>
     rx_step s (s\<lparr>sock := x, params := rp\<rparr>)"
| kernel_fetch:
    "kernel_take n (fq (umem_info (sock s))) = Some (fs, q) \<Longrightarrow>
     rx_step s (s\<lparr>sock := set_fq q (sock s), inflight := inflight s @ filter valid_frame fs\<rparr>)"
| kernel_store:
    "f \<in> set (inflight s) \<Longrightarrow> 36 \<le> length pkt \<Longrightarrow> length pkt \<le> FRAME_SIZE - XDP_PACKET_HEADROOM \<Longrightarrow>
     0 < cons_room (rx (sock s)) \<Longrightarrow>
     kernel_put [\<lparr>desc_addr = f + 256, desc_len = of_nat (length pkt)\<rparr>] (rx (sock s)) = Some r \<Longrightarrow>
     memcpy (buffer (umem_info (sock s))) (unat f + XDP_PACKET_HEADROOM) pkt = Some b \<Longrightarrow>
     rx_step s (s\<lparr>sock := (sock s)\<lparr>rx := r, umem_info := (umem_info (sock s))\<lparr>buffer := b\<rparr>\<rparr>,
       inflight := remove1 f (inflight s), arrived := arrived s @ [drop 36 pkt]\<rparr>)"

inductive_cases rx_stepE: "rx_step s s'"

definition rx_start :: "xsk_socket_info \<Rightarrow> rx_system" where
  "rx_start x = \<lparr>sock = x, params = \<lparr>recv_cb = Some log_cb, ctx = [], global_exit = False\<rparr>,
     inflight = [], arrived = []\<rparr>"

section \<open>The invariant\<close>

definition frame_base :: "xdp_desc \<Rightarrow> u64" where
  "frame_base d = desc_addr d - 256"

text \<open>Every frame the system still uses, listed by its owner.\<close>

definition owned :: "rx_system \<Rightarrow> u64 list" where
  "owned s = pool (sock s) @ filter valid_frame (prod_queue (fq (umem_info (sock s)))) @ inflight s @
     map frame_base (cons_queue (rx (sock s)))"

definition payload :: "byte list \<Rightarrow> xdp_desc \<Rightarrow> byte list" where
  "payload buf d = take (unat (desc_len d) - 36) (drop (unat (desc_addr d) + 36) buf)"

definition desc_fits :: "xdp_desc \<Rightarrow> bool" where
  "desc_fits d \<longleftrightarrow> unat (desc_addr d) = unat (frame_base d) + 256 \<and> 36 \<le> unat (desc_len d) \<and>
     unat (desc_len d) \<le> FRAME_SIZE - XDP_PACKET_HEADROOM"

definition frames_inv :: "rx_system \<Rightarrow> bool" where
  "frames_inv s \<longleftrightarrow> distinct (owned s) \<and> list_all valid_frame (owned s) \<and>
     list_all desc_fits (cons_queue (rx (sock s)))"

definition stream_inv :: "rx_system \<Rightarrow> bool" where
  "stream_inv s \<longleftrightarrow>
     ctx (params s) @ map (payload (buffer (umem_info (sock s)))) (cons_queue (rx (sock s))) = arrived s"

definition rx_inv :: "rx_system \<Rightarrow> bool" where
  "rx_inv s \<longleftrightarrow> rx_ready (sock s) \<and> length (buffer (umem_info (sock s))) = NUM_FRAMES * FRAME_SIZE \<and>
     recv_cb (params s) = Some log_cb \<and> frames_inv s \<and> stream_inv s"

lemma valid_frameE:
  assumes "valid_frame f"
  obtains k where "unat f = k * 4096" "k < 4096"
proof
  show "unat f = (unat f div 4096) * 4096" using assms by (auto simp: valid_frame_def FRAME_SIZE_def)
  then show "unat f div 4096 < 4096" using assms by (simp add: valid_frame_def NUM_FRAMES_def FRAME_SIZE_def)
qed

lemma valid_frame_room: "valid_frame f \<Longrightarrow> unat f + FRAME_SIZE \<le> NUM_FRAMES * FRAME_SIZE"
  by (erule valid_frameE) (simp add: FRAME_SIZE_def NUM_FRAMES_def)

lemma valid_frames_apart:
  assumes "valid_frame f" and "valid_frame g" and "f \<noteq> g"
  shows "unat f + FRAME_SIZE \<le> unat g \<or> unat g + FRAME_SIZE \<le> unat f"
proof -
  obtain j k where jk: "unat f = j * 4096" "unat g = k * 4096"
    using assms(1,2) by (metis valid_frameE)
  have "unat f \<noteq> unat g" using assms(3) unsigned_word_eqI by blast
  then have "j \<noteq> k" using jk by auto
  then show ?thesis unfolding jk FRAME_SIZE_def by linarith
qed

lemma invalid_frame [simp]: "\<not> valid_frame INVALID_UMEM_FRAME"
  by (simp add: valid_frame_def INVALID_UMEM_FRAME_def NUM_FRAMES_def FRAME_SIZE_def)

lemma filter_stock:
  assumes "list_all valid_frame p"
  shows "filter valid_frame (stock n p) = take n p"
proof -
  have "filter valid_frame (take n p) = take n p"
    using assms by (intro filter_True) (auto simp: list_all_iff dest: in_set_takeD)
  then show ?thesis by (simp add: stock_def)
qed

lemma rx_inv_desc_ok:
  assumes "rx_inv s" and "d \<in> set (cons_queue (rx (sock s)))"
  shows "desc_ok (buffer (umem_info (sock s))) d" "desc_fits d" "valid_frame (frame_base d)"
proof -
  have i: "list_all valid_frame (owned s)" "list_all desc_fits (cons_queue (rx (sock s)))"
    using assms(1) unfolding rx_inv_def frames_inv_def by blast+
  have "frame_base d \<in> set (owned s)" using assms(2) by (simp add: owned_def)
  then show f: "desc_fits d" "valid_frame (frame_base d)"
    using assms(2) i unfolding list_all_iff by blast+
  show "desc_ok (buffer (umem_info (sock s))) d"
    using valid_frame_room [OF f(2)] f(1) assms(1)
    by (simp add: desc_ok_def desc_fits_def rx_inv_def FRAME_SIZE_def XDP_PACKET_HEADROOM_def)
qed

text \<open>The recording callback appends the payloads of the batch.\<close>

lemma deliver_log:
  "list_all desc_fits ds \<Longrightarrow> deliver buf (Some log_cb) ds c = Some (c @ map (payload buf) ds)"
proof (induction ds arbitrary: c)
  case (Cons d ds)
  have "36 \<le> desc_len d" using Cons.prems by (simp add: desc_fits_def word_le_nat_alt)
  then have "unat (desc_len d - 36) = unat (desc_len d) - 36" by (simp add: unat_sub)
  then show ?case using Cons by (simp add: log_cb_def payload_def)
qed simp

section \<open>The invariant is kept\<close>

lemma memcpy_elsewhere:
  assumes "memcpy buf off bs = Some b" and "a + n \<le> off \<or> off + length bs \<le> a"
  shows "take n (drop a b) = take n (drop a buf)"
proof -
  have b: "b = take off buf @ bs @ drop (off + length bs) buf" and le: "off + length bs \<le> length buf"
    using assms(1) by (auto simp: memcpy_Some_iff)
  have len: "length b = length buf" using b le by simp
  have "b ! (a + i) = buf ! (a + i)" if "i < n" "a + i < length buf" for i
    using assms(2) that le unfolding b by (auto simp: nth_append)
  then show ?thesis by (intro nth_equalityI) (auto simp: len)
qed

lemma memcpy_there:
  assumes "memcpy buf off bs = Some b" and "k \<le> length bs"
  shows "take (length bs - k) (drop (off + k) b) = drop k bs"
  using assms by (auto simp: memcpy_Some_iff)

lemma list_all_filter_self [simp]: "list_all P (filter P xs)"
  by (induction xs) simp_all

lemma owned_receive:
  "distinct ((T @ U) @ F @ I @ (D @ R)) \<Longrightarrow> distinct (U @ (F @ T) @ I @ R)"
  "distinct (P @ (G @ F) @ I @ R) \<Longrightarrow> distinct (P @ F @ (I @ G) @ R)"
  by auto

lemma owned_store:
  assumes "distinct (P @ F @ I @ R)" and "f \<in> set I"
  shows "distinct (P @ F @ remove1 f I @ (R @ [f]))"
proof -
  have "distinct I" using assms(1) by simp
  then have "set (remove1 f I) = set I - {f}" "distinct (remove1 f I)" by simp_all
  then show ?thesis using assms by auto
qed

lemma receive_keeps:
  assumes "rx_inv s" and "handle_receive_packets (sock s) (params s) = Some (x, rp)"
  shows "rx_inv (s\<lparr>sock := x, params := rp\<rparr>)"
proof -
  let ?b = "buffer (umem_info (sock s))" and ?q = "fq (umem_info (sock s))"
  have rdy: "rx_ready (sock s)" and cb: "recv_cb (params s) = Some log_cb" and fi: "frames_inv s"
    using assms(1) by (simp_all add: rx_inv_def)
  have ok: "\<forall>d \<in> set (cons_queue (rx (sock s))). desc_ok ?b d" using rx_inv_desc_ok(1) [OF assms(1)] by blast
  obtain ds x' where b: "cons_queue (rx (sock s)) = ds @ cons_queue (rx x')" "rx_ready x'" "buffer (umem_info x') = ?b"
    "handle_receive_packets (sock s) (params s) =
      map_option (\<lambda>c. (x', (params s)\<lparr>ctx := c\<rparr>)) (deliver ?b (recv_cb (params s)) ds (ctx (params s)))"
    "pool x' = drop (if ds = [] then 0 else stock_count (sock s)) (pool (sock s))"
    "prod_queue (fq (umem_info x')) = prod_queue ?q @ stock (if ds = [] then 0 else stock_count (sock s)) (pool (sock s))"
    by (rule receive_batch_ok [OF rdy ok, of "params s"])
  define k where "k = (if ds = [] then 0 else stock_count (sock s))"
  have vp: "list_all valid_frame (pool (sock s))" and fits: "list_all desc_fits (ds @ cons_queue (rx x'))"
    using fi b(1) by (simp_all add: frames_inv_def owned_def)
  have del: "deliver ?b (recv_cb (params s)) ds (ctx (params s)) = Some (ctx (params s) @ map (payload ?b) ds)"
    using deliver_log fits cb by simp
  have eq: "x = x'" "rp = (params s)\<lparr>ctx := ctx (params s) @ map (payload ?b) ds\<rparr>"
    using assms(2) b(4) by (simp_all add: del)
  have fq': "filter valid_frame (prod_queue (fq (umem_info x'))) =
      filter valid_frame (prod_queue ?q) @ take k (pool (sock s))"
    using b(6) filter_stock [OF vp] by (simp add: k_def)
  have "owned s = (take k (pool (sock s)) @ drop k (pool (sock s))) @ filter valid_frame (prod_queue ?q) @
      inflight s @ (map frame_base ds @ map frame_base (cons_queue (rx x')))"
    using b(1) by (simp add: owned_def)
  moreover have "owned (s\<lparr>sock := x, params := rp\<rparr>) = drop k (pool (sock s)) @
      (filter valid_frame (prod_queue ?q) @ take k (pool (sock s))) @ inflight s @ map frame_base (cons_queue (rx x'))"
    using b(5) fq' by (simp add: owned_def eq k_def)
  ultimately have "frames_inv (s\<lparr>sock := x, params := rp\<rparr>)"
    using fi fits owned_receive(1) unfolding frames_inv_def eq
    by (auto simp: list_all_append simp del: append_take_drop_id)
  moreover have "stream_inv (s\<lparr>sock := x, params := rp\<rparr>)"
    using assms(1) b(1,3) by (simp add: rx_inv_def stream_inv_def eq)
  ultimately show ?thesis using assms(1) b(2,3) by (simp add: rx_inv_def eq)
qed

lemma fetch_keeps:
  assumes "rx_inv s" and "kernel_take n (fq (umem_info (sock s))) = Some (fs, q)"
  shows "rx_inv (s\<lparr>sock := set_fq q (sock s), inflight := inflight s @ filter valid_frame fs\<rparr>)"
proof -
  let ?s = "s\<lparr>sock := set_fq q (sock s), inflight := inflight s @ filter valid_frame fs\<rparr>"
  have rdy: "rx_ready (sock s)" and fi: "frames_inv s" using assms(1) by (simp_all add: rx_inv_def)
  have q: "prod_idle q" "prod_queue (fq (umem_info (sock s))) = fs @ prod_queue q"
    using kernel_take_law [of "fq (umem_info (sock s))" n] rdy assms(2) by (auto simp: rx_ready_def)
  have "distinct (owned ?s)"
    using fi owned_receive(2) q(2) by (auto simp: frames_inv_def owned_def)
  moreover have "list_all valid_frame (owned ?s)"
    using fi q(2) by (simp add: frames_inv_def owned_def)
  ultimately have "frames_inv ?s" using fi by (simp add: frames_inv_def)
  then show ?thesis using assms(1) rdy q(1) by (simp add: rx_inv_def stream_inv_def rx_ready_def)
qed

definition stored :: "u64 \<Rightarrow> byte list \<Rightarrow> xdp_desc" where
  "stored f pkt = \<lparr>desc_addr = f + 256, desc_len = of_nat (length pkt)\<rparr>"

lemma stored_fits:
  assumes "valid_frame f" and "36 \<le> length pkt" and "length pkt \<le> FRAME_SIZE - XDP_PACKET_HEADROOM"
  shows "desc_fits (stored f pkt)" "frame_base (stored f pkt) = f" "unat (desc_addr (stored f pkt)) = unat f + 256"
    "unat (desc_len (stored f pkt)) = length pkt"
proof -
  have "unat f < 16777216" using valid_frame_room [OF assms(1)] by (simp add: FRAME_SIZE_def NUM_FRAMES_def)
  then have "unat (f + 256) = unat f + 256" using unat_add_lem [of f 256] by simp
  moreover have "unat (of_nat (length pkt) :: u32) = length pkt"
    using assms(3) by (simp add: unat_of_nat FRAME_SIZE_def XDP_PACKET_HEADROOM_def)
  ultimately show "desc_fits (stored f pkt)" "frame_base (stored f pkt) = f"
    "unat (desc_addr (stored f pkt)) = unat f + 256" "unat (desc_len (stored f pkt)) = length pkt"
    using assms by (simp_all add: stored_def desc_fits_def frame_base_def)
qed

lemma payload_kept:
  assumes "memcpy buf (unat f + XDP_PACKET_HEADROOM) pkt = Some b" and "length pkt \<le> FRAME_SIZE - XDP_PACKET_HEADROOM"
    and "valid_frame f" and "valid_frame (frame_base d)" and "desc_fits d" and "frame_base d \<noteq> f"
  shows "payload b d = payload buf d"
  unfolding payload_def
proof (rule memcpy_elsewhere [OF assms(1)])
  show "unat (desc_addr d) + 36 + (unat (desc_len d) - 36) \<le> unat f + XDP_PACKET_HEADROOM \<or>
      unat f + XDP_PACKET_HEADROOM + length pkt \<le> unat (desc_addr d) + 36"
    using valid_frames_apart [OF assms(4,3,6)] assms(2,5)
    by (auto simp: desc_fits_def FRAME_SIZE_def XDP_PACKET_HEADROOM_def)
qed

lemma list_all_remove1: "list_all P xs \<Longrightarrow> list_all P (remove1 a xs)"
  by (induction xs) simp_all

lemma store_keeps:
  assumes "rx_inv s" and "f \<in> set (inflight s)" and "36 \<le> length pkt"
    and "length pkt \<le> FRAME_SIZE - XDP_PACKET_HEADROOM" and "0 < cons_room (rx (sock s))"
    and "kernel_put [stored f pkt] (rx (sock s)) = Some r"
    and "memcpy (buffer (umem_info (sock s))) (unat f + XDP_PACKET_HEADROOM) pkt = Some b"
  shows "rx_inv (s\<lparr>sock := (sock s)\<lparr>rx := r, umem_info := (umem_info (sock s))\<lparr>buffer := b\<rparr>\<rparr>,
       inflight := remove1 f (inflight s), arrived := arrived s @ [drop 36 pkt]\<rparr>)" (is "rx_inv ?s")
proof -
  let ?buf = "buffer (umem_info (sock s))" and ?Q = "cons_queue (rx (sock s))"
  have rdy: "rx_ready (sock s)" and fi: "frames_inv s" and si: "stream_inv s"
    using assms(1) by (simp_all add: rx_inv_def)
  have r: "cons_idle r" "cons_queue r = ?Q @ [stored f pkt]"
    using kernel_put_law [of "rx (sock s)" "[stored f pkt]"] rdy assms(5,6) by (auto simp: rx_ready_def)
  have d: "distinct (owned s)" "list_all valid_frame (owned s)" using fi by (simp_all add: frames_inv_def)
  have vf: "valid_frame f" using d(2) assms(2) by (simp add: owned_def) (simp add: list_all_iff)
  note st = stored_fits [OF vf assms(3,4)]
  have own: "owned ?s = pool (sock s) @ filter valid_frame (prod_queue (fq (umem_info (sock s)))) @
      remove1 f (inflight s) @ (map frame_base ?Q @ [f])"
    using r(2) st(2) by (simp add: owned_def pool_def)
  have "distinct (owned ?s)"
    unfolding own using owned_store [OF d(1) [unfolded owned_def] assms(2)] .
  moreover have "list_all valid_frame (owned ?s)"
    unfolding own using d(2) vf by (simp add: owned_def list_all_remove1)
  ultimately have fi': "frames_inv ?s" using fi r(2) st(1) by (simp add: frames_inv_def)
  have "payload b e = payload ?buf e" if "e \<in> set ?Q" for e
  proof (rule payload_kept [OF assms(7,4) vf])
    show "desc_fits e" "valid_frame (frame_base e)" using rx_inv_desc_ok(2,3) [OF assms(1) that] .
    show "frame_base e \<noteq> f" using d(1) assms(2) that by (auto simp: owned_def)
  qed
  then have keep: "map (payload b) ?Q = map (payload ?buf) ?Q" by simp
  have "payload b (stored f pkt) = drop 36 pkt"
    using memcpy_there [OF assms(7,3)] by (simp add: payload_def st(3,4) XDP_PACKET_HEADROOM_def)
  moreover have "ctx (params s) @ map (payload b) ?Q = arrived s" using si unfolding stream_inv_def keep .
  ultimately have "stream_inv ?s" using r(2) by (simp add: stream_inv_def)
  moreover have "length b = length ?buf" using memcpy_length [OF assms(7)] .
  ultimately show ?thesis using assms(1) fi' r(1) rdy
    by (simp add: rx_inv_def rx_ready_def frames_ok_def)
qed

lemma rx_step_inv: "rx_step s s' \<Longrightarrow> rx_inv s \<Longrightarrow> rx_inv s'"
  by (induction rule: rx_step.induct)
     (auto intro: receive_keeps fetch_keeps store_keeps [unfolded stored_def])

lemma rx_reach_inv: "rx_step\<^sup>*\<^sup>* s s' \<Longrightarrow> rx_inv s \<Longrightarrow> rx_inv s'"
  by (induction rule: rtranclp_induct) (auto intro: rx_step_inv)

lemma all_frames_valid: "list_all valid_frame all_frames" and all_frames_distinct: "distinct all_frames"
proof -
  have u: "unat (of_nat (i * FRAME_SIZE) :: u64) = i * 4096" if "i < NUM_FRAMES" for i
    using that by (simp add: unat_of_nat NUM_FRAMES_def FRAME_SIZE_def del: of_nat_mult)
  show "list_all valid_frame all_frames"
    using u by (simp add: all_frames_def list_all_iff valid_frame_def NUM_FRAMES_def FRAME_SIZE_def del: of_nat_mult)
  have "inj_on (\<lambda>i. of_nat (i * FRAME_SIZE) :: u64) {0..<NUM_FRAMES}"
  proof (rule inj_onI)
    fix i j assume ij: "i \<in> {0..<NUM_FRAMES}" "j \<in> {0..<NUM_FRAMES}"
      and eq: "(of_nat (i * FRAME_SIZE) :: u64) = of_nat (j * FRAME_SIZE)"
    have "i * 4096 = unat (of_nat (i * FRAME_SIZE) :: u64)" using ij(1) u [of i] by (simp only: atLeastLessThan_iff)
    also have "\<dots> = j * 4096" unfolding eq using ij(2) u [of j] by (simp only: atLeastLessThan_iff)
    finally show "i = j" by simp
  qed
  then show "distinct all_frames" by (simp add: all_frames_def distinct_map del: of_nat_mult)
qed

lemma rx_start_inv:
  assumes "sock_fresh x" and "length (buffer (umem_info x)) = NUM_FRAMES * FRAME_SIZE"
  shows "rx_inv (rx_start x)"
proof -
  let ?q = "prod_queue (fq (umem_info x))"
  have x: "rx_ready x" "cons_queue (rx x) = []" "?q @ pool x = all_frames"
    using assms(1) by (simp_all add: sock_fresh_def rx_ready_def)
  have v: "list_all valid_frame ?q" "list_all valid_frame (pool x)" and d: "distinct (?q @ pool x)"
    using all_frames_valid all_frames_distinct unfolding x(3) [symmetric] by simp_all
  have "filter valid_frame ?q = ?q" using v(1) by (simp add: list_all_iff)
  then have "frames_inv (rx_start x)" using v d x(2) by (auto simp: frames_inv_def owned_def rx_start_def)
  then show ?thesis using x assms(2) by (simp add: rx_inv_def stream_inv_def rx_start_def)
qed

lemma good_env_fresh: "fresh_rings good_env"
  by (simp add: fresh_rings_def good_env_def)

lemma good_env_socket:
  "\<exists>x w'. adaptor__create_xsk_sock good_env ''eth0'' 0 0 0 init_world = Some (Some x, w') \<and> sock_fresh x \<and>
     length (buffer (umem_info x)) = NUM_FRAMES * FRAME_SIZE"
proof -
  let ?n = "NUM_FRAMES * FRAME_SIZE"
  define um where "um = \<lparr>fq = map_ring good_env ''fill'' 2048 (ring_addrs good_env ''fill'') 2048,
    cq = map_ring good_env ''comp'' 2048 (ring_addrs good_env ''comp'') 0, umem = 1, buffer = replicate ?n 0\<rparr>"
  obtain ret idx q where r: "xsk_ring_prod__reserve (fq um) 2048 0 = (ret, idx, q)"
    by (cases "xsk_ring_prod__reserve (fq um) 2048 0") auto
  have u: "prod_idle (fq um)" "prod_queue (fq um) = []" "free_slots (fq um) = 2048"
    using map_ring_prod_fresh [of "ring_addrs good_env ''fill''" good_env "''fill''"] by (simp_all add: um_def good_env_def)
  obtain x where x: "ret = 2048" "stuff_fill 2048 idx (set_fq q (set_up_socket good_env 3 um)) = Some x"
    "sock_fresh (set_fq (xsk_ring_prod__submit (fq (umem_info x)) 2048) x)" "buffer (umem_info x) = buffer um"
    using set_up_stuffed(1) [OF good_env_fresh u r] set_up_stuffed(2) [OF good_env_fresh u r, of 3] by auto
  have "\<exists>w'. adaptor__create_xsk_sock good_env ''eth0'' 0 0 0 init_world =
      Some (Some (set_fq (xsk_ring_prod__submit (fq (umem_info x)) 2048) x), w')"
    using x r
    by (simp add: adaptor__create_xsk_sock_def configure_xsk_umem_def xsk_configure_socket_def call_def c_calloc_def
      posix_memalign_def good_env_simps new_block_def init_world_def Let_def um_def set_up_socket_frames
      XSK_RING_PROD__DEFAULT_NUM_DESCS_def XSK_RING_CONS__DEFAULT_NUM_DESCS_def)
  then show ?thesis using x by (auto simp: um_def)
qed

section \<open>Properties\<close>

text \<open>The program takes a packet that is alone in the ring.\<close>

lemma receive_one:
  assumes "rx_inv s" and "cons_queue (rx (sock s)) = [d]"
  obtains s' where "rx_step s s'" "arrived s' = arrived s" "inflight s' = inflight s" "ctx (params s') = arrived s"
    "cons_queue (rx (sock s')) = []"
proof -
  have cb: "recv_cb (params s) = Some log_cb" and rdy: "rx_ready (sock s)" using assms(1) by (simp_all add: rx_inv_def)
  have ok: "\<forall>d \<in> set (cons_queue (rx (sock s))). desc_ok (buffer (umem_info (sock s))) d"
    using rx_inv_desc_ok(1) [OF assms(1)] by blast
  obtain ds x' where d: "cons_queue (rx (sock s)) = ds @ cons_queue (rx x')" "cons_queue (rx (sock s)) \<noteq> [] \<longrightarrow> ds \<noteq> []"
    "handle_receive_packets (sock s) (params s) =
      map_option (\<lambda>c. (x', (params s)\<lparr>ctx := c\<rparr>)) (deliver (buffer (umem_info (sock s))) (recv_cb (params s)) ds (ctx (params s)))"
    by (rule receive_batch_ok [OF rdy ok])
  have ds: "ds = [d]" "cons_queue (rx x') = []" using d(1,2) assms(2) by (cases ds; simp)+
  have "list_all desc_fits ds" using assms ds(1) by (simp add: rx_inv_def frames_inv_def)
  then obtain c where h: "handle_receive_packets (sock s) (params s) = Some (x', (params s)\<lparr>ctx := c\<rparr>)"
    using d(3) deliver_log cb by auto
  let ?s = "s\<lparr>sock := x', params := (params s)\<lparr>ctx := c\<rparr>\<rparr>"
  have st: "rx_step s ?s" by (rule rx_step.receive [OF h])
  have "rx_inv ?s" by (rule rx_step_inv [OF st assms(1)])
  then have "ctx (params ?s) = arrived s" using ds(2) by (simp add: rx_inv_def stream_inv_def)
  then show thesis using st ds(2) by (intro that [of ?s]) simp_all
qed

text \<open>One packet goes all the way: its frame is fetched, it is stored, and the program receives it.\<close>

lemma packet_arrives:
  assumes "sock_fresh x" and "length (buffer (umem_info x)) = NUM_FRAMES * FRAME_SIZE"
    and "36 \<le> length pkt" and "length pkt \<le> FRAME_SIZE - XDP_PACKET_HEADROOM"
  obtains s where "rx_step\<^sup>*\<^sup>* (rx_start x) s" "arrived s = [drop 36 pkt]" "ctx (params s) = [drop 36 pkt]"
    "cons_queue (rx (sock s)) = []" "inflight s = []"
proof -
  let ?s0 = "rx_start x" and ?q = "prod_queue (fq (umem_info x))"
  have fr: "prod_idle (fq (umem_info x))" "cons_idle (rx x)" "cons_queue (rx x) = []" "length ?q = 2048" "?q @ pool x = all_frames"
    using assms(1) by (simp_all add: sock_fresh_def)
  obtain f fs where q: "?q = f # fs" using fr(4) by (cases ?q) auto
  obtain fq' where t: "kernel_take 1 (fq (umem_info x)) = Some ([f], fq')" by (simp add: kernel_take_def q)
  have f: "valid_frame f" using all_frames_valid unfolding fr(5) [symmetric] q by simp
  let ?s1 = "?s0\<lparr>sock := set_fq fq' (sock ?s0), inflight := inflight ?s0 @ filter valid_frame [f]\<rparr>"
  have 1: "rx_step ?s0 ?s1" using rx_step.kernel_fetch [of 1 ?s0 "[f]" fq'] t by (simp add: rx_start_def)
  have rx1: "rx (sock ?s1) = rx x" "buffer (umem_info (sock ?s1)) = buffer (umem_info x)" "inflight ?s1 = [f]" "arrived ?s1 = []"
    "params ?s1 = params ?s0" using f by (simp_all add: set_fq_def rx_start_def)
  have "producer (rx x) = cached_cons (rx x)" using fr(3) by (simp add: cons_queue_def unat_eq_0)
  moreover have "0 < unat (ring_size (rx x))" using fr(2) slot_mod(2) unfolding cons_idle_def cons_ok_def by blast
  ultimately have room: "0 < cons_room (rx x)" using fr(2) by (simp add: cons_room_def cons_idle_def)
  let ?d = "\<lparr>desc_addr = f + 256, desc_len = of_nat (length pkt)\<rparr>"
  obtain r where r: "kernel_put [?d] (rx x) = Some r" "cons_queue r = [?d]"
    using kernel_put_law [OF fr(2), of "[?d]"] room fr(3) by fastforce
  obtain b where b: "memcpy (buffer (umem_info x)) (unat f + XDP_PACKET_HEADROOM) pkt = Some b"
    using valid_frame_room [OF f] assms(2,4) by (auto simp: memcpy_def FRAME_SIZE_def XDP_PACKET_HEADROOM_def)
  let ?s2 = "?s1\<lparr>sock := (sock ?s1)\<lparr>rx := r, umem_info := (umem_info (sock ?s1))\<lparr>buffer := b\<rparr>\<rparr>,
       inflight := remove1 f (inflight ?s1), arrived := arrived ?s1 @ [drop 36 pkt]\<rparr>"
  have 2: "rx_step ?s1 ?s2"
    using rx_step.kernel_store [of f ?s1 pkt r b] assms(3,4) room r(1) b rx1 by (simp only: list.set insertI1 simp_thms)
  have i: "rx_inv ?s2" using rx_step_inv [OF 2 rx_step_inv [OF 1 rx_start_inv [OF assms(1,2)]]] .
  have "cons_queue (rx (sock ?s2)) = [?d]" using r(2) by simp
  then obtain s3 where s3: "rx_step ?s2 s3" "arrived s3 = arrived ?s2" "inflight s3 = inflight ?s2" "ctx (params s3) = arrived ?s2"
    "cons_queue (rx (sock s3)) = []" by (rule receive_one [OF i])
  have "rx_step\<^sup>*\<^sup>* ?s0 s3" using 1 2 s3(1) by (meson rtranclp.rtrancl_into_rtrancl rtranclp.rtrancl_refl)
  moreover have "arrived ?s2 = [drop 36 pkt]" "inflight ?s2 = []" using rx1 by simp_all
  ultimately show thesis using s3 by (intro that [of s3]) simp_all
qed

text \<open>
  C2. Packets reach the application in order, each exactly once and with the payload it arrived
  with. Take the socket just created and run the program's receive calls and the kernel's fetches
  and stores in any order: what the callback has recorded is a prefix of what arrived, what is
  missing is what is still queued, and a further receive call comes back.
\<close>

theorem rx_stream_in_order:
  assumes "sock_fresh x" and "length (buffer (umem_info x)) = NUM_FRAMES * FRAME_SIZE"
    and "rx_step\<^sup>*\<^sup>* (rx_start x) s"
  shows "ctx (params s) @ map (payload (buffer (umem_info (sock s)))) (cons_queue (rx (sock s))) = arrived s
     \<and> handle_receive_packets (sock s) (params s) \<noteq> None"
proof (rule conjI)
  have i: "rx_inv s" using rx_reach_inv [OF assms(3)] rx_start_inv [OF assms(1,2)] .
  show "ctx (params s) @ map (payload (buffer (umem_info (sock s)))) (cons_queue (rx (sock s))) = arrived s"
    using i by (simp add: rx_inv_def stream_inv_def)
  have ok: "\<forall>d \<in> set (cons_queue (rx (sock s))). desc_ok (buffer (umem_info (sock s))) d"
    using rx_inv_desc_ok(1) [OF i] by blast
  have rdy: "rx_ready (sock s)" using i by (simp add: rx_inv_def)
  show "handle_receive_packets (sock s) (params s) \<noteq> None"
  proof (rule receive_batch_ok [OF rdy ok, of "params s"], goal_cases)
    case (1 ds x')
    have "list_all desc_fits ds" using i 1(1) by (simp add: rx_inv_def frames_inv_def)
    then show ?case using 1(6) i deliver_log by (simp add: rx_inv_def)
  qed
qed

theorem rx_stream_in_order_witness:
  "\<exists>x s. sock_fresh x \<and> length (buffer (umem_info x)) = NUM_FRAMES * FRAME_SIZE \<and> rx_step\<^sup>*\<^sup>* (rx_start x) s \<and>
     arrived s = [[7]] \<and> ctx (params s) @ map (payload (buffer (umem_info (sock s)))) (cons_queue (rx (sock s))) = [[7]] \<and>
     handle_receive_packets (sock s) (params s) \<noteq> None"
proof -
  obtain x where x: "sock_fresh x" "length (buffer (umem_info x)) = NUM_FRAMES * FRAME_SIZE"
    using good_env_socket by blast
  obtain s where s: "rx_step\<^sup>*\<^sup>* (rx_start x) s" "arrived s = [drop 36 (replicate 36 0 @ [7])]"
    by (rule packet_arrives [OF x, of "replicate 36 0 @ [7]"]) (simp_all add: FRAME_SIZE_def XDP_PACKET_HEADROOM_def)
  then show ?thesis using x rx_stream_in_order [OF x s(1)] by (intro exI [of _ x] exI [of _ s]) simp
qed

text \<open>
  C3. No frame is ever in two places. In every state the new socket can reach, the frames of the
  pool, of the fill ring, of the kernel and of the packets waiting to be processed are distinct
  frames of the packet memory.
\<close>

theorem rx_frames_single_owner:
  assumes "sock_fresh x" and "length (buffer (umem_info x)) = NUM_FRAMES * FRAME_SIZE"
    and "rx_step\<^sup>*\<^sup>* (rx_start x) s"
  shows "distinct (owned s) \<and> list_all valid_frame (owned s)"
  using rx_reach_inv [OF assms(3)] rx_start_inv [OF assms(1,2)] by (simp add: rx_inv_def frames_inv_def)

theorem rx_frames_single_owner_witness:
  "\<exists>x s. sock_fresh x \<and> length (buffer (umem_info x)) = NUM_FRAMES * FRAME_SIZE \<and> rx_step\<^sup>*\<^sup>* (rx_start x) s \<and>
     arrived s = [[7]] \<and> distinct (owned s) \<and> list_all valid_frame (owned s)"
proof -
  obtain x where x: "sock_fresh x" "length (buffer (umem_info x)) = NUM_FRAMES * FRAME_SIZE"
    using good_env_socket by blast
  obtain s where s: "rx_step\<^sup>*\<^sup>* (rx_start x) s" "arrived s = [drop 36 (replicate 36 0 @ [7])]"
    by (rule packet_arrives [OF x, of "replicate 36 0 @ [7]"]) (simp_all add: FRAME_SIZE_def XDP_PACKET_HEADROOM_def)
  then show ?thesis using x rx_frames_single_owner [OF x s(1)] by (intro exI [of _ x] exI [of _ s]) simp
qed

section \<open>Frames are not recycled\<close>

text \<open>
  The program is out of frames when its pool is empty and its last look at the fill ring saw no
  free slot.
\<close>

definition starved :: "rx_system \<Rightarrow> bool" where
  "starved s \<longleftrightarrow> pool (sock s) = [] \<and> free_cached (fq (umem_info (sock s))) = 0"

lemma kernel_take_producer:
  "kernel_take n q = Some (fs, q') \<Longrightarrow> producer q' = producer q \<and> free_cached q' = free_cached q"
  by (auto simp: kernel_take_def Let_def free_cached_def stale_def bind_eq_Some_conv)

lemma handle_exhausted:
  assumes "frames_ok x" and "prod_idle (fq (umem_info x))" and "pool x = []" and "free_cached (fq (umem_info x)) = 0"
    and "rcvd \<noteq> 0"
  shows "restock rcvd x = Some x"
proof -
  have "umem_frame_free x = 0" using pool_length [OF assms(1)] assms(3) by (simp add: unsigned_eq_0_iff)
  moreover have "cached_cons (fq (umem_info x)) - cached_prod (fq (umem_info x)) = 0"
    using unat_free_entries [of "fq (umem_info x)"] assms(2,4) by (simp add: prod_idle_def unsigned_eq_0_iff)
  ultimately have "xsk_prod_nb_free (fq (umem_info x)) (ucast (xsk_umem_free_frames x)) = (0, fq (umem_info x))"
    by (simp add: xsk_prod_nb_free_def xsk_umem_free_frames_def)
  then show ?thesis by (simp add: restock_def set_fq_def)
qed

lemma pool_upd [simp]: "pool (x\<lparr>rx := r, umem_info := u\<rparr>) = pool x"
  by (simp add: pool_def)

lemma process_packet_true: "process_packet x a n rp = Some (ok, rp') \<Longrightarrow> ok"
  by (auto simp: process_packet_def bind_eq_Some_conv Let_def split: option.splits if_splits)

lemma process_loop_frames: "process_loop n idx x rp = Some (x', rp') \<Longrightarrow> x' = x"
  by (induction n arbitrary: idx rp) (auto simp: bind_eq_Some_conv dest: process_packet_true)

lemma starved_receive:
  assumes "rx_ready x" and "pool x = []" and "free_cached (fq (umem_info x)) = 0"
    and "handle_receive_packets x rp = Some (x', rp')"
  shows "umem_info x' = umem_info x \<and> pool x' = pool x"
proof -
  obtain n idx r where pk: "xsk_ring_cons__peek (rx x) (of_nat RX_BATCH_SIZE) 0 = (n, idx, r)"
    by (cases "xsk_ring_cons__peek (rx x) (of_nat RX_BATCH_SIZE) 0") auto
  have "restock rcvd (set_rx r x) = Some (set_rx r x)" if "rcvd \<noteq> 0" for rcvd
    using assms(1-3) that by (intro handle_exhausted) (simp_all add: rx_ready_def)
  then show ?thesis using assms(4)
    by (auto simp: handle_receive_packets_def pk set_rx_def bind_eq_Some_conv Let_def pool_def
        dest!: process_loop_frames split: if_splits)
qed

text \<open>
  C40. Received frames are never given back to the pool, so a socket that has used up its pool
  while the fill ring looked full is dead for good: whatever the program and the kernel do from
  then on, not one more frame is handed to the kernel.
\<close>

theorem rx_starved_forever:
  assumes "rx_inv s" and "starved s" and "rx_step\<^sup>*\<^sup>* s s'"
  shows "starved s' \<and> producer (fq (umem_info (sock s'))) = producer (fq (umem_info (sock s)))"
  using assms(3)
proof (induction rule: rtranclp_induct)
  case base
  then show ?case using assms(2) by simp
next
  case (step t u)
  have "rx_ready (sock t)" using rx_reach_inv [OF step.hyps(1) assms(1)] by (simp add: rx_inv_def)
  with step.hyps(2) step.IH show ?case
    by (cases rule: rx_step.cases)
       (auto simp: starved_def dest: starved_receive kernel_take_producer)
qed

definition starved_example :: rx_system where
  "starved_example =
     \<lparr>sock = rx_example\<lparr>rx := (rx rx_example)\<lparr>producer := 0xffffffff\<rparr>, umem_frame_free := 0,
        umem_info := \<lparr>fq = ring4\<lparr>cached_cons := 0xffffffff\<rparr>, cq = zero_ring, umem = 1,
          buffer = replicate (NUM_FRAMES * FRAME_SIZE) 0\<rparr>\<rparr>,
      params = \<lparr>recv_cb = Some log_cb, ctx = [], global_exit = False\<rparr>, inflight = [], arrived = []\<rparr>"

lemma starved_example_inv: "rx_inv starved_example"
proof -
  let ?q = "ring4\<lparr>cached_cons := 0xffffffff\<rparr>" and ?r = "(rx rx_example)\<lparr>producer := 0xffffffff\<rparr>"
  have "shape_ok ?q" using ring4_shape by (simp add: shape_ok_def)
  then have q: "prod_idle ?q" by (simp add: prod_idle_def prod_ok_def stale_def ring4_def)
  have e: "prod_queue ?q = [30]" by (simp add: prod_queue_def ring4_def slot_def)
  have "cons_idle (rx rx_example)" using rx_example_ready by (simp add: rx_ready_def)
  then have r: "cons_idle ?r" by (simp add: cons_idle_def cons_ok_def shape_ok_def rx_example_def)
  have n: "cons_queue ?r = []" by (simp add: cons_queue_def rx_example_def)
  have v: "\<not> valid_frame 30" by (simp add: valid_frame_def FRAME_SIZE_def)
  have "rx_ready (sock starved_example)"
    using q r by (simp add: starved_example_def rx_ready_def frames_ok_def rx_example_def NUM_FRAMES_def)
  moreover have "pool (sock starved_example) = []" by (simp add: pool_def starved_example_def)
  ultimately show ?thesis using e n v
    by (simp add: rx_inv_def frames_inv_def owned_def stream_inv_def) (simp add: starved_example_def)
qed

theorem rx_starved_forever_witness:
  "\<exists>s'. rx_step starved_example s' \<and> prod_queue (fq (umem_info (sock s'))) = [] \<and>
     starved s' \<and> producer (fq (umem_info (sock s'))) = producer (fq (umem_info (sock starved_example)))"
proof -
  have st: "starved starved_example"
    by (simp add: starved_def pool_def starved_example_def free_cached_def stale_def ring4_def)
  let ?q = "fq (umem_info (sock starved_example))"
  obtain fs q where k: "kernel_take (length (prod_queue ?q)) ?q = Some (fs, q)" "fs = prod_queue ?q"
    by (simp add: kernel_take_def)
  have "prod_idle ?q" using starved_example_inv by (simp add: rx_inv_def rx_ready_def)
  then have e: "prod_queue q = []" using kernel_take_law [of ?q "length (prod_queue ?q)"] k by auto
  let ?s = "starved_example\<lparr>sock := set_fq q (sock starved_example),
      inflight := inflight starved_example @ filter valid_frame fs\<rparr>"
  have step: "rx_step starved_example ?s" by (rule kernel_fetch [OF k(1)])
  then show ?thesis using rx_starved_forever [OF starved_example_inv st r_into_rtranclp [where r = rx_step, OF step]] e
    by (intro exI [of _ ?s]) (simp add: set_fq_def)
qed

text \<open>
  When the cached view of the fill ring has room for at least the frames of the pool, a call
  that takes packets puts the whole pool into the fill ring and then, once per remaining slot,
  the address \<open>INVALID_UMEM_FRAME\<close>: \<open>xsk_prod_nb_free\<close> returns the number of free slots, which
  is not bounded by the number of free frames it was asked for.
\<close>

lemma receive_stocks_invalid:
  assumes "rx_ready x" and "\<forall>d \<in> set (cons_queue (rx x)). desc_ok (buffer (umem_info x)) d"
    and "cons_queue (rx x) \<noteq> []" and "length (pool x) \<le> free_cached (fq (umem_info x))"
    and "handle_receive_packets x rp = Some (x', rp')"
  shows "pool x' = [] \<and> prod_queue (fq (umem_info x')) = prod_queue (fq (umem_info x)) @ pool x @
     replicate (free_cached (fq (umem_info x)) - length (pool x)) INVALID_UMEM_FRAME"
proof (rule receive_batch_ok [OF assms(1,2), of rp], goal_cases)
  case (1 ds y)
  have r: "frames_ok x" "prod_ok (fq (umem_info x))" using assms(1) by (simp_all add: rx_ready_def prod_idle_def)
  have "stock_count x = free_cached (fq (umem_info x))"
    using nb_free_cases [OF r(2) surjective_pairing, of "umem_frame_free x"] assms(4) pool_length [OF r(1)]
    by (auto simp: stock_count_def)
  moreover have "x' = y"
    using 1(6) assms(5) by (cases "deliver (buffer (umem_info x)) (recv_cb rp) ds (ctx rp)") auto
  ultimately show ?case using 1(3,7,8) assms(3,4) by (simp add: stock_def)
qed

end
