(* ===== verification/Inet.thy ===== *)
theory Inet
  imports Prelude
begin

text \<open>
  The two address conversions of the C library that the sources use, for IPv4:
  \<open>inet_ntop\<close> writes an address in dotted decimal, \<open>inet_pton\<close> reads it back. The reader is
  the digit-by-digit automaton of the library, which refuses an empty part, a value above 255,
  a superfluous leading zero and any number of parts other than four.
\<close>

type_synonym in_addr_t = "byte \<times> byte \<times> byte \<times> byte"

definition INET_ADDRSTRLEN :: nat where "INET_ADDRSTRLEN = 16"

definition addr_bytes :: "in_addr_t \<Rightarrow> byte list" where
  "addr_bytes a = (case a of (b0, b1, b2, b3) \<Rightarrow> [b0, b1, b2, b3])"

definition digit :: "nat \<Rightarrow> char" where
  "digit d = char_of (48 + d)"

definition dec8 :: "nat \<Rightarrow> string" where
  "dec8 n = (if n < 10 then [digit n]
     else if n < 100 then [digit (n div 10), digit (n mod 10)]
     else [digit (n div 100), digit (n div 10 mod 10), digit (n mod 10)])"

definition inet_ntop :: "in_addr_t \<Rightarrow> string" where
  "inet_ntop a = (case a of (b0, b1, b2, b3) \<Rightarrow>
     dec8 (unat b0) @ ''.'' @ dec8 (unat b1) @ ''.'' @ dec8 (unat b2) @ ''.'' @ dec8 (unat b3))"

definition digit_val :: "char \<Rightarrow> nat option" where
  "digit_val c = (let k = (of_char c :: nat) in if 48 \<le> k \<and> k \<le> 57 then Some (k - 48) else None)"

text \<open>
  The state: the finished parts, newest first, the part being read, and how many parts have
  been begun.
\<close>

fun pton_loop :: "string \<Rightarrow> nat list \<Rightarrow> nat option \<Rightarrow> nat list option" where
  "pton_loop [] done cur = (case cur of None \<Rightarrow> None | Some v \<Rightarrow> Some (rev (v # done)))"
| "pton_loop (c # cs) done cur =
     (case digit_val c of
        Some d \<Rightarrow>
          (case cur of
             None \<Rightarrow> if length done < 4 then pton_loop cs done (Some d) else None
           | Some v \<Rightarrow> if v = 0 \<or> 10 * v + d > 255 then None else pton_loop cs done (Some (10 * v + d)))
      | None \<Rightarrow>
          (if c = CHR ''.'' then
             (case cur of None \<Rightarrow> None | Some v \<Rightarrow> if length done = 3 then None else pton_loop cs (v # done) None)
           else None))"

definition inet_pton :: "string \<Rightarrow> in_addr_t option" where
  "inet_pton s =
     (case pton_loop s [] None of
        Some [p0, p1, p2, p3] \<Rightarrow> Some (of_nat p0, of_nat p1, of_nat p2, of_nat p3)
      | _ \<Rightarrow> None)"

lemma digit_val_digit [simp]: "d < 10 \<Longrightarrow> digit_val (digit d) = Some d"
  by (simp add: digit_val_def digit_def of_char_of)

lemma digit_val_dot [simp]: "digit_val CHR ''.'' = None"
  by (simp add: digit_val_def)

lemma dec8_length: "1 \<le> length (dec8 n) \<and> length (dec8 n) \<le> 3"
  by (simp add: dec8_def)

lemma dec8_digits: "n < 256 \<Longrightarrow> length done < 4 \<Longrightarrow> pton_loop (dec8 n @ r) done None = pton_loop r done (Some n)"
proof -
  assume n: "n < 256" and l: "length done < 4"
  consider "n < 10" | "10 \<le> n" "n < 100" | "100 \<le> n" by linarith
  then show ?thesis
  proof cases
    case 2
    then have "n div 10 < 10" "n div 10 \<noteq> 0" "10 * (n div 10) + n mod 10 = n" by auto
    then show ?thesis using 2 n l by (simp add: dec8_def)
  next
    case 3
    then have h: "n div 100 < 10" "n div 100 \<noteq> 0" using n by auto
    have "10 * (n div 100) + n div 10 mod 10 = n div 10"
      using div_mult2_eq [of n 10 10] by simp
    moreover have "n div 10 \<noteq> 0" "n div 10 \<le> 255" "10 * (n div 10) + n mod 10 = n" using 3 n by auto
    ultimately show ?thesis using 3 n l h by (simp add: dec8_def) linarith
  qed (simp add: dec8_def l)
qed

lemma pton_ntop: "pton_loop (inet_ntop (b0, b1, b2, b3)) [] None = Some [unat b0, unat b1, unat b2, unat b3]"
  using dec8_digits [of "unat b3" _ "[]"] by (simp add: inet_ntop_def dec8_digits)

text \<open>
  Addresses survive the trip through text: what \<open>inet_ntop\<close> writes fits the
  \<open>INET_ADDRSTRLEN\<close> bytes of the buffers it is written to, and \<open>inet_pton\<close> reads the same
  address back.
\<close>

lemma inet_round_trip: "inet_pton (inet_ntop a) = Some a \<and> length (inet_ntop a) < INET_ADDRSTRLEN"
proof -
  obtain b0 b1 b2 b3 where a: "a = (b0, b1, b2, b3)" by (cases a) auto
  have "length (inet_ntop a) \<le> 15"
    using dec8_length [of "unat b0"] dec8_length [of "unat b1"] dec8_length [of "unat b2"] dec8_length [of "unat b3"]
    by (simp add: a inet_ntop_def)
  then show ?thesis by (simp add: a inet_pton_def pton_ntop INET_ADDRSTRLEN_def)
qed

end
