(* ===== verification/Adaptor_Send.thy ===== *)
theory Adaptor_Send
  imports Util Inet
begin

text \<open>
  The send half of the adaptor, \<^verbatim>\<open>src/adaptor/adaptor_send.c\<close>: creation and set-up of
  the raw socket, construction of the IPv4 header, assembly of the packet in the caller's buffer
  and the \<open>sendto\<close>. Buffers are blocks of the heap. A packet handed to the kernel is shown to
  carry a header that verifies and describes it, and the caller's data unchanged.
\<close>

section \<open>Sockets\<close>

definition AF_INET :: int where "AF_INET = 2"
definition SOCK_RAW :: int where "SOCK_RAW = 3"
definition IPPROTO_RAW :: int where "IPPROTO_RAW = 255"
definition IPPROTO_IP :: int where "IPPROTO_IP = 0"
definition IP_HDRINCL :: int where "IP_HDRINCL = 3"
definition SIOCGIFINDEX :: int where "SIOCGIFINDEX = 0x8933"
definition IFNAMSIZ :: nat where "IFNAMSIZ = 16"

definition adaptor__create_raw_sock :: "env \<Rightarrow> int \<Rightarrow> int \<Rightarrow> 'a world_scheme \<Rightarrow> int \<times> 'a world_scheme" where
  "adaptor__create_raw_sock env domain protocol w =
     (let (sock_fd, w) = call env (Sock (Socket domain SOCK_RAW protocol)) w
      in if sock_fd < 0
         then (-1, set_err (''ERR: socket() failed \"'' @ strerror env (errno w) @ ''\"\<newline>'') w)
         else (sock_fd, w))"

definition enable_ip4_hdr_gen :: "env \<Rightarrow> int \<Rightarrow> 'a world_scheme \<Rightarrow> int \<times> 'a world_scheme" where
  "enable_ip4_hdr_gen env sock_fd w =
     (let (ret, w) = call env (Sock (Setsockopt sock_fd IPPROTO_IP IP_HDRINCL)) w
      in if ret < 0 then (-1, w) else (0, w))"

definition bind_raw_sock_to_interface :: "env \<Rightarrow> string \<Rightarrow> int \<Rightarrow> 'a world_scheme \<Rightarrow> int \<times> 'a world_scheme" where
  "bind_raw_sock_to_interface env interface sock_fd w =
     (let (sd, w) = call env (Sock (Socket AF_INET SOCK_RAW IPPROTO_RAW)) w
      in if sd < 0 then (-1, w)
         else let ifr_name = snprintf IFNAMSIZ interface;
                  (ret, w) = call env (Sock (Ioctl sd SIOCGIFINDEX ifr_name)) w
         in if ret < 0 then (-1, w)
         else let (_, w) = call env (Sock (Close sd)) w;
                  (ret, w) = call env (Sock (SetsockoptIf sock_fd ifr_name)) w
         in if ret < 0 then (-1, w) else (0, w))"

definition adaptor__config_raw_sock :: "env \<Rightarrow> int \<Rightarrow> string \<Rightarrow> 'a world_scheme \<Rightarrow> int \<times> 'a world_scheme" where
  "adaptor__config_raw_sock env sockfd interface w =
     (let (ret, w) = enable_ip4_hdr_gen env sockfd w
      in if ret \<noteq> 0 then (ret, set_err ''ERR: enable_ip4_hdr_gen() failed\<newline>'' w)
         else let (ret, w) = bind_raw_sock_to_interface env interface sockfd w
         in if ret \<noteq> 0 then (ret, set_err ''ERR: enable_ip4_hdr_gen() failed\<newline>'' w) else (0, w))"

section \<open>The IPv4 header\<close>

definition IP4_HDRLEN :: nat where "IP4_HDRLEN = 20"
definition SIZEOF_VTLHDR :: nat where "SIZEOF_VTLHDR = 2"
definition IPPROTO_VTL :: u8 where "IPPROTO_VTL = 0xc8"
definition IP_MAXPACKET :: nat where "IP_MAXPACKET = 65535"

text \<open>\<open>struct ip\<close>: 16-bit members hold the value as stored, that is in network order.\<close>

record ip =
  ip_hl :: u8
  ip_v :: u8
  ip_tos :: u8
  ip_len :: u16
  ip_id :: u16
  ip_off :: u16
  ip_ttl :: u8
  ip_p :: u8
  ip_sum :: u16
  ip_src :: in_addr_t
  ip_dst :: in_addr_t

record vtlhdr =
  vtl_checksum :: u16

text \<open>The memory image on a little-endian host; the two 4-bit members share the first byte.\<close>

definition ip_bytes :: "ip \<Rightarrow> byte list" where
  "ip_bytes h =
     [ip_hl h + 16 * ip_v h, ip_tos h] @ le16 (ip_len h) @ le16 (ip_id h) @ le16 (ip_off h) @
     [ip_ttl h, ip_p h] @ le16 (ip_sum h) @ addr_bytes (ip_src h) @ addr_bytes (ip_dst h)"

definition vtlhdr_bytes :: "vtlhdr \<Rightarrow> byte list" where
  "vtlhdr_bytes v = le16 (vtl_checksum v)"

text \<open>The address \<open>getaddrinfo\<close> found.\<close>

definition resolved :: "reply \<Rightarrow> in_addr_t" where
  "resolved r = (case take 4 (rdata r @ replicate 4 0) of [a, b, c, d] \<Rightarrow> (a, b, c, d) | _ \<Rightarrow> (0, 0, 0, 0))"

text \<open>The assignments of \<open>create_ip4_hdr\<close> up to the addresses.\<close>

definition ip4_fixed_fields :: "u64 \<Rightarrow> ip \<Rightarrow> ip" where
  "ip4_fixed_fields snd_datalen h =
     h\<lparr>ip_hl := of_nat (IP4_HDRLEN div 4), ip_v := 4, ip_tos := 0,
       ip_len := htons (ucast (of_nat IP4_HDRLEN + of_nat SIZEOF_VTLHDR + snd_datalen)),
       ip_id := htons 0, ip_off := htons 0, ip_ttl := 255, ip_p := IPPROTO_VTL\<rparr>"

text \<open>
  The result is the status, the header, the text written to \<open>dst_ip\<close> and the world.
  \<open>ip_flags\<close> points to four \<open>int\<close>s that are set to zero.
\<close>

definition create_ip4_hdr ::
    "env \<Rightarrow> ip \<Rightarrow> string \<Rightarrow> string \<Rightarrow> string \<Rightarrow> nat \<Rightarrow> u64 \<Rightarrow> 'a world_scheme \<Rightarrow>
     (int \<times> ip \<times> string \<times> 'a world_scheme) option" where
  "create_ip4_hdr env iphdr target dst_ip src_ip ip_flags snd_datalen w =
     (let (r, w) = sys env (Sock (Getaddrinfo target)) w
      in if rv r \<noteq> 0 then Some (-1, iphdr, dst_ip, w)
         else let dst_ip = inet_ntop (resolved r)
         in do {
           w \<leftarrow> heap_write ip_flags 0 (replicate 16 0) w;
           let h = ip4_fixed_fields snd_datalen iphdr;
           case inet_pton src_ip of
             None \<Rightarrow> Some (-1, h, dst_ip, w)
           | Some a \<Rightarrow>
               (let h = h\<lparr>ip_src := a\<rparr>
                in case inet_pton dst_ip of
                  None \<Rightarrow> Some (-1, h, dst_ip, w)
                | Some a \<Rightarrow>
                    (let h = h\<lparr>ip_dst := a, ip_sum := 0\<rparr>
                     in do {
                       c \<leftarrow> checksum (ip_bytes h) (int IP4_HDRLEN);
                       Some (0, h\<lparr>ip_sum := c\<rparr>, dst_ip, w)
                     }))
         })"

section \<open>Sending\<close>

record sockaddr_in =
  sin_family :: u16
  sin_port :: u16
  sin_addr :: in_addr_t

definition sockaddr_bytes :: "sockaddr_in \<Rightarrow> byte list" where
  "sockaddr_bytes a = le16 (sin_family a) @ le16 (sin_port a) @ addr_bytes (sin_addr a) @ replicate 8 0"

definition fill_sockaddr_in :: "ip \<Rightarrow> sockaddr_in" where
  "fill_sockaddr_in iphdr = \<lparr>sin_family = of_int AF_INET, sin_port = 0, sin_addr = ip_dst iphdr\<rparr>"

text \<open>Three \<open>memcpy\<close>s; overlapping operands are undefined.\<close>

definition ip4_pkt_assemble ::
    "nat \<Rightarrow> ip \<Rightarrow> vtlhdr \<Rightarrow> nat \<Rightarrow> u64 \<Rightarrow> 'a world_scheme \<Rightarrow> 'a world_scheme option" where
  "ip4_pkt_assemble snd_packet iphdr vtlh snd_data snd_datalen w = do {
     w \<leftarrow> heap_write snd_packet 0 (ip_bytes iphdr) w;
     w \<leftarrow> heap_write snd_packet IP4_HDRLEN (vtlhdr_bytes vtlh) w;
     data \<leftarrow> heap_read snd_data (unat snd_datalen) w;
     if snd_data = snd_packet \<and> IP4_HDRLEN + SIZEOF_VTLHDR < unat snd_datalen then None
     else heap_write snd_packet (IP4_HDRLEN + SIZEOF_VTLHDR) data w
   }"

definition send_packet ::
    "env \<Rightarrow> int \<Rightarrow> sockaddr_in \<Rightarrow> nat \<Rightarrow> u64 \<Rightarrow> 'a world_scheme \<Rightarrow> (int \<times> 'a world_scheme) option" where
  "send_packet env sock_fd to snd_packet snd_datalen w =
     (let ip_pkt_size = of_nat IP4_HDRLEN + of_nat SIZEOF_VTLHDR + snd_datalen
      in do {
        pkt \<leftarrow> heap_read snd_packet (unat ip_pkt_size) w;
        let (ret, w) = call env (Sock (Sendto sock_fd pkt (sockaddr_bytes to))) w;
        if ret < 0 then Some (-1, w) else Some (0, w)
      })"

text \<open>Status, header, destination text and world.\<close>

definition adaptor__send_packet ::
    "env \<Rightarrow> int \<Rightarrow> nat \<Rightarrow> vtlhdr \<Rightarrow> ip \<Rightarrow> string \<Rightarrow> string \<Rightarrow> string \<Rightarrow> nat \<Rightarrow> nat \<Rightarrow> u64 \<Rightarrow> 'a world_scheme \<Rightarrow>
     (int \<times> ip \<times> string \<times> 'a world_scheme) option" where
  "adaptor__send_packet env sock_fd snd_packet vtlh iphdr target dst_ip src_ip ip_flags snd_data snd_datalen w = do {
     (ret, iphdr, dst_ip, w) \<leftarrow> create_ip4_hdr env iphdr target dst_ip src_ip ip_flags snd_datalen w;
     if ret \<noteq> 0 then Some (ret, iphdr, dst_ip, set_err ''ERR: create_ip4_hdr() failed\<newline>'' w)
     else do {
       let to = fill_sockaddr_in iphdr;
       w \<leftarrow> ip4_pkt_assemble snd_packet iphdr vtlh snd_data snd_datalen w;
       (ret, w) \<leftarrow> send_packet env sock_fd to snd_packet snd_datalen w;
       if ret \<noteq> 0 then Some (ret, iphdr, dst_ip, set_err ''ERR: send_packet() failed\<newline>'' w)
       else Some (0, iphdr, dst_ip, w)
     }
   }"

section \<open>The header describes the packet\<close>

lemma htons_htons [simp]: "htons (htons x) = x"
proof -
  have "unat x div 256 < 256" using unat_u16_less [of x] by (intro less_mult_imp_div_less) linarith
  then have b: "unat (ucast (drop_bit 8 x) :: byte) = unat x div 256" "unat (ucast x :: byte) = unat x mod 256"
    by (simp_all add: unsigned_ucast_eq drop_bit_eq_div unat_div take_bit_eq_mod)
  have u: "unat (htons x) = unat x div 256 + 256 * (unat x mod 256)" by (simp add: htons_def unat_get16 b)
  have l: "unat x div 256 < 256" by fact
  have "unat (htons x) div 256 = unat x mod 256" "unat (htons x) mod 256 = unat x div 256"
    unfolding u using l by simp_all
  then have "unat (ucast (drop_bit 8 (htons x)) :: byte) = unat x mod 256"
    "unat (ucast (htons x) :: byte) = unat x div 256"
    by (simp_all add: unsigned_ucast_eq drop_bit_eq_div unat_div take_bit_eq_mod)
  then have "unat (htons (htons x)) = unat x" by (simp add: htons_def [of "htons x"] unat_get16)
  then show ?thesis by (rule unsigned_word_eqI)
qed

lemma length_addr_bytes [simp]: "length (addr_bytes a) = 4"
  by (cases a) (simp add: addr_bytes_def)

lemma length_ip_bytes [simp]: "length (ip_bytes h) = 20"
  by (simp add: ip_bytes_def)

lemma length_vtlhdr_bytes [simp]: "length (vtlhdr_bytes v) = 2"
  by (simp add: vtlhdr_bytes_def)

text \<open>A header whose checksum field was computed over the header with a zero field verifies.\<close>

lemma ip_checksum_verifies:
  assumes "checksum (ip_bytes (h\<lparr>ip_sum := 0\<rparr>)) 20 = Some c"
  shows "checksum (ip_bytes (h\<lparr>ip_sum := c\<rparr>)) 20 = Some 0"
proof -
  let ?pre = "[ip_hl h + 16 * ip_v h, ip_tos h] @ le16 (ip_len h) @ le16 (ip_id h) @ le16 (ip_off h) @ [ip_ttl h, ip_p h]"
    and ?post = "addr_bytes (ip_src h) @ addr_bytes (ip_dst h)"
  have img: "ip_bytes (h\<lparr>ip_sum := x\<rparr>) = ?pre @ le16 x @ ?post" for x by (simp add: ip_bytes_def)
  have "le16 0 = [0, 0]" by (simp add: le16_def)
  then show ?thesis using checksum_with_field [of ?pre ?post c] assms by (simp add: img)
qed

lemma ip_checksum_defined: "\<exists>c. checksum (ip_bytes h) 20 = Some c"
  using checksum_value [of "ip_bytes h"] by auto

text \<open>What a finished header says about \<open>n\<close> bytes of payload.\<close>

definition ip4_describes :: "ip \<Rightarrow> in_addr_t \<Rightarrow> in_addr_t \<Rightarrow> u64 \<Rightarrow> bool" where
  "ip4_describes h src dst n \<longleftrightarrow>
     ip_src h = src \<and> ip_dst h = dst \<and> ip_p h = IPPROTO_VTL \<and> hd (ip_bytes h) = 0x45 \<and>
     htons (ip_len h) = ucast (22 + n) \<and> checksum (ip_bytes h) 20 = Some 0"

lemma create_ip4_hdr_success:
  assumes "rv (answer env (trace w) (Sock (Getaddrinfo target))) = 0"
    and "inet_pton src_ip = Some src" and "heap w ip_flags = Some fl" and "16 \<le> length fl"
  obtains h w' where
    "create_ip4_hdr env iphdr target dst_ip src_ip ip_flags n w =
       Some (0, h, inet_ntop (resolved (answer env (trace w) (Sock (Getaddrinfo target)))), w')"
    "ip4_describes h src (resolved (answer env (trace w) (Sock (Getaddrinfo target)))) n"
    "trace w' = trace w @ [(Sock (Getaddrinfo target), answer env (trace w) (Sock (Getaddrinfo target)))]"
    "\<forall>p. p \<noteq> ip_flags \<longrightarrow> heap w' p = heap w p" "err_buf w' = err_buf w"
proof -
  let ?r = "answer env (trace w) (Sock (Getaddrinfo target))"
  obtain w1 where c: "sys env (Sock (Getaddrinfo target)) w = (?r, w1)" by (simp add: sys_def Let_def)
  note e = sys_effect [OF c]
  obtain w2 where w2: "heap_write ip_flags 0 (replicate 16 0) w1 = Some w2" "trace w2 = trace w1"
    "\<forall>p. p \<noteq> ip_flags \<longrightarrow> heap w2 p = heap w1 p" "err_buf w2 = err_buf w1"
    using assms(3,4) e by (auto simp: heap_write_def memcpy_def)
  define h0 where "h0 = (ip4_fixed_fields n iphdr)\<lparr>ip_src := src, ip_dst := resolved ?r\<rparr>"
  obtain cs where cs: "checksum (ip_bytes (h0\<lparr>ip_sum := 0\<rparr>)) 20 = Some cs" using ip_checksum_defined by blast
  have rt: "inet_pton (inet_ntop (resolved ?r)) = Some (resolved ?r)" using inet_round_trip by blast
  have cs': "checksum (ip_bytes ((ip4_fixed_fields n iphdr)\<lparr>ip_src := src, ip_dst := resolved ?r, ip_sum := 0\<rparr>)) 20 = Some cs"
    using cs by (simp add: h0_def)
  show ?thesis
  proof (rule that [of "h0\<lparr>ip_sum := cs\<rparr>" w2])
    show "create_ip4_hdr env iphdr target dst_ip src_ip ip_flags n w = Some (0, h0\<lparr>ip_sum := cs\<rparr>, inet_ntop (resolved ?r), w2)"
      using assms(1,2) w2(1) rt cs'
      by (simp add: create_ip4_hdr_def c h0_def IP4_HDRLEN_def)
    show "ip4_describes (h0\<lparr>ip_sum := cs\<rparr>) src (resolved ?r) n"
      using ip_checksum_verifies [OF cs]
      by (simp add: ip4_describes_def h0_def ip4_fixed_fields_def ip_bytes_def IP4_HDRLEN_def SIZEOF_VTLHDR_def)
  qed (use w2 e in auto)
qed

section \<open>The packet on the wire\<close>

lemma heap_write_Some:
  "heap w p = Some b \<Longrightarrow> off + length bs \<le> length b \<Longrightarrow>
     heap_write p off bs w = Some (w\<lparr>heap := (heap w)(p \<mapsto> take off b @ bs @ drop (off + length bs) b)\<rparr>)"
  by (simp add: heap_write_def memcpy_def)

lemma heap_write_None: "heap w p = Some b \<Longrightarrow> length b < off + length bs \<Longrightarrow> heap_write p off bs w = None"
  by (simp add: heap_write_def memcpy_def)

definition vtl_packet :: "ip \<Rightarrow> vtlhdr \<Rightarrow> byte list \<Rightarrow> byte list" where
  "vtl_packet h v data = ip_bytes h @ vtlhdr_bytes v @ data"

text \<open>The caller's buffers: distinct live blocks, big enough for the header flags and the data.\<close>

definition send_ready :: "nat \<Rightarrow> nat \<Rightarrow> nat \<Rightarrow> u64 \<Rightarrow> 'a world_scheme \<Rightarrow> bool" where
  "send_ready snd_packet ip_flags snd_data n w \<longleftrightarrow>
     snd_packet \<noteq> ip_flags \<and> snd_packet \<noteq> snd_data \<and> ip_flags \<noteq> snd_data \<and>
     (case heap w snd_packet of None \<Rightarrow> False | Some b \<Rightarrow> length b = IP_MAXPACKET) \<and>
     (case heap w ip_flags of None \<Rightarrow> False | Some b \<Rightarrow> 16 \<le> length b) \<and>
     (case heap w snd_data of None \<Rightarrow> False | Some b \<Rightarrow> unat n \<le> length b)"

lemma assemble_fits:
  assumes "heap w p = Some b" and "length b = 65535" and "heap w d = Some data" and "unat n \<le> length data" and "p \<noteq> d"
    and "unat n \<le> 65513"
  shows "ip4_pkt_assemble p h v d n w =
     Some (w\<lparr>heap := (heap w)(p \<mapsto> vtl_packet h v (take (unat n) data) @ drop (22 + unat n) b)\<rparr>)"
  using assms
  by (simp add: ip4_pkt_assemble_def heap_write_Some heap_read_def vtl_packet_def IP4_HDRLEN_def SIZEOF_VTLHDR_def
      add.commute)

lemma assemble_overflows:
  assumes "heap w p = Some b" and "length b = 65535" and "65513 < unat n"
  shows "ip4_pkt_assemble p h v d n w = None"
proof -
  have "heap_write p 22 (take (unat n) data) w' = None" if "heap w' p = Some b'" "length b' = 65535" "unat n \<le> length data"
    for w' :: "'a world_scheme" and b' data
    using that assms(3) by (intro heap_write_None) auto
  then show ?thesis using assms
    by (auto simp: ip4_pkt_assemble_def heap_write_Some heap_read_def IP4_HDRLEN_def SIZEOF_VTLHDR_def
        split: Option.bind_splits if_splits)
qed

lemma unat_pkt_size: "unat n \<le> 65513 \<Longrightarrow> unat (22 + n :: u64) = 22 + unat n"
  using unat_add_lem [of 22 n] by simp

lemma send_packet_wire:
  assumes "rv (answer env (trace w) (Sock (Getaddrinfo target))) = 0"
    and "inet_pton src_ip = Some src" and "send_ready p fl d n w" and "unat n \<le> 65513"
    and "heap w d = Some data"
  shows "\<exists>h r w'. let dst = resolved (answer env (trace w) (Sock (Getaddrinfo target)));
       pkt = vtl_packet h vtlh (take (unat n) data) in
     adaptor__send_packet env fd p vtlh iphdr target dst_ip src_ip fl d n w =
       Some (if rv r < 0 then -1 else 0, h, inet_ntop dst, w') \<and>
     calls w' = calls w @ [Sock (Getaddrinfo target), Sock (Sendto fd pkt (sockaddr_bytes (fill_sockaddr_in h)))] \<and>
     snd (last (trace w')) = r \<and>
     ip4_describes h src dst n \<and> length pkt = unat (htons (ip_len h))"
proof -
  let ?r = "answer env (trace w) (Sock (Getaddrinfo target))"
  obtain b fb where b: "heap w p = Some b" "length b = 65535" and fb: "heap w fl = Some fb" "16 \<le> length fb"
    and ne: "p \<noteq> fl" "p \<noteq> d" "fl \<noteq> d" and dl: "unat n \<le> length data"
    using assms(3,5) by (auto simp: send_ready_def IP_MAXPACKET_def split: option.splits)
  obtain h w1 where h: "create_ip4_hdr env iphdr target dst_ip src_ip fl n w = Some (0, h, inet_ntop (resolved ?r), w1)"
    "ip4_describes h src (resolved ?r) n" "trace w1 = trace w @ [(Sock (Getaddrinfo target), ?r)]"
    "\<forall>q. q \<noteq> fl \<longrightarrow> heap w1 q = heap w q"
    by (rule create_ip4_hdr_success [OF assms(1,2) fb])
  define pkt where "pkt = vtl_packet h vtlh (take (unat n) data)"
  have len: "length pkt = 22 + unat n" using dl by (simp add: pkt_def vtl_packet_def)
  obtain w2 where w2: "ip4_pkt_assemble p h vtlh d n w1 = Some w2" "heap w2 p = Some (pkt @ drop (22 + unat n) b)"
    "trace w2 = trace w1"
    using assemble_fits [of w1 p b d data n h vtlh] h(4) b assms(4,5) dl ne by (simp add: pkt_def)
  have rd: "heap_read p (unat (22 + n)) w2 = Some pkt"
    using w2(2) len b(2) assms(4) by (simp add: heap_read_def unat_pkt_size)
  obtain v w3 where c3: "call env (Sock (Sendto fd pkt (sockaddr_bytes (fill_sockaddr_in h)))) w2 = (v, w3)" by fastforce
  obtain r where r: "v = rv r" "trace w3 = trace w2 @ [(Sock (Sendto fd pkt (sockaddr_bytes (fill_sockaddr_in h))), r)]"
    using call_effect [OF c3] by blast
  have "unat (ucast (22 + n :: u64) :: u16) = 22 + unat n"
    using unat_pkt_size [OF assms(4)] assms(4) by (simp add: unsigned_ucast_eq take_bit_nat_eq_self)
  then have ul: "unat (htons (ip_len h)) = length pkt" using h(2) len by (simp add: ip4_describes_def)
  let ?w = "if v < 0 then set_err ''ERR: send_packet() failed\<newline>'' w3 else w3"
  have "adaptor__send_packet env fd p vtlh iphdr target dst_ip src_ip fl d n w =
      Some (if rv r < 0 then -1 else 0, h, inet_ntop (resolved ?r), ?w)"
    using h(1) w2(1) rd c3 r(1)
    by (simp add: adaptor__send_packet_def send_packet_def IP4_HDRLEN_def SIZEOF_VTLHDR_def)
  moreover have "trace ?w = trace w @ [(Sock (Getaddrinfo target), ?r), (Sock (Sendto fd pkt (sockaddr_bytes (fill_sockaddr_in h))), r)]"
    using r(2) w2(3) h(3) by simp
  ultimately show ?thesis using h(2) ul unfolding pkt_def
    by (intro exI [of _ h] exI [of _ r] exI [of _ ?w]) (simp add: calls_def Let_def)
qed

text \<open>
  C5. What goes on the wire. If the resolver finds the target, the local address is a
  well-formed address and the data is at most 65513 bytes, exactly one packet is handed to the
  kernel, addressed to the resolved host: an IPv4 header, the VTL header and the data, unchanged.
  The header names the two addresses and the VTL protocol, its length field is the length of the
  packet and its checksum verifies. The call succeeds exactly when the kernel takes the packet.
\<close>

theorem send_packet_on_wire:
  assumes "rv (answer env (trace w) (Sock (Getaddrinfo target))) = 0"
    and "inet_pton src_ip = Some src" and "send_ready p fl d n w" and "unat n \<le> 65513"
    and "heap w d = Some data"
  shows "\<exists>h r w'. let dst = resolved (answer env (trace w) (Sock (Getaddrinfo target)));
       pkt = vtl_packet h vtlh (take (unat n) data) in
     adaptor__send_packet env fd p vtlh iphdr target dst_ip src_ip fl d n w =
       Some (if rv r < 0 then -1 else 0, h, inet_ntop dst, w') \<and>
     calls w' = calls w @ [Sock (Getaddrinfo target), Sock (Sendto fd pkt (sockaddr_bytes (fill_sockaddr_in h)))] \<and>
     snd (last (trace w')) = r \<and>
     ip4_describes h src dst n \<and> length pkt = unat (htons (ip_len h))"
  by (rule send_packet_wire [OF assms])

text \<open>A world with the three buffers of a sender, and \<open>good_env\<close> as its environment.\<close>

definition send_world :: "byte list \<Rightarrow> world" where
  "send_world data = init_world\<lparr>heap := [1 \<mapsto> replicate 65535 0, 2 \<mapsto> replicate 16 0, 3 \<mapsto> data], fresh := 3\<rparr>"

definition ip_zero :: ip where
  "ip_zero = \<lparr>ip_hl = 0, ip_v = 0, ip_tos = 0, ip_len = 0, ip_id = 0, ip_off = 0, ip_ttl = 0, ip_p = 0,
     ip_sum = 0, ip_src = (0, 0, 0, 0), ip_dst = (0, 0, 0, 0)\<rparr>"

lemma pton_example: "inet_pton ''10.0.0.1'' = Some (10, 0, 0, 1)"
  by (simp add: inet_pton_def digit_val_def)

theorem send_packet_on_wire_witness:
  "\<exists>h r w'. let dst = resolved (answer good_env [] (Sock (Getaddrinfo ''host'')));
       pkt = vtl_packet h \<lparr>vtl_checksum = 0\<rparr> [104, 105] in
     adaptor__send_packet good_env 3 1 \<lparr>vtl_checksum = 0\<rparr> ip_zero ''host'' [] ''10.0.0.1'' 2 3 2 (send_world [104, 105]) =
       Some (if rv r < 0 then -1 else 0, h, inet_ntop dst, w') \<and>
     calls w' = [Sock (Getaddrinfo ''host''), Sock (Sendto 3 pkt (sockaddr_bytes (fill_sockaddr_in h)))] \<and>
     snd (last (trace w')) = r \<and>
     ip4_describes h (10, 0, 0, 1) dst 2 \<and> length pkt = unat (htons (ip_len h))"
proof -
  have "rv (answer good_env (trace (send_world [104, 105])) (Sock (Getaddrinfo ''host''))) = 0"
    by (simp add: good_env_simps)
  moreover have "send_ready 1 2 3 2 (send_world [104, 105])"
    by (simp add: send_ready_def send_world_def IP_MAXPACKET_def)
  ultimately show ?thesis
    using send_packet_on_wire [where env = good_env and w = "send_world [104, 105]" and target = "''host''"
        and src_ip = "''10.0.0.1''" and src = "(10, 0, 0, 1)" and p = 1 and fl = 2 and d = 3 and n = 2
        and data = "[104, 105]" and vtlh = "\<lparr>vtl_checksum = 0\<rparr>" and fd = 3 and iphdr = ip_zero and dst_ip = "[]"]
      pton_example
    by (simp add: send_world_def init_world_def calls_def)
qed

text \<open>
  There is no check on the size of the data: with more than 65513 bytes the copy runs past
  the end of the 65535-byte packet buffer, whatever the other arguments are.
\<close>

lemma send_packet_overflows:
  assumes "rv (answer env (trace w) (Sock (Getaddrinfo target))) = 0"
    and "inet_pton src_ip = Some src" and "send_ready p fl d n w" and "65513 < unat n"
  shows "adaptor__send_packet env fd p vtlh iphdr target dst_ip src_ip fl d n w = None"
proof -
  obtain b fb where b: "heap w p = Some b" "length b = 65535" and fb: "heap w fl = Some fb" "16 \<le> length fb"
    and ne: "p \<noteq> fl"
    using assms(3) by (auto simp: send_ready_def IP_MAXPACKET_def split: option.splits)
  obtain h t w1 where h: "create_ip4_hdr env iphdr target dst_ip src_ip fl n w = Some (0, h, t, w1)"
    "\<forall>q. q \<noteq> fl \<longrightarrow> heap w1 q = heap w q"
    by (rule create_ip4_hdr_success [OF assms(1,2) fb])
  have "ip4_pkt_assemble p h vtlh d n w1 = None"
    using h(2) b ne assms(4) by (intro assemble_overflows) auto
  then show ?thesis using h(1) by (simp add: adaptor__send_packet_def)
qed


definition deaf_env :: env where
  "deaf_env = good_env\<lparr>answer := (\<lambda>t c. good_reply (-2))\<rparr>"


section \<open>Descriptors of the interface look-up\<close>

fun opened :: "(sys_call \<times> reply) list \<Rightarrow> int list" where
  "opened [] = []"
| "opened ((Sock (Socket d t p), r) # cs) = (if rv r < 0 then opened cs else rv r # opened cs)"
| "opened (c # cs) = opened cs"

fun closed :: "(sys_call \<times> reply) list \<Rightarrow> int list" where
  "closed [] = []"
| "closed ((Sock (Close fd), r) # cs) = fd # closed cs"
| "closed (c # cs) = closed cs"

fun ioctl_failed :: "(sys_call \<times> reply) list \<Rightarrow> bool" where
  "ioctl_failed [] = False"
| "ioctl_failed ((Sock (Ioctl fd q s), r) # cs) = (rv r < 0 \<or> ioctl_failed cs)"
| "ioctl_failed (c # cs) = ioctl_failed cs"

text \<open>
  Setting up the raw socket returns 0 or -1, with a message for -1. The descriptor it opens
  to look the interface up is closed again on every path but one: when the look-up itself fails
  the function returns with that descriptor still open.
\<close>

lemma config_raw_sock_descriptors:
  assumes "adaptor__config_raw_sock env fd interface w = (ret, w')"
  shows "(ret = 0 \<or> ret = -1 \<and> take 4 (err_buf w') = ''ERR:'') \<and> grows w w' \<and>
     (\<not> ioctl_failed (since w w') \<longrightarrow> closed (since w w') = opened (since w w')) \<and>
     (ioctl_failed (since w w') \<longrightarrow> closed (since w w') = [] \<and> length (opened (since w w')) = 1 \<and> ret = -1)"
proof -
  obtain v1 w1 where c1: "call env (Sock (Setsockopt fd IPPROTO_IP IP_HDRINCL)) w = (v1, w1)" by fastforce
  obtain r1 where t1: "rv r1 = v1" "trace w1 = trace w @ [(Sock (Setsockopt fd IPPROTO_IP IP_HDRINCL), r1)]"
    using call_effect [OF c1] by blast
  obtain sd w2 where c2: "call env (Sock (Socket AF_INET SOCK_RAW IPPROTO_RAW)) w1 = (sd, w2)" by fastforce
  obtain r2 where t2: "rv r2 = sd" "trace w2 = trace w1 @ [(Sock (Socket AF_INET SOCK_RAW IPPROTO_RAW), r2)]"
    using call_effect [OF c2] by blast
  let ?n = "snprintf IFNAMSIZ interface"
  obtain v3 w3 where c3: "call env (Sock (Ioctl sd SIOCGIFINDEX ?n)) w2 = (v3, w3)" by fastforce
  obtain r3 where t3: "rv r3 = v3" "trace w3 = trace w2 @ [(Sock (Ioctl sd SIOCGIFINDEX ?n), r3)]"
    using call_effect [OF c3] by blast
  obtain v4 w4 where c4: "call env (Sock (Close sd)) w3 = (v4, w4)" by fastforce
  obtain r4 where t4: "trace w4 = trace w3 @ [(Sock (Close sd), r4)]" using call_effect [OF c4] by blast
  obtain v5 w5 where c5: "call env (Sock (SetsockoptIf fd ?n)) w4 = (v5, w5)" by fastforce
  obtain r5 where t5: "rv r5 = v5" "trace w5 = trace w4 @ [(Sock (SetsockoptIf fd ?n), r5)]"
    using call_effect [OF c5] by blast
  note defs = adaptor__config_raw_sock_def enable_ip4_hdr_gen_def bind_raw_sock_to_interface_def c1 c2 c3 c4 c5
    since_def grows_def Let_def
  have m: "take 4 (snprintf VTL_ERRBUF_SIZE ''ERR: enable_ip4_hdr_gen() failed\<newline>'') = ''ERR:''"
    by (simp add: snprintf_def VTL_ERRBUF_SIZE_def)
  consider "v1 < 0" | "\<not> v1 < 0" "sd < 0" | "\<not> v1 < 0" "\<not> sd < 0" "v3 < 0"
    | "\<not> v1 < 0" "\<not> sd < 0" "\<not> v3 < 0" "v5 < 0" | "\<not> v1 < 0" "\<not> sd < 0" "\<not> v3 < 0" "\<not> v5 < 0" by blast
  then show ?thesis using assms t1 t2 t3 t4 t5 m
    by cases (simp_all add: defs, auto)
qed

end
