(* ===== verification/Kern_Progs.thy ===== *)
theory Kern_Progs
  imports Prelude
begin

text \<open>
  The programs that run in the kernel's packet path: the traffic-control egress filter
  (\<^verbatim>\<open>src/bpf/bpf_tc.c\<close>), the XDP program that steers VTL packets to the AF\_XDP socket
  (\<^verbatim>\<open>src/bpf/bpf_xdp.c\<close>) and the one that copies them to a perf buffer
  (\<^verbatim>\<open>src/bpf/bpf_arqin.c\<close>). A packet is the bytes between \<open>data\<close> and \<open>data_end\<close>; an access
  outside them, which the verifier would refuse, is \<^term>\<open>None\<close>. Map look-ups and helpers of the
  kernel are arguments.
\<close>

section \<open>Packet access\<close>

definition SIZEOF_ETHHDR :: nat where "SIZEOF_ETHHDR = 14"
definition SIZEOF_IPHDR :: nat where "SIZEOF_IPHDR = 20"
definition KERN_IPPROTO_VTL :: byte where "KERN_IPPROTO_VTL = 0xc8"
definition PROTOCOL_OFF :: nat where "PROTOCOL_OFF = 9"

definition pkt_load :: "byte list \<Rightarrow> nat \<Rightarrow> byte option" where
  "pkt_load pkt i = (if i < length pkt then Some (pkt ! i) else None)"

text \<open>\<open>iph->protocol\<close> is the tenth byte of the header behind the Ethernet header.\<close>

definition ip_protocol :: "byte list \<Rightarrow> byte option" where
  "ip_protocol pkt = pkt_load pkt (SIZEOF_ETHHDR + PROTOCOL_OFF)"

section \<open>The egress filter\<close>

definition TC_ACT_OK :: int where "TC_ACT_OK = 0"

definition tf_tc_egress :: "byte list \<Rightarrow> (int \<times> byte list) option" where
  "tf_tc_egress skb =
     (if SIZEOF_ETHHDR > length skb then Some (TC_ACT_OK, skb)
      else if SIZEOF_ETHHDR + SIZEOF_IPHDR > length skb then Some (TC_ACT_OK, skb)
      else do {
        protocol \<leftarrow> ip_protocol skb;
        if protocol \<noteq> KERN_IPPROTO_VTL then Some (TC_ACT_OK, skb)
        else if SIZEOF_ETHHDR + SIZEOF_IPHDR + 2 > length skb then Some (TC_ACT_OK, skb)
        else do {
          skb \<leftarrow> memcpy skb (SIZEOF_ETHHDR + SIZEOF_IPHDR) (le16 30);
          Some (TC_ACT_OK, skb)
        }
      })"

section \<open>The XDP programs\<close>

datatype xdp_action = XDP_ABORTED | XDP_DROP | XDP_PASS | XDP_TX | XDP_REDIRECT

text \<open>
  \<open>xsks\<close> is the content of \<open>xsks_map\<close> (socket by receive queue) and \<open>redirect index flags\<close> what
  \<open>bpf_redirect_map\<close> on that map returns.
\<close>

definition xdp_sock_prog ::
    "(int \<Rightarrow> int option) \<Rightarrow> (int \<Rightarrow> u64 \<Rightarrow> xdp_action) \<Rightarrow> int \<Rightarrow> byte list \<Rightarrow> xdp_action option" where
  "xdp_sock_prog xsks redirect rx_queue_index pkt =
     (let index = rx_queue_index
      in if SIZEOF_ETHHDR > length pkt then Some XDP_DROP
         else if SIZEOF_ETHHDR + SIZEOF_IPHDR > length pkt then Some XDP_DROP
         else do {
           protocol \<leftarrow> ip_protocol pkt;
           if protocol \<noteq> KERN_IPPROTO_VTL then Some XDP_PASS
           else if xsks index \<noteq> None then Some (redirect index 0)
           else Some XDP_PASS
         })"

definition BPF_F_CURRENT_CPU :: u64 where "BPF_F_CURRENT_CPU = 0xffffffff"

record arqin_metadata =
  cookie :: u16
  pkt_len :: u16

text \<open>
  The second result is what is asked of \<open>bpf_perf_event_output\<close>: the flags, whose upper half is
  the number of packet bytes to copy, and the metadata put before them.
\<close>

definition xdp_arqin_prog :: "byte list \<Rightarrow> (xdp_action \<times> (u64 \<times> arqin_metadata) option) option" where
  "xdp_arqin_prog pkt =
     (if SIZEOF_ETHHDR > length pkt then Some (XDP_PASS, None)
      else if SIZEOF_ETHHDR + SIZEOF_IPHDR > length pkt then Some (XDP_PASS, None)
      else do {
        protocol \<leftarrow> ip_protocol pkt;
        if protocol \<noteq> KERN_IPPROTO_VTL then Some (XDP_PASS, None)
        else let metadata = \<lparr>cookie = 0xdead, pkt_len = of_nat (length pkt)\<rparr>;
                 flags = BPF_F_CURRENT_CPU OR push_bit 32 (ucast (pkt_len metadata))
             in Some (XDP_DROP, Some (flags, metadata))
      })"

section \<open>What the programs do to a packet\<close>

definition is_vtl :: "byte list \<Rightarrow> bool" where
  "is_vtl pkt \<longleftrightarrow> 34 \<le> length pkt \<and> pkt ! 23 = KERN_IPPROTO_VTL"

lemmas kern_sizes = SIZEOF_ETHHDR_def SIZEOF_IPHDR_def PROTOCOL_OFF_def

lemma ip_protocol_some: "34 \<le> length pkt \<Longrightarrow> ip_protocol pkt = Some (pkt ! 23)"
  by (simp add: ip_protocol_def pkt_load_def kern_sizes)

lemma tf_tc_egress_cases:
  "tf_tc_egress skb = Some (TC_ACT_OK,
     if is_vtl skb \<and> 36 \<le> length skb then take 34 skb @ [30, 0] @ drop 36 skb else skb)"
  by (simp add: tf_tc_egress_def ip_protocol_some is_vtl_def kern_sizes memcpy_def le16_def)

lemma xdp_sock_prog_cases:
  "xdp_sock_prog xsks redirect q pkt =
     Some (if length pkt < 34 then XDP_DROP
           else if is_vtl pkt \<and> xsks q \<noteq> None then redirect q 0 else XDP_PASS)"
  by (auto simp: xdp_sock_prog_def ip_protocol_some is_vtl_def kern_sizes Let_def)

text \<open>
  C26. The egress filter accepts every packet and never reads or writes outside it. It changes
  nothing but the VTL header: the length, the Ethernet and IPv4 headers and the payload stay as
  they were, and the checksum field of a VTL packet becomes 30; any other packet is unchanged.
\<close>

theorem tc_egress_only_checksum:
  "\<exists>skb'. tf_tc_egress skb = Some (TC_ACT_OK, skb') \<and> length skb' = length skb \<and>
     take 34 skb' = take 34 skb \<and> drop 36 skb' = drop 36 skb \<and>
     (if is_vtl skb \<and> 36 \<le> length skb then get16 (skb' ! 34) (skb' ! 35) = 30 else skb' = skb)"
proof (cases "is_vtl skb \<and> 36 \<le> length skb")
  case True
  then have l: "36 \<le> length skb" by simp
  let ?s = "take 34 skb @ [30, 0] @ drop 36 skb"
  have "?s ! 34 = 30" "?s ! 35 = 0" using l by (simp_all add: nth_append)
  moreover have "get16 30 0 = 30" by (simp add: get16_def)
  ultimately show ?thesis using True l by (simp add: tf_tc_egress_cases)
next
  case False
  show ?thesis unfolding tf_tc_egress_cases if_not_P [OF False] by simp
qed

text \<open>
  C27. The XDP program decides every packet without leaving its bounds: too short for an IPv4
  header is dropped; a VTL packet on a queue with a bound socket gets the verdict of the
  redirection to that queue; everything else goes to the normal stack. So traffic of other
  protocols is never diverted, and no VTL packet is diverted on a queue without a socket.
\<close>

theorem xdp_sock_verdict:
  "xdp_sock_prog xsks redirect q pkt =
     Some (if length pkt < 34 then XDP_DROP
           else if pkt ! 23 = 200 then (case xsks q of None \<Rightarrow> XDP_PASS | Some s \<Rightarrow> redirect q 0)
           else XDP_PASS)"
  by (auto simp: xdp_sock_prog_cases is_vtl_def KERN_IPPROTO_VTL_def split: option.splits)

text \<open>
  C28. The perf-buffer program takes exactly the VTL packets out of the stack. For a packet
  shorter than 65536 bytes the metadata gives its length and the upper half of the flags asks
  for all its bytes; beyond that the length wraps around 16 bits, and so does the amount copied.
\<close>

theorem xdp_arqin_copies:
  "\<exists>v out. xdp_arqin_prog pkt = Some (v, out) \<and> (v = XDP_DROP \<longleftrightarrow> is_vtl pkt) \<and> (out \<noteq> None \<longleftrightarrow> is_vtl pkt) \<and>
     (case out of None \<Rightarrow> v = XDP_PASS
      | Some (flags, m) \<Rightarrow> cookie m = 0xdead \<and> unat (pkt_len m) = length pkt mod 65536 \<and>
          drop_bit 32 flags = ucast (pkt_len m) \<and> take_bit 32 flags = BPF_F_CURRENT_CPU)"
proof -
  have d: "drop_bit 32 (BPF_F_CURRENT_CPU OR push_bit 32 (ucast (x :: u16))) = (ucast x :: u64)" for x
    by (rule bit_word_eqI) (auto simp: BPF_F_CURRENT_CPU_def bit_simps dest: bit_imp_le_length)
  have t: "take_bit 32 (BPF_F_CURRENT_CPU OR push_bit 32 (ucast (x :: u16))) = BPF_F_CURRENT_CPU" for x
    by (rule bit_word_eqI) (auto simp: BPF_F_CURRENT_CPU_def bit_simps)
  have m: "unat (of_nat (length pkt) :: u16) = length pkt mod 65536" by (simp add: unat_of_nat)
  show ?thesis
  proof (cases "is_vtl pkt")
    case True
    then show ?thesis using d [of "of_nat (length pkt)"] t [of "of_nat (length pkt)"] m
      by (simp add: xdp_arqin_prog_def ip_protocol_some is_vtl_def kern_sizes Let_def del: drop_bit_or take_bit_or)
  next
    case False
    then show ?thesis by (auto simp: xdp_arqin_prog_def ip_protocol_some is_vtl_def kern_sizes Let_def)
  qed
qed

end
