(* ===== verification/Kern_Hooker.thy ===== *)
theory Kern_Hooker
  imports Prelude
begin

text \<open>
  The socket programs of the hooker, \<^verbatim>\<open>src/bpf/bpf_hooker.c\<close>: \<open>hooker_monitor\<close> registers
  every TCP connection of a legacy application when it is established, \<open>hooker_redirect\<close> diverts
  what a registered application sends to the hooker's own socket. The kernel's maps are arguments
  of the programs, given by what a look-up and an update do.
\<close>

section \<open>Keys and maps\<close>

record sock_key =
  sip4 :: u32
  dip4 :: u32
  sport :: u32
  dport :: u32

definition zero_key :: sock_key where
  "zero_key = \<lparr>sip4 = 0, dip4 = 0, sport = 0, dport = 0\<rparr>"

definition LEGMAP_SIZE :: nat where "LEGMAP_SIZE = 64"
definition HOOKER_REDIR_PORT :: u32 where "HOOKER_REDIR_PORT = 10002"
definition BPF_ANY :: u64 where "BPF_ANY = 0"
definition BPF_NOEXIST :: u64 where "BPF_NOEXIST = 1"
definition BPF_F_INGRESS :: u64 where "BPF_F_INGRESS = 1"

text \<open>\<open>bpf_htonl\<close> on a little-endian machine reverses the four bytes.\<close>

definition bpf_htonl :: "u32 \<Rightarrow> u32" where
  "bpf_htonl x =
     push_bit 24 (take_bit 8 x) OR push_bit 16 (take_bit 8 (drop_bit 8 x)) OR
     push_bit 8 (take_bit 8 (drop_bit 16 x)) OR drop_bit 24 x"

text \<open>
  The helpers of the kernel on the two maps: an update takes the key, the value and the flags and
  gives the map afterwards (unchanged when it fails).
\<close>

record ('m, 's) hooker_maps =
  cookie_lookup :: "'m \<Rightarrow> sock_key \<Rightarrow> u64 option"
  cookie_update :: "'m \<Rightarrow> sock_key \<Rightarrow> u64 \<Rightarrow> u64 \<Rightarrow> 'm"
  sock_update :: "'s \<Rightarrow> sock_key \<Rightarrow> int \<Rightarrow> u64 \<Rightarrow> 's"

record ('m, 's) hooker_kstate =
  COOKIE_MAP :: 'm
  SOCK_MAP :: 's

section \<open>The programs\<close>

text \<open>\<open>sk\<close> is the socket the context belongs to, \<open>sk_cookie\<close> what \<open>bpf_get_socket_cookie\<close> returns.\<close>

record bpf_sock_ops =
  op :: u32
  remote_ip4 :: u32
  local_ip4 :: u32
  remote_port :: u32
  local_port :: u32
  sk :: int
  sk_cookie :: u64

definition BPF_SOCK_OPS_ACTIVE_ESTABLISHED_CB :: u32 where "BPF_SOCK_OPS_ACTIVE_ESTABLISHED_CB = 4"
definition BPF_SOCK_OPS_PASSIVE_ESTABLISHED_CB :: u32 where "BPF_SOCK_OPS_PASSIVE_ESTABLISHED_CB = 5"

definition legapp_register ::
    "('m, 's) hooker_maps \<Rightarrow> bpf_sock_ops \<Rightarrow> ('m, 's) hooker_kstate \<Rightarrow> ('m, 's) hooker_kstate" where
  "legapp_register k skops s =
     (let skey = zero_key\<lparr>dip4 := remote_ip4 skops, sip4 := local_ip4 skops,
                   dport := remote_port skops, sport := bpf_htonl (local_port skops)\<rparr>;
          cookie = sk_cookie skops;
          s = s\<lparr>COOKIE_MAP := cookie_update k (COOKIE_MAP s) skey cookie BPF_ANY\<rparr>
      in s\<lparr>SOCK_MAP := sock_update k (SOCK_MAP s) skey (sk skops) BPF_NOEXIST\<rparr>)"

definition hooker_monitor ::
    "('m, 's) hooker_maps \<Rightarrow> bpf_sock_ops \<Rightarrow> ('m, 's) hooker_kstate \<Rightarrow> int \<times> ('m, 's) hooker_kstate" where
  "hooker_monitor k skops s =
     (if op skops = BPF_SOCK_OPS_PASSIVE_ESTABLISHED_CB \<or> op skops = BPF_SOCK_OPS_ACTIVE_ESTABLISHED_CB
      then (0, legapp_register k skops s) else (0, s))"

record sk_msg_md =
  msg_remote_ip4 :: u32
  msg_local_ip4 :: u32
  msg_remote_port :: u32
  msg_local_port :: u32

datatype sk_action = SK_DROP | SK_PASS

text \<open>
  The second result is the redirection asked for, if any: the key looked up in \<open>SOCK_MAP\<close> and
  the flags. The value returned by \<open>bpf_msg_redirect_hash\<close> is not used by the program.
\<close>

definition hooker_redirect ::
    "('m, 's) hooker_maps \<Rightarrow> sk_msg_md \<Rightarrow> ('m, 's) hooker_kstate \<Rightarrow> sk_action \<times> (sock_key \<times> u64) option" where
  "hooker_redirect k msg s =
     (let flags = BPF_F_INGRESS; lport = msg_local_port msg
      in if lport = HOOKER_REDIR_PORT then (SK_PASS, None)
         else let skey = zero_key\<lparr>dip4 := msg_remote_ip4 msg, sip4 := msg_local_ip4 msg,
                           dport := msg_remote_port msg, sport := bpf_htonl (msg_local_port msg)\<rparr>;
                  hkey = zero_key
              in case cookie_lookup k (COOKIE_MAP s) skey of
                   None \<Rightarrow> (SK_DROP, None)
                 | Some cookie \<Rightarrow> (SK_PASS, Some (hkey, flags)))"

section \<open>Byte order\<close>

lemma bit_bpf_htonl:
  "n < 32 \<Longrightarrow> bit (bpf_htonl x) n =
     bit x (if n < 8 then 24 + n else if n < 16 then 8 + n else if n < 24 then n - 8 else n - 24)"
  by (auto simp: bpf_htonl_def bit_simps dest: bit_imp_le_length)

lemma bpf_htonl_htonl: "bpf_htonl (bpf_htonl x) = x"
proof (rule bit_word_eqI)
  fix n assume "n < LENGTH(32)"
  then consider "n < 8" | "8 \<le> n" "n < 16" | "16 \<le> n" "n < 24" | "24 \<le> n" "n < 32" by fastforce
  then show "bit (bpf_htonl (bpf_htonl x)) n = bit x n"
    by cases (auto simp: bit_bpf_htonl)
qed

lemma bpf_htonl_inj: "bpf_htonl x = bpf_htonl y \<longleftrightarrow> x = y"
  using bpf_htonl_htonl by metis

section \<open>Registration and redirection\<close>

text \<open>A connection seen from the two programs.\<close>

definition same_connection :: "bpf_sock_ops \<Rightarrow> sk_msg_md \<Rightarrow> bool" where
  "same_connection skops msg \<longleftrightarrow>
     msg_remote_ip4 msg = remote_ip4 skops \<and> msg_local_ip4 msg = local_ip4 skops \<and>
     msg_remote_port msg = remote_port skops \<and> msg_local_port msg = local_port skops"

text \<open>
  Documented behaviour of a hash map: an update with \<open>BPF_ANY\<close> that finds the key, or room for
  it, makes look-ups of the key give the value; look-ups of other keys are not affected by an
  update; an update adds at most one entry.
\<close>

definition hash_map_laws ::
    "('m \<Rightarrow> sock_key \<Rightarrow> u64 option) \<Rightarrow> ('m \<Rightarrow> sock_key \<Rightarrow> u64 \<Rightarrow> u64 \<Rightarrow> 'm) \<Rightarrow> ('m \<Rightarrow> nat) \<Rightarrow> bool" where
  "hash_map_laws lookup update entries \<longleftrightarrow>
     (\<forall>m k v. lookup m k \<noteq> None \<or> entries m < LEGMAP_SIZE \<longrightarrow> lookup (update m k v BPF_ANY) k = Some v) \<and>
     (\<forall>m k k' v f. k' \<noteq> k \<longrightarrow> lookup (update m k v f) k' = lookup m k') \<and>
     (\<forall>m k v f. entries (update m k v f) \<le> Suc (entries m))"

lemma hash_map_lawsD:
  assumes "hash_map_laws lookup update entries"
  shows "lookup m k \<noteq> None \<or> entries m < LEGMAP_SIZE \<Longrightarrow> lookup (update m k v BPF_ANY) k = Some v"
    and "k' \<noteq> k \<Longrightarrow> lookup (update m k v f) k' = lookup m k'"
    and "entries (update m k v f) \<le> Suc (entries m)"
  using assms by (auto simp: hash_map_laws_def)

definition skops_key :: "bpf_sock_ops \<Rightarrow> sock_key" where
  "skops_key c = \<lparr>sip4 = local_ip4 c, dip4 = remote_ip4 c, sport = bpf_htonl (local_port c), dport = remote_port c\<rparr>"

definition msg_key :: "sk_msg_md \<Rightarrow> sock_key" where
  "msg_key m = \<lparr>sip4 = msg_local_ip4 m, dip4 = msg_remote_ip4 m, sport = bpf_htonl (msg_local_port m), dport = msg_remote_port m\<rparr>"

lemma keys_agree: "skops_key c = msg_key m \<longleftrightarrow> same_connection c m"
  by (auto simp: skops_key_def msg_key_def same_connection_def bpf_htonl_inj)

lemma monitor_cookies:
  "COOKIE_MAP (snd (hooker_monitor k c s)) =
     (if op c = 4 \<or> op c = 5 then cookie_update k (COOKIE_MAP s) (skops_key c) (sk_cookie c) BPF_ANY else COOKIE_MAP s)"
  by (auto simp: hooker_monitor_def legapp_register_def Let_def zero_key_def skops_key_def
      BPF_SOCK_OPS_PASSIVE_ESTABLISHED_CB_def BPF_SOCK_OPS_ACTIVE_ESTABLISHED_CB_def)

lemma redirect_cases:
  "hooker_redirect k m s =
     (if msg_local_port m = 10002 then (SK_PASS, None)
      else if cookie_lookup k (COOKIE_MAP s) (msg_key m) = None then (SK_DROP, None)
      else (SK_PASS, Some (zero_key, BPF_F_INGRESS)))"
  by (auto simp: hooker_redirect_def Let_def zero_key_def msg_key_def HOOKER_REDIR_PORT_def split: option.splits)

definition established :: "bpf_sock_ops \<Rightarrow> bool" where
  "established c \<longleftrightarrow> op c = BPF_SOCK_OPS_ACTIVE_ESTABLISHED_CB \<or> op c = BPF_SOCK_OPS_PASSIVE_ESTABLISHED_CB"

definition monitor_all ::
    "('m, 's) hooker_maps \<Rightarrow> bpf_sock_ops list \<Rightarrow> ('m, 's) hooker_kstate \<Rightarrow> ('m, 's) hooker_kstate" where
  "monitor_all k cs s = foldl (\<lambda>s c. snd (hooker_monitor k c s)) s cs"

lemma monitor_all_cookies:
  assumes "hash_map_laws (cookie_lookup k) (cookie_update k) entries"
    and "entries (COOKIE_MAP s) + length (filter established cs) \<le> LEGMAP_SIZE"
  shows "cookie_lookup k (COOKIE_MAP (monitor_all k cs s)) x \<noteq> None \<longleftrightarrow>
     cookie_lookup k (COOKIE_MAP s) x \<noteq> None \<or> (\<exists>c \<in> set cs. established c \<and> skops_key c = x)"
  using assms(2)
proof (induction cs arbitrary: s)
  case Nil
  then show ?case by (simp add: monitor_all_def)
next
  case (Cons c cs)
  let ?s = "snd (hooker_monitor k c s)"
  note L = hash_map_lawsD [OF assms(1)]
  have e: "established c \<longleftrightarrow> op c = 4 \<or> op c = 5"
    by (simp add: established_def BPF_SOCK_OPS_PASSIVE_ESTABLISHED_CB_def BPF_SOCK_OPS_ACTIVE_ESTABLISHED_CB_def)
  have "entries (COOKIE_MAP ?s) + length (filter established cs) \<le> LEGMAP_SIZE"
    using Cons.prems L(3) [of "COOKIE_MAP s" "skops_key c" "sk_cookie c" BPF_ANY]
    by (cases "established c") (simp_all add: monitor_cookies e)
  note IH = Cons.IH [OF this]
  have step: "cookie_lookup k (COOKIE_MAP ?s) x \<noteq> None \<longleftrightarrow>
      cookie_lookup k (COOKIE_MAP s) x \<noteq> None \<or> (established c \<and> skops_key c = x)"
    using L(1) [of "COOKIE_MAP s" "skops_key c" "sk_cookie c"] L(2) [of x "skops_key c"] Cons.prems
    by (cases "established c"; cases "skops_key c = x") (auto simp: monitor_cookies e)
  show ?case using IH step by (auto simp: monitor_all_def)
qed

text \<open>
  C25. A legacy application is hooked exactly when its connection has been established. Starting
  from empty maps, let the monitor see any sequence of socket events with at most 64 connections
  established: a message on a connection that is among them is sent to the hooker's socket (the
  entry of \<open>SOCK_MAP\<close> under the zero key), a message on any other connection is dropped, and
  only messages from the hooker's own redirection port pass untouched.
\<close>

theorem hooked_iff_established:
  assumes "hash_map_laws (cookie_lookup k) (cookie_update k) entries"
    and "entries (COOKIE_MAP s) = 0" and "\<forall>x. cookie_lookup k (COOKIE_MAP s) x = None"
    and "length (filter established cs) \<le> LEGMAP_SIZE"
  shows "hooker_redirect k m (monitor_all k cs s) =
     (if msg_local_port m = HOOKER_REDIR_PORT then (SK_PASS, None)
      else if \<exists>c \<in> set cs. established c \<and> same_connection c m then (SK_PASS, Some (zero_key, BPF_F_INGRESS))
      else (SK_DROP, None))"
  using monitor_all_cookies [OF assms(1), of s cs "msg_key m"] assms(2-4)
  by (auto simp: redirect_cases keys_agree HOOKER_REDIR_PORT_def)

text \<open>A hash map of at most 64 entries, as an association list.\<close>

definition alist_lookup :: "(sock_key \<times> u64) list \<Rightarrow> sock_key \<Rightarrow> u64 option" where
  "alist_lookup m x = map_of m x"

definition alist_update :: "(sock_key \<times> u64) list \<Rightarrow> sock_key \<Rightarrow> u64 \<Rightarrow> u64 \<Rightarrow> (sock_key \<times> u64) list" where
  "alist_update m x v f =
     (if (map_of m x \<noteq> None \<and> f \<noteq> BPF_NOEXIST) \<or> (map_of m x = None \<and> length m < LEGMAP_SIZE)
      then (x, v) # filter (\<lambda>e. fst e \<noteq> x) m else m)"

definition example_maps :: "((sock_key \<times> u64) list, unit) hooker_maps" where
  "example_maps = \<lparr>cookie_lookup = alist_lookup, cookie_update = alist_update, sock_update = (\<lambda>m x v f. m)\<rparr>"

definition example_conn :: bpf_sock_ops where
  "example_conn = \<lparr>op = 4, remote_ip4 = 1, local_ip4 = 2, remote_port = 3, local_port = 9092, sk = 7, sk_cookie = 5\<rparr>"

lemma alist_laws: "hash_map_laws alist_lookup alist_update length"
proof -
  have other: "map_of (filter (\<lambda>e. fst e \<noteq> k) m) k' = map_of m k'" if "k' \<noteq> k"
    for m :: "(sock_key \<times> u64) list" and k k' using that by (induction m) auto
  show ?thesis
    by (auto simp: hash_map_laws_def alist_lookup_def alist_update_def other BPF_ANY_def BPF_NOEXIST_def
        le_imp_less_Suc less_imp_le)
qed

theorem hooked_iff_established_witness:
  "hooker_redirect example_maps \<lparr>msg_remote_ip4 = 1, msg_local_ip4 = 2, msg_remote_port = 3, msg_local_port = 9092\<rparr>
     (monitor_all example_maps [example_conn\<lparr>op := 1\<rparr>, example_conn] \<lparr>COOKIE_MAP = [], SOCK_MAP = ()\<rparr>) =
   (SK_PASS, Some (zero_key, BPF_F_INGRESS))"
proof -
  have "hash_map_laws (cookie_lookup example_maps) (cookie_update example_maps) length"
    using alist_laws by (simp add: example_maps_def)
  then show ?thesis
    by (subst hooked_iff_established [where entries = length])
       (auto simp: example_conn_def same_connection_def HOOKER_REDIR_PORT_def LEGMAP_SIZE_def established_def
          BPF_SOCK_OPS_ACTIVE_ESTABLISHED_CB_def example_maps_def alist_lookup_def)
qed

end
