(* ===== verification/Xdp_Helpers.thy ===== *)
theory Xdp_Helpers
  imports Prelude
begin

text \<open>
  Loading and attaching XDP programs, \<^verbatim>\<open>src/common/xdp_user_helpers.c\<close>. libbpf's calls are
  external; the iteration over the maps and programs of an object follows the order libbpf gives.
  Diagnostics printed to the standard streams are left out.
\<close>

section \<open>Constants and configuration\<close>

definition EXIT_OK :: int where "EXIT_OK = 0"
definition EXIT_FAIL :: int where "EXIT_FAIL = 1"
definition EXIT_FAIL_OPTION :: int where "EXIT_FAIL_OPTION = 2"
definition EXIT_FAIL_XDP :: int where "EXIT_FAIL_XDP = 30"
definition EXIT_FAIL_BPF :: int where "EXIT_FAIL_BPF = 40"

definition ENOENT :: int where "ENOENT = 2"
definition EBUSY :: int where "EBUSY = 16"
definition EEXIST :: int where "EEXIST = 17"
definition EINVAL :: int where "EINVAL = 22"
definition ENAMETOOLONG :: int where "ENAMETOOLONG = 36"

definition XDP_FLAGS_UPDATE_IF_NOEXIST :: u32 where "XDP_FLAGS_UPDATE_IF_NOEXIST = 1"
definition XDP_FLAGS_SKB_MODE :: u32 where "XDP_FLAGS_SKB_MODE = 2"
definition XDP_FLAGS_DRV_MODE :: u32 where "XDP_FLAGS_DRV_MODE = 4"
definition XDP_FLAGS_HW_MODE :: u32 where "XDP_FLAGS_HW_MODE = 8"
definition XDP_FLAGS_MODES :: u32 where "XDP_FLAGS_MODES = 14"
definition BPF_PROG_TYPE_XDP :: int where "BPF_PROG_TYPE_XDP = 6"

definition ERRBUF_SIZE :: nat where "ERRBUF_SIZE = 256"
definition BPF_FILE_SIZE :: nat where "BPF_FILE_SIZE = 512"
definition BPF_PROGSEC_SIZE :: nat where "BPF_PROGSEC_SIZE = 32"
definition IF_NAMESIZE :: nat where "IF_NAMESIZE = 16"
definition PATH_MAX :: nat where "PATH_MAX = 4096"
definition pin_basedir :: string where "pin_basedir = ''/sys/fs/bpf''"

record xdp_config =
  cfg_filename :: string
  cfg_progsec :: string
  cfg_pin_dir :: string
  cfg_do_unload :: bool
  cfg_reuse_maps :: bool
  cfg_xdp_flags :: u32
  cfg_ifindex :: int
  cfg_ifname :: string
  cfg_ifname_buf :: string
  cfg_err_buf :: string

section \<open>Maps\<close>

fun reuse_maps_loop :: "env \<Rightarrow> string \<Rightarrow> int list \<Rightarrow> 'a world_scheme \<Rightarrow> int \<times> 'a world_scheme" where
  "reuse_maps_loop env path [] w = (0, w)"
| "reuse_maps_loop env path (m # maps) w =
     (let full = path @ ''/'' @ map_name env m; len = length full
      in if len \<ge> PATH_MAX then (- ENAMETOOLONG, w)
         else let (pinned_map_fd, w) = call env (Bpf (Obj_get (snprintf PATH_MAX full))) w
         in if pinned_map_fd < 0 then (pinned_map_fd, w)
         else let (err, w) = call env (Bpf (Map_reuse_fd m pinned_map_fd)) w
         in if err \<noteq> 0 then (err, w) else reuse_maps_loop env path maps w)"

text \<open>A null object is handle 0, a null path is \<^term>\<open>None\<close>.\<close>

definition reuse_maps :: "env \<Rightarrow> int \<Rightarrow> string option \<Rightarrow> 'a world_scheme \<Rightarrow> int \<times> 'a world_scheme" where
  "reuse_maps env obj path w =
     (if obj = 0 then (- ENOENT, w)
      else case path of None \<Rightarrow> (- EINVAL, w)
           | Some path \<Rightarrow> reuse_maps_loop env path (obj_maps env obj) w)"

record bpf_map_info =
  map_type :: u32
  key_size :: u32
  value_size :: u32
  max_entries :: u32

definition check_map_fd_info :: "bpf_map_info \<Rightarrow> bpf_map_info \<Rightarrow> int" where
  "check_map_fd_info info exp =
     (if key_size exp \<noteq> 0 \<and> key_size exp \<noteq> key_size info then EXIT_FAIL
      else if value_size exp \<noteq> 0 \<and> value_size exp \<noteq> value_size info then EXIT_FAIL
      else if max_entries exp \<noteq> 0 \<and> max_entries exp \<noteq> max_entries info then EXIT_FAIL
      else if map_type exp \<noteq> 0 \<and> map_type exp \<noteq> map_type info then EXIT_FAIL
      else 0)"

text \<open>The layout of the kernel's \<open>struct bpf_map_info\<close>: type, id, key size, value size, entries.\<close>

definition map_info_of :: "reply \<Rightarrow> bpf_map_info" where
  "map_info_of r = \<lparr>map_type = get32 (rdata r) 0, key_size = get32 (rdata r) 8,
     value_size = get32 (rdata r) 12, max_entries = get32 (rdata r) 16\<rparr>"

text \<open>\<open>info\<close> is \<^term>\<open>None\<close> for a null pointer; its new contents are returned.\<close>

definition open_bpf_map_file ::
    "env \<Rightarrow> string \<Rightarrow> string \<Rightarrow> bpf_map_info option \<Rightarrow> 'a world_scheme \<Rightarrow> int \<times> bpf_map_info option \<times> 'a world_scheme" where
  "open_bpf_map_file env pin_dir mapname info w =
     (let file = snprintf PATH_MAX (pin_dir @ ''/'' @ mapname);
          (fd, w) = call env (Bpf (Obj_get file)) w
      in if fd < 0 then (fd, info, w)
         else case info of None \<Rightarrow> (fd, None, w)
         | Some i \<Rightarrow>
             (let (r, w) = sys env (Bpf (Obj_get_info_by_fd fd)) w
              in if rv r \<noteq> 0 then (EXIT_FAIL_BPF, Some i, w) else (fd, Some (map_info_of r), w)))"

definition pin_maps_in_bpf_object :: "env \<Rightarrow> int \<Rightarrow> string \<Rightarrow> 'a world_scheme \<Rightarrow> int \<times> 'a world_scheme" where
  "pin_maps_in_bpf_object env bpf_obj subdir w =
     (let pin_dir = snprintf PATH_MAX (pin_basedir @ ''/'' @ subdir);
          (err, w) = call env (Bpf (Pin_maps bpf_obj pin_dir)) w
      in if err \<noteq> 0 then (EXIT_FAIL_BPF, w) else (0, w))"

section \<open>Objects\<close>

text \<open>On success the reply to \<open>bpf_prog_load_xattr\<close> carries the object in its data.\<close>

definition obj_of :: "reply \<Rightarrow> int" where
  "obj_of r = uint (get32 (rdata r) 0)"

definition load_xdp_object_file :: "env \<Rightarrow> string \<Rightarrow> int \<Rightarrow> 'a world_scheme \<Rightarrow> int \<times> 'a world_scheme" where
  "load_xdp_object_file env file ifindex w =
     (let (r, w) = sys env (Bpf (Prog_load_xattr file ifindex)) w
      in if rv r \<noteq> 0 then (0, w) else (obj_of r, w))"

text \<open>An error pointer is a handle in the last 4095 addresses, here a small negative number.\<close>

definition IS_ERR_OR_NULL :: "int \<Rightarrow> bool" where
  "IS_ERR_OR_NULL p \<longleftrightarrow> p = 0 \<or> (- 4095 \<le> p \<and> p < 0)"

fun set_programs :: "env \<Rightarrow> int \<Rightarrow> int list \<Rightarrow> 'a world_scheme \<Rightarrow> 'a world_scheme" where
  "set_programs env ifindex [] w = w"
| "set_programs env ifindex (p # ps) w =
     (let (_, w) = call env (Bpf (Set_prog_type p BPF_PROG_TYPE_XDP)) w;
          (_, w) = call env (Bpf (Set_prog_ifindex p ifindex)) w
      in set_programs env ifindex ps w)"

fun set_maps :: "env \<Rightarrow> int \<Rightarrow> int list \<Rightarrow> 'a world_scheme \<Rightarrow> 'a world_scheme" where
  "set_maps env ifindex [] w = w"
| "set_maps env ifindex (m # ms) w =
     (let w = (if \<not> map_offload_neutral env m then snd (call env (Bpf (Set_map_ifindex m ifindex)) w) else w)
      in set_maps env ifindex ms w)"

definition open_xdp_object :: "env \<Rightarrow> string \<Rightarrow> int \<Rightarrow> 'a world_scheme \<Rightarrow> int \<times> 'a world_scheme" where
  "open_xdp_object env file ifindex w =
     (let (obj, w) = call env (Bpf (Object_open_xattr file)) w
      in if IS_ERR_OR_NULL obj then (0, w)
         else let w = set_programs env ifindex (obj_programs env obj) w;
                  w = set_maps env ifindex (obj_maps env obj) w
         in if obj_programs env obj = [] then (0, w) else (obj, w))"

definition load_xdp_object_file_reuse_maps ::
    "env \<Rightarrow> string \<Rightarrow> int \<Rightarrow> string \<Rightarrow> 'a world_scheme \<Rightarrow> int \<times> 'a world_scheme" where
  "load_xdp_object_file_reuse_maps env file ifindex pin_dir w =
     (let (obj, w) = open_xdp_object env file ifindex w
      in if obj = 0 then (0, w)
         else let (err, w) = reuse_maps env obj (Some pin_dir) w
         in if err \<noteq> 0 then (0, w)
         else let (err, w) = call env (Bpf (Object_load obj)) w
         in if err \<noteq> 0 then (0, w) else (obj, w))"

section \<open>Attaching and detaching\<close>

definition xdp_link_attach :: "env \<Rightarrow> int \<Rightarrow> u32 \<Rightarrow> int \<Rightarrow> 'a world_scheme \<Rightarrow> int \<times> 'a world_scheme" where
  "xdp_link_attach env ifindex xdp_flags prog_fd w =
     (let (err, w) = call env (Bpf (Set_link_xdp_fd ifindex prog_fd xdp_flags)) w;
          (err, w) =
            (if err = - EEXIST \<and> xdp_flags AND XDP_FLAGS_UPDATE_IF_NOEXIST = 0
             then let old_flags = xdp_flags;
                      xdp_flags = xdp_flags AND NOT XDP_FLAGS_MODES;
                      xdp_flags = xdp_flags OR
                        (if old_flags AND XDP_FLAGS_SKB_MODE \<noteq> 0 then XDP_FLAGS_DRV_MODE else XDP_FLAGS_SKB_MODE);
                      (err, w) = call env (Bpf (Set_link_xdp_fd ifindex (-1) xdp_flags)) w
                  in if err = 0 then call env (Bpf (Set_link_xdp_fd ifindex prog_fd old_flags)) w else (err, w)
             else (err, w))
      in if err < 0 then (EXIT_FAIL_XDP, w) else (EXIT_OK, w))"

definition xdp_link_detach :: "env \<Rightarrow> int \<Rightarrow> u32 \<Rightarrow> u32 \<Rightarrow> 'a world_scheme \<Rightarrow> int \<times> 'a world_scheme" where
  "xdp_link_detach env ifindex xdp_flags expected_prog_id w =
     (let (r, w) = sys env (Bpf (Get_link_xdp_id ifindex xdp_flags)) w;
          curr_prog_id = get32 (rdata r) 0
      in if rv r \<noteq> 0 then (EXIT_FAIL_XDP, w)
         else if curr_prog_id = 0 then (EXIT_OK, w)
         else if expected_prog_id \<noteq> 0 \<and> curr_prog_id \<noteq> expected_prog_id then (EXIT_FAIL, w)
         else let (err, w) = call env (Bpf (Set_link_xdp_fd ifindex (-1) xdp_flags)) w
         in if err < 0 then (EXIT_FAIL_XDP, w) else (EXIT_OK, w))"

section \<open>Loading and attaching in one go\<close>

fun find_program_by_title :: "env \<Rightarrow> string \<Rightarrow> int list \<Rightarrow> int" where
  "find_program_by_title env title [] = 0"
| "find_program_by_title env title (p # ps) =
     (if prog_title env p = title then p else find_program_by_title env title ps)"

definition xdp_cfg_err :: "string \<Rightarrow> xdp_config \<Rightarrow> xdp_config" where
  "xdp_cfg_err s cfg = cfg\<lparr>cfg_err_buf := snprintf ERRBUF_SIZE s\<rparr>"

text \<open>
  From the point where the configuration is filled in. \<open>strncpy\<close> copies at most the size of the
  section-name array.
\<close>

definition xdp_attach_configured :: "env \<Rightarrow> xdp_config \<Rightarrow> 'a world_scheme \<Rightarrow> int \<times> xdp_config \<times> 'a world_scheme" where
  "xdp_attach_configured env cfg w =
     (let offload_ifindex = (if cfg_xdp_flags cfg AND XDP_FLAGS_HW_MODE \<noteq> 0 then cfg_ifindex cfg else 0);
          (bpf_obj, w) =
            (if cfg_reuse_maps cfg
             then load_xdp_object_file_reuse_maps env (cfg_filename cfg) offload_ifindex (cfg_pin_dir cfg) w
             else load_xdp_object_file env (cfg_filename cfg) offload_ifindex w)
      in if bpf_obj = 0 then (0, xdp_cfg_err (''ERR: loading file: '' @ cfg_filename cfg @ ''\<newline>'') cfg, w)
         else let bpf_prog = (if cfg_progsec cfg \<noteq> [] then find_program_by_title env (cfg_progsec cfg) (obj_programs env bpf_obj)
                              else (case obj_programs env bpf_obj of [] \<Rightarrow> 0 | p # _ \<Rightarrow> p))
         in if bpf_prog = 0
         then (0, xdp_cfg_err (''ERR: couldn't find a program in ELF section '' @ [CHR 0x27] @ cfg_progsec cfg @ [CHR 0x27] @ ''\<newline>'') cfg, w)
         else let cfg = cfg\<lparr>cfg_progsec := take BPF_PROGSEC_SIZE (prog_title env bpf_prog)\<rparr>;
                  prog_fd = prog_fd_of env bpf_prog
         in if prog_fd \<le> 0 then (0, xdp_cfg_err ''ERR: bpf_program__fd failed\<newline>'' cfg, w)
         else let (err, w) = xdp_link_attach env (cfg_ifindex cfg) (cfg_xdp_flags cfg) prog_fd w
         in if err \<noteq> 0 then (0, xdp_cfg_err ''ERR: xdp_link_attach failed\<newline>'' cfg, w)
            else (bpf_obj, cfg, w))"

definition load_bpf_and_xdp_attach ::
    "env \<Rightarrow> xdp_config \<Rightarrow> string \<Rightarrow> string \<Rightarrow> u32 \<Rightarrow> bool \<Rightarrow> 'a world_scheme \<Rightarrow>
     (int \<times> xdp_config \<times> 'a world_scheme) option" where
  "load_bpf_and_xdp_attach env cfg file ifn flags reuse w =
     (let sec = ''xdp_sock''
      in if length file \<ge> BPF_FILE_SIZE \<and> length sec \<ge> BPF_PROGSEC_SIZE \<and> length ifn \<ge> IF_NAMESIZE
         then Some (0, cfg, w)
         else do {
           f \<leftarrow> strcpy BPF_FILE_SIZE file;
           s \<leftarrow> strcpy BPF_PROGSEC_SIZE sec;
           i \<leftarrow> strcpy IF_NAMESIZE ifn;
           let (idx, w) = call env (Sock (If_nametoindex ifn)) w;
           Some (xdp_attach_configured env
             (cfg\<lparr>cfg_filename := f, cfg_progsec := s, cfg_ifname := i, cfg_do_unload := False,
                  cfg_reuse_maps := reuse, cfg_ifindex := idx, cfg_xdp_flags := flags\<rparr>) w)
         })"

section \<open>The kernel's side of a link\<close>

text \<open>
  A network device holds at most one XDP program, in the generic or in the native mode. Setting a
  program fails with \<open>EEXIST\<close> when the other mode is occupied, and with \<open>EBUSY\<close> when the caller
  asked not to replace one; a negative descriptor clears the mode. The state is what the calls
  made so far lead to.
\<close>

record xdp_link =
  skb_prog :: "int option"
  drv_prog :: "int option"

definition generic_mode :: "u32 \<Rightarrow> bool" where
  "generic_mode fl \<longleftrightarrow> fl AND XDP_FLAGS_SKB_MODE \<noteq> 0"

definition prog_in :: "u32 \<Rightarrow> xdp_link \<Rightarrow> int option" where
  "prog_in fl l = (if generic_mode fl then skb_prog l else drv_prog l)"

definition only_prog :: "u32 \<Rightarrow> int option \<Rightarrow> xdp_link" where
  "only_prog fl p = (if generic_mode fl then \<lparr>skb_prog = p, drv_prog = None\<rparr> else \<lparr>skb_prog = None, drv_prog = p\<rparr>)"

definition other_prog :: "u32 \<Rightarrow> xdp_link \<Rightarrow> int option" where
  "other_prog fl l = (if generic_mode fl then drv_prog l else skb_prog l)"

definition set_link :: "xdp_link \<Rightarrow> int \<Rightarrow> u32 \<Rightarrow> int \<times> xdp_link" where
  "set_link l fd fl =
     (if fd < 0 then (0, if generic_mode fl then l\<lparr>skb_prog := None\<rparr> else l\<lparr>drv_prog := None\<rparr>)
      else if other_prog fl l \<noteq> None then (- EEXIST, l)
      else if fl AND XDP_FLAGS_UPDATE_IF_NOEXIST \<noteq> 0 \<and> prog_in fl l \<noteq> None then (- EBUSY, l)
      else (0, if generic_mode fl then l\<lparr>skb_prog := Some fd\<rparr> else l\<lparr>drv_prog := Some fd\<rparr>))"

fun link_after :: "int \<Rightarrow> xdp_link \<Rightarrow> (sys_call \<times> reply) list \<Rightarrow> xdp_link" where
  "link_after i l [] = l"
| "link_after i l ((Bpf (Set_link_xdp_fd j fd fl), r) # t) =
     link_after i (if i = j then snd (set_link l fd fl) else l) t"
| "link_after i l (c # t) = link_after i l t"

definition link_ok :: "xdp_link \<Rightarrow> bool" where
  "link_ok l \<longleftrightarrow> skb_prog l = None \<or> drv_prog l = None"

text \<open>The kernel answers from the state, and reports a program id exactly when there is one.\<close>

definition kernel_link :: "env \<Rightarrow> int \<Rightarrow> xdp_link \<Rightarrow> bool" where
  "kernel_link env i l0 \<longleftrightarrow> link_ok l0 \<and>
     (\<forall>t fd fl. rv (answer env t (Bpf (Set_link_xdp_fd i fd fl))) = fst (set_link (link_after i l0 t) fd fl)) \<and>
     (\<forall>t fl. rv (answer env t (Bpf (Get_link_xdp_id i fl))) = 0 \<and>
        (get32 (rdata (answer env t (Bpf (Get_link_xdp_id i fl)))) 0 = 0 \<longleftrightarrow> prog_in fl (link_after i l0 t) = None))"

lemma set_link_ok: "link_ok l \<Longrightarrow> link_ok (snd (set_link l fd fl))"
  by (auto simp: link_ok_def set_link_def other_prog_def)

lemma link_after_ok: "link_ok l \<Longrightarrow> link_ok (link_after i l t)"
  by (induction i l t rule: link_after.induct) (auto simp: set_link_ok)

lemma link_after_append: "link_after i l (t @ u) = link_after i (link_after i l t) u"
  by (induction i l t rule: link_after.induct) auto

lemma call_set_link:
  assumes "kernel_link env i l0" and "call env (Bpf (Set_link_xdp_fd i fd fl)) w = (v, w')"
  shows "(v, link_after i l0 (trace w')) = set_link (link_after i l0 (trace w)) fd fl"
  using assms by (auto simp: kernel_link_def call_def sys_def link_after_append Let_def)

text \<open>The mode the attach function clears when it has to make room.\<close>

definition opposite :: "u32 \<Rightarrow> u32" where
  "opposite fl = (fl AND NOT XDP_FLAGS_MODES) OR
     (if fl AND XDP_FLAGS_SKB_MODE \<noteq> 0 then XDP_FLAGS_DRV_MODE else XDP_FLAGS_SKB_MODE)"

lemma opposite_mode: "generic_mode (opposite fl) \<longleftrightarrow> \<not> generic_mode fl"
proof -
  have "(fl AND NOT 14) AND 2 = (0 :: u32)" by (simp add: and.assoc)
  then show ?thesis
    by (simp add: generic_mode_def opposite_def XDP_FLAGS_MODES_def XDP_FLAGS_SKB_MODE_def XDP_FLAGS_DRV_MODE_def
        bit.conj_disj_distrib2)
qed

lemma set_link_free:
  "other_prog fl l = None \<Longrightarrow> fl AND XDP_FLAGS_UPDATE_IF_NOEXIST = 0 \<Longrightarrow> 0 \<le> fd \<Longrightarrow>
     set_link l fd fl = (0, only_prog fl (Some fd))"
  by (cases l) (auto simp: set_link_def other_prog_def only_prog_def)

lemma attach_effect:
  assumes "kernel_link env i l0" and "fl AND XDP_FLAGS_UPDATE_IF_NOEXIST = 0" and "0 \<le> fd"
    and "xdp_link_attach env i fl fd w = (ret, w')"
  shows "ret = EXIT_OK \<and> link_after i l0 (trace w') = only_prog fl (Some fd)"
proof -
  obtain v1 w1 where c1: "call env (Bpf (Set_link_xdp_fd i fd fl)) w = (v1, w1)" by fastforce
  obtain v2 w2 where c2: "call env (Bpf (Set_link_xdp_fd i (-1) (opposite fl))) w1 = (v2, w2)" by fastforce
  obtain v3 w3 where c3: "call env (Bpf (Set_link_xdp_fd i fd fl)) w2 = (v3, w3)" by fastforce
  note s1 = call_set_link [OF assms(1) c1, symmetric] and s2 = call_set_link [OF assms(1) c2]
    and s3 = call_set_link [OF assms(1) c3, symmetric]
  let ?l = "link_after i l0 (trace w)"
  have ok: "link_ok ?l" using assms(1) link_after_ok by (simp add: kernel_link_def)
  note defs = xdp_link_attach_def c1 c2 c3 Let_def opposite_def [symmetric]
  show ?thesis
  proof (cases "other_prog fl ?l = None")
    case True
    then have "v1 = 0" "link_after i l0 (trace w1) = only_prog fl (Some fd)"
      using s1 set_link_free [OF True assms(2,3)] by auto
    then show ?thesis using assms(4) by (simp add: defs EEXIST_def)
  next
    case False
    then have f1: "v1 = - EEXIST" "link_after i l0 (trace w1) = ?l" using s1 assms(3) by (simp_all add: set_link_def)
    have f2: "v2 = 0" "other_prog fl (link_after i l0 (trace w2)) = None"
      using s2 f1(2) by (simp_all add: set_link_def opposite_mode other_prog_def)
    then have "v3 = 0" "link_after i l0 (trace w3) = only_prog fl (Some fd)"
      using s3 set_link_free [OF f2(2) assms(2,3)] by auto
    then show ?thesis using assms(2,4) f1(1) f2(1) by (simp add: defs EEXIST_def)
  qed
qed

lemma detach_effect:
  assumes "kernel_link env i l0" and "xdp_link_detach env i fl 0 w = (ret, w')"
  shows "ret = EXIT_OK \<and> link_after i l0 (trace w') = snd (set_link (link_after i l0 (trace w)) (-1) fl)"
proof -
  obtain r w1 where c1: "sys env (Bpf (Get_link_xdp_id i fl)) w = (r, w1)" by fastforce
  have r: "r = answer env (trace w) (Bpf (Get_link_xdp_id i fl))" "trace w1 = trace w @ [(Bpf (Get_link_xdp_id i fl), r)]"
    using c1 by (auto simp: sys_def Let_def)
  have l1: "link_after i l0 (trace w1) = link_after i l0 (trace w)" using r(2) by (simp add: link_after_append)
  have g: "rv r = 0" "get32 (rdata r) 0 = 0 \<longleftrightarrow> prog_in fl (link_after i l0 (trace w)) = None"
    using assms(1) by (auto simp: r(1) kernel_link_def)
  obtain v w2 where c2: "call env (Bpf (Set_link_xdp_fd i (-1) fl)) w1 = (v, w2)" by fastforce
  have s: "v = 0" "link_after i l0 (trace w2) = snd (set_link (link_after i l0 (trace w)) (-1) fl)"
    using call_set_link [OF assms(1) c2] l1 by (auto simp: set_link_def)
  show ?thesis
  proof (cases "get32 (rdata r) 0 = 0")
    case True
    then have "snd (set_link (link_after i l0 (trace w)) (-1) fl) = link_after i l0 (trace w)"
      using g(2) by (cases "link_after i l0 (trace w)") (auto simp: set_link_def prog_in_def split: if_splits)
    then show ?thesis using True assms(2) g(1) l1 by (auto simp: xdp_link_detach_def c1)
  next
    case False
    then show ?thesis using assms(2) g(1) s by (auto simp: xdp_link_detach_def c1 c2)
  qed
qed



text \<open>A kernel for the witnesses: device 2, on which a native program is attached.\<close>

definition link0 :: xdp_link where "link0 = \<lparr>skb_prog = None, drv_prog = Some 4\<rparr>"

definition link_env :: env where
  "link_env = good_env\<lparr>answer := (\<lambda>t c. case c of
       Bpf (Set_link_xdp_fd i fd fl) \<Rightarrow> good_reply (fst (set_link (link_after i link0 t) fd fl))
     | Bpf (Get_link_xdp_id i fl) \<Rightarrow>
         (good_reply 0)\<lparr>rdata := if prog_in fl (link_after i link0 t) = None then [] else [9]\<rparr>
     | _ \<Rightarrow> good_reply 0)\<rparr>"

lemma link_env_kernel: "kernel_link link_env 2 link0"
  by (auto simp: kernel_link_def link_env_def good_reply_def link_ok_def link0_def get32_def Let_def)



section \<open>Loading and attaching\<close>

lemma err_prefix: "4 < n \<Longrightarrow> take 4 (snprintf n (CHR ''E'' # CHR ''R'' # CHR ''R'' # CHR '':'' # s)) = ''ERR:''"
  by (simp add: snprintf_def)

lemma find_program_title:
  "find_program_by_title env s ps = p \<Longrightarrow> p \<noteq> 0 \<Longrightarrow> p \<in> set ps \<and> prog_title env p = s"
  by (induction ps) (auto split: if_splits)

lemma load_xdp_cases:
  "load_bpf_and_xdp_attach env cfg file ifn flags reuse w =
     (if BPF_FILE_SIZE \<le> length file \<or> IF_NAMESIZE \<le> length ifn then None
      else let (idx, w) = call env (Sock (If_nametoindex ifn)) w
           in Some (xdp_attach_configured env
             (cfg\<lparr>cfg_filename := file, cfg_progsec := ''xdp_sock'', cfg_ifname := ifn, cfg_do_unload := False,
                  cfg_reuse_maps := reuse, cfg_ifindex := idx, cfg_xdp_flags := flags\<rparr>) w))"
  by (auto simp: load_bpf_and_xdp_attach_def strcpy_def BPF_PROGSEC_SIZE_def)

lemma xdp_attach_configured_ok:
  assumes "xdp_attach_configured env cfg w = (obj, cfg', w')" and "cfg_progsec cfg = ''xdp_sock''"
    and "kernel_link env (cfg_ifindex cfg) l0" and "cfg_xdp_flags cfg AND XDP_FLAGS_UPDATE_IF_NOEXIST = 0"
  shows "(obj = 0 \<longrightarrow> take 4 (cfg_err_buf cfg') = ''ERR:'') \<and>
     (obj \<noteq> 0 \<longrightarrow> cfg' = cfg \<and> (\<exists>p \<in> set (obj_programs env obj). prog_title env p = ''xdp_sock'' \<and>
        link_after (cfg_ifindex cfg) l0 (trace w') = only_prog (cfg_xdp_flags cfg) (Some (prog_fd_of env p))))"
proof -
  let ?off = "if cfg_xdp_flags cfg AND XDP_FLAGS_HW_MODE \<noteq> 0 then cfg_ifindex cfg else 0"
  obtain ob w2 where c2: "(if cfg_reuse_maps cfg then load_xdp_object_file_reuse_maps env (cfg_filename cfg) ?off (cfg_pin_dir cfg) w
      else load_xdp_object_file env (cfg_filename cfg) ?off w) = (ob, w2)" by fastforce
  define p where "p = find_program_by_title env ''xdp_sock'' (obj_programs env ob)"
  obtain err w3 where c3: "xdp_link_attach env (cfg_ifindex cfg) (cfg_xdp_flags cfg) (prog_fd_of env p) w2 = (err, w3)" by fastforce
  note defs = xdp_attach_configured_def c2 c3 assms(2) p_def [symmetric] Let_def xdp_cfg_err_def err_prefix ERRBUF_SIZE_def
  consider "ob = 0" | "ob \<noteq> 0" "p = 0" | "ob \<noteq> 0" "p \<noteq> 0" "prog_fd_of env p \<le> 0"
    | "ob \<noteq> 0" "p \<noteq> 0" "\<not> prog_fd_of env p \<le> 0" by linarith
  then show ?thesis
  proof cases
    case 4
    have a: "err = 0" "link_after (cfg_ifindex cfg) l0 (trace w3) = only_prog (cfg_xdp_flags cfg) (Some (prog_fd_of env p))"
      using attach_effect [OF assms(3,4) _ c3] 4(3) by (simp_all add: EXIT_OK_def)
    have t: "p \<in> set (obj_programs env ob)" "prog_title env p = ''xdp_sock''"
      using find_program_title [OF p_def [symmetric] 4(2)] by auto
    have "obj = ob" "w' = w3" "cfg' = cfg" using assms(1,2) 4 a(1) t(2) by (auto simp: defs BPF_PROGSEC_SIZE_def)
    then show ?thesis using a t 4(1) by auto
  qed (use assms(1) in \<open>auto simp: defs\<close>)
qed

text \<open>
  The length check of \<open>load_bpf_and_xdp_attach\<close> never refuses anything: it joins its three
  conditions with \<open>&&\<close>, and the section name it checks is a constant that fits. So the function
  overruns a buffer of the configuration exactly when the file name has 512 characters or more or
  the interface name 16 or more, and behaves on every other input.
\<close>

lemma load_xdp_overrun:
  "load_bpf_and_xdp_attach env cfg file ifn flags reuse w = None \<longleftrightarrow>
     BPF_FILE_SIZE \<le> length file \<or> IF_NAMESIZE \<le> length ifn"
  by (simp add: load_xdp_cases case_prod_unfold Let_def)


definition xdp_cfg0 :: xdp_config where
  "xdp_cfg0 = \<lparr>cfg_filename = [], cfg_progsec = [], cfg_pin_dir = [], cfg_do_unload = False, cfg_reuse_maps = False,
     cfg_xdp_flags = 0, cfg_ifindex = 0, cfg_ifname = [], cfg_ifname_buf = [], cfg_err_buf = []\<rparr>"

text \<open>The kernel of the witnesses above, with an interface and a loadable object that has the maps \<open>ms\<close>.\<close>

definition load_env :: "int list \<Rightarrow> env" where
  "load_env ms = link_env\<lparr>obj_maps := (\<lambda>ob. ms), answer := (\<lambda>t c. case c of
       Sock (If_nametoindex s) \<Rightarrow> good_reply 2
     | Bpf (Prog_load_xattr f i) \<Rightarrow> (good_reply 0)\<lparr>rdata := [3, 0, 0, 0]\<rparr>
     | _ \<Rightarrow> answer link_env t c)\<rparr>"

lemma load_env_kernel: "kernel_link (load_env ms) 2 link0"
  using link_env_kernel by (simp add: kernel_link_def load_env_def)

lemma load_env_prog:
  "find_program_by_title (load_env ms) ''xdp_sock'' (obj_programs (load_env ms) 3) = 5" "prog_fd_of (load_env ms) 5 = 8"
  "prog_title (load_env ms) 5 = ''xdp_sock''" "obj_programs (load_env ms) 3 = [5]"
  by (simp_all add: load_env_def link_env_def good_env_def)

lemma load_env_object:
  assumes "length file < 512"
  obtains cfg' w' where "load_bpf_and_xdp_attach (load_env ms) cfg file ''eth0'' XDP_FLAGS_SKB_MODE False init_world =
    Some (3, cfg', w')" "cfg_ifindex cfg' = 2"
proof -
  obtain w1 where c1: "call (load_env ms) (Sock (If_nametoindex ''eth0'')) init_world = (2, w1)"
    by (simp add: call_def sys_def load_env_def good_reply_def Let_def)
  obtain w2 where c2: "load_xdp_object_file (load_env ms) file 0 w1 = (3, w2)"
    by (simp add: load_xdp_object_file_def sys_def load_env_def good_reply_def Let_def obj_of_def get32_def)
  obtain err w3 where c3: "xdp_link_attach (load_env ms) 2 XDP_FLAGS_SKB_MODE 8 w2 = (err, w3)" by fastforce
  have e: "err = 0" using attach_effect [OF load_env_kernel _ _ c3]
    by (simp add: XDP_FLAGS_SKB_MODE_def XDP_FLAGS_UPDATE_IF_NOEXIST_def EXIT_OK_def)
  show ?thesis
    using c2 c3 e load_env_prog that assms
    by (simp add: load_xdp_cases c1 xdp_attach_configured_def BPF_FILE_SIZE_def IF_NAMESIZE_def Let_def
        XDP_FLAGS_SKB_MODE_def XDP_FLAGS_HW_MODE_def)
qed


end
