(* ===== verification/Launcher.thy ===== *)
theory Launcher
  imports Xdp_Helpers
begin

text \<open>
  Deployment of the transport functions: the \<open>tc\<close> commands of
  \<^verbatim>\<open>src/common/tc_user_helpers.c\<close> and the launcher of \<^verbatim>\<open>src/launcher/launcher.c\<close>,
  which puts programs on the traffic-control and XDP hooks and takes them off again. A shell
  command is an external call that answers with the status of \<open>system\<close>.
\<close>

section \<open>Commands\<close>

definition CMD_MAX :: nat where "CMD_MAX = 2048"
definition tc_cmd :: string where "tc_cmd = ''tc''"

record tc_config =
  tc_filename :: string
  tc_dev :: string
  tc_err_buf :: string

text \<open>The status word of \<open>system\<close>: the low seven bits are a signal, the next byte the exit code.\<close>

definition WIFEXITED :: "int \<Rightarrow> bool" where "WIFEXITED st \<longleftrightarrow> st mod 128 = 0"
definition WEXITSTATUS :: "int \<Rightarrow> int" where "WEXITSTATUS st = st div 256 mod 256"

fun dec_nat :: "nat \<Rightarrow> string" where
  "dec_nat n = (if n < 10 then [char_of (48 + n)] else dec_nat (n div 10) @ [char_of (48 + n mod 10)])"

declare dec_nat.simps [simp del]

definition dec :: "int \<Rightarrow> string" where
  "dec i = (if i < 0 then ''-'' @ dec_nat (nat (- i)) else dec_nat (nat i))"

definition tc_cfg_err :: "string \<Rightarrow> tc_config \<Rightarrow> tc_config" where
  "tc_cfg_err s cfg = cfg\<lparr>tc_err_buf := snprintf ERRBUF_SIZE s\<rparr>"

definition tc_err :: "int \<Rightarrow> string \<Rightarrow> string \<Rightarrow> string" where
  "tc_err code what cmd = ''ERR('' @ dec code @ ''): '' @ what @ ''\<newline> Cmdline:'' @ cmd @ ''\<newline>''"

text \<open>The four command lines, as formatted.\<close>

definition tc_del_cmd :: "string \<Rightarrow> string" where
  "tc_del_cmd dev = tc_cmd @ '' qdisc del dev '' @ dev @ '' clsact 2> /dev/null''"

definition tc_add_cmd :: "string \<Rightarrow> string" where
  "tc_add_cmd dev = tc_cmd @ '' qdisc add dev '' @ dev @ '' clsact''"

definition tc_filter_cmd :: "string \<Rightarrow> string \<Rightarrow> string" where
  "tc_filter_cmd dev file = tc_cmd @ '' filter add dev '' @ dev @ '' '' @
     ''egress prio 1 handle 1 bpf da obj '' @ file @ '' sec tf_tc_egress''"

definition tc_remove_cmd :: "string \<Rightarrow> string" where
  "tc_remove_cmd dev = tc_cmd @ '' filter delete dev '' @ dev @ '' egress''"

definition tc_egress_attach_bpf :: "env \<Rightarrow> tc_config \<Rightarrow> 'a world_scheme \<Rightarrow> int \<times> tc_config \<times> 'a world_scheme" where
  "tc_egress_attach_bpf env cfg w =
     (let cmd = snprintf CMD_MAX (tc_del_cmd (tc_dev cfg));
          (ret, w) = call env (Sock (System cmd)) w
      in if \<not> WIFEXITED ret then (-1, tc_cfg_err (tc_err (WEXITSTATUS ret) ''Cannot exec tc cmd'' cmd) cfg, w)
         else let cmd = snprintf CMD_MAX (tc_add_cmd (tc_dev cfg));
                  (ret, w) = call env (Sock (System cmd)) w
         in if ret \<noteq> 0 then (-1, tc_cfg_err (tc_err (WEXITSTATUS ret) ''tc cannot attach qdisc hook'' cmd) cfg, w)
         else let cmd = snprintf CMD_MAX (tc_filter_cmd (tc_dev cfg) (tc_filename cfg));
                  (ret, w) = call env (Sock (System cmd)) w
         in if ret \<noteq> 0 then (-1, tc_cfg_err (tc_err (WEXITSTATUS ret) ''tc cannot attach filter'' cmd) cfg, w)
            else (ret, cfg, w))"

definition tc_remove_egress :: "env \<Rightarrow> tc_config \<Rightarrow> 'a world_scheme \<Rightarrow> int \<times> tc_config \<times> 'a world_scheme" where
  "tc_remove_egress env cfg w =
     (let cmd = snprintf CMD_MAX (tc_remove_cmd (tc_dev cfg));
          (ret, w) = call env (Sock (System cmd)) w
      in if ret \<noteq> 0 then (-1, tc_cfg_err (tc_err ret ''tc cannot remove filters'' cmd) cfg, w)
         else (ret, cfg, w))"

section \<open>The launcher\<close>

definition TC_INGRESS_ATTACH :: int where "TC_INGRESS_ATTACH = 0"
definition TC_EGRESS_ATTACH :: int where "TC_EGRESS_ATTACH = 1"
definition TC_DEV_SIZE :: nat where "TC_DEV_SIZE = 20"

definition launcher__deploy_tc ::
    "env \<Rightarrow> tc_config \<Rightarrow> string \<Rightarrow> string \<Rightarrow> int \<Rightarrow> 'a world_scheme \<Rightarrow> (int \<times> tc_config \<times> 'a world_scheme) option" where
  "launcher__deploy_tc env cfg bpf_file interface flags w =
     (let (ifindex, w) = call env (Sock (If_nametoindex interface)) w
      in if ifindex = 0
         then Some (-1, tc_cfg_err (''ERR: --egress \"'' @ interface @ ''\" not real dev\<newline>'') cfg, w)
         else do {
           f \<leftarrow> strcpy BPF_FILE_SIZE bpf_file;
           d \<leftarrow> strcpy TC_DEV_SIZE interface;
           let cfg = cfg\<lparr>tc_filename := f, tc_dev := d\<rparr>;
           if flags = TC_INGRESS_ATTACH then Some (0, cfg, w)
           else if flags = TC_EGRESS_ATTACH
           then let (ret, cfg, w) = tc_egress_attach_bpf env cfg w
                in if ret \<noteq> 0 then Some (-1, tc_cfg_err ''ERR: TC attach failed\<newline>'' cfg, w)
                   else Some (0, cfg, w)
           else Some (-1, tc_cfg_err ''ERR: launcher_deploy_tc_tf() failed, flags unknown!\<newline>'' cfg, w)
         })"

definition launcher__remove_tc ::
    "env \<Rightarrow> tc_config \<Rightarrow> string \<Rightarrow> int \<Rightarrow> 'a world_scheme \<Rightarrow> (int \<times> tc_config \<times> 'a world_scheme) option" where
  "launcher__remove_tc env cfg interface flags w =
     (let (ifindex, w) = call env (Sock (If_nametoindex interface)) w
      in if ifindex = 0
         then Some (-1, tc_cfg_err (''ERR: --egress \"'' @ interface @ ''\" not real dev\<newline>'') cfg, w)
         else do {
           d \<leftarrow> strcpy TC_DEV_SIZE interface;
           let cfg = cfg\<lparr>tc_dev := d\<rparr>;
           if flags = TC_INGRESS_ATTACH then Some (0, cfg, w)
           else if flags = TC_EGRESS_ATTACH
           then let (_, cfg, w) = tc_remove_egress env cfg w in Some (0, cfg, w)
           else Some (-1, tc_cfg_err ''ERR: launcher_remove_tc_tf() failed, flags unknown!\<newline>'' cfg, w)
         })"

text \<open>\<open>bpf_map__fd\<close> of a null map is \<open>-EINVAL\<close>.\<close>

fun find_map_by_name :: "env \<Rightarrow> string \<Rightarrow> int list \<Rightarrow> int" where
  "find_map_by_name env name [] = 0"
| "find_map_by_name env name (m # ms) = (if map_name env m = name then m else find_map_by_name env name ms)"

definition bpf_map__fd :: "env \<Rightarrow> int \<Rightarrow> int" where
  "bpf_map__fd env m = (if m = 0 then - EINVAL else map_fd_of env m)"

definition launcher__deploy_xdp_xsk ::
    "env \<Rightarrow> xdp_config \<Rightarrow> string \<Rightarrow> string \<Rightarrow> u32 \<Rightarrow> 'a world_scheme \<Rightarrow> (int \<times> xdp_config \<times> 'a world_scheme) option" where
  "launcher__deploy_xdp_xsk env cfg bpf_file ifn flags w =
     (if bpf_file = [] then Some (-1, xdp_cfg_err ''ERR: bad tf_file\<newline>'' cfg, w)
      else do {
        (bpf_obj, cfg, w) \<leftarrow> load_bpf_and_xdp_attach env cfg bpf_file ifn flags False w;
        if bpf_obj = 0 then Some (-1, cfg, w)
        else let xsks_map_fd = bpf_map__fd env (find_map_by_name env ''xsks_map'' (obj_maps env bpf_obj))
             in if xsks_map_fd < 0
                then Some (-1, xdp_cfg_err (''ERR: no xsks map found: '' @ strerror env xsks_map_fd @ ''\<newline>'') cfg, w)
                else Some (0, cfg, w)
      })"

definition launcher__remove_xdp :: "env \<Rightarrow> string \<Rightarrow> u32 \<Rightarrow> 'a world_scheme \<Rightarrow> int \<times> 'a world_scheme" where
  "launcher__remove_xdp env ifn flags w =
     (let (ifindex, w) = call env (Sock (If_nametoindex ifn)) w;
          (ret, w) = xdp_link_detach env ifindex flags 0 w
      in if ret \<noteq> 0 then (-1, w) else (0, w))"

section \<open>The commands that are run\<close>

definition tc_commands :: "tc_config \<Rightarrow> string list" where
  "tc_commands cfg = [tc_del_cmd (tc_dev cfg), tc_add_cmd (tc_dev cfg), tc_filter_cmd (tc_dev cfg) (tc_filename cfg)]"

lemma snprintf_fits: "length s < n \<Longrightarrow> snprintf n s = s"
  by (simp add: snprintf_def)

lemma tc_commands_fit:
  assumes "length (tc_filename cfg) < BPF_FILE_SIZE" and "length (tc_dev cfg) < TC_DEV_SIZE"
  shows "snprintf CMD_MAX (tc_del_cmd (tc_dev cfg)) = tc_del_cmd (tc_dev cfg)"
    "snprintf CMD_MAX (tc_add_cmd (tc_dev cfg)) = tc_add_cmd (tc_dev cfg)"
    "snprintf CMD_MAX (tc_filter_cmd (tc_dev cfg) (tc_filename cfg)) = tc_filter_cmd (tc_dev cfg) (tc_filename cfg)"
    "snprintf CMD_MAX (tc_remove_cmd (tc_dev cfg)) = tc_remove_cmd (tc_dev cfg)"
  using assms
  by (intro snprintf_fits; simp add: tc_del_cmd_def tc_add_cmd_def tc_filter_cmd_def tc_remove_cmd_def tc_cmd_def
      CMD_MAX_def BPF_FILE_SIZE_def TC_DEV_SIZE_def)+

lemma tc_err_prefix: "take 4 (snprintf ERRBUF_SIZE (tc_err code what cmd)) = ''ERR(''"
  by (simp add: snprintf_def tc_err_def ERRBUF_SIZE_def)

lemma tc_attach_effect:
  assumes "length (tc_filename cfg) < BPF_FILE_SIZE" and "length (tc_dev cfg) < TC_DEV_SIZE"
    and "tc_egress_attach_bpf env cfg w = (ret, cfg', w')"
  obtains k where "grows w w'" "map fst (since w w') = map (\<lambda>c. Sock (System c)) (take k (tc_commands cfg))" "0 < k" "k \<le> 3"
     "ret = 0 \<longleftrightarrow> k = 3 \<and> rv (snd (last (since w w'))) = 0"
     "if ret = 0 then cfg' = cfg else ret = -1 \<and> take 4 (tc_err_buf cfg') = ''ERR(''"
proof -
  note s = tc_commands_fit [OF assms(1,2)]
  let ?c1 = "tc_del_cmd (tc_dev cfg)" and ?c2 = "tc_add_cmd (tc_dev cfg)"
    and ?c3 = "tc_filter_cmd (tc_dev cfg) (tc_filename cfg)"
  obtain v1 w1 where c1: "call env (Sock (System ?c1)) w = (v1, w1)" by fastforce
  obtain r1 where t1: "rv r1 = v1" "trace w1 = trace w @ [(Sock (System ?c1), r1)]" using call_effect [OF c1] by auto
  obtain v2 w2 where c2: "call env (Sock (System ?c2)) w1 = (v2, w2)" by fastforce
  obtain r2 where t2: "rv r2 = v2" "trace w2 = trace w1 @ [(Sock (System ?c2), r2)]" using call_effect [OF c2] by auto
  obtain v3 w3 where c3: "call env (Sock (System ?c3)) w2 = (v3, w3)" by fastforce
  obtain r3 where t3: "rv r3 = v3" "trace w3 = trace w2 @ [(Sock (System ?c3), r3)]" using call_effect [OF c3] by auto
  note defs = tc_egress_attach_bpf_def s c1 c2 c3 Let_def tc_cfg_err_def
  note goals = since_def grows_def tc_commands_def tc_err_prefix
  consider "\<not> WIFEXITED v1" | "WIFEXITED v1" "v2 \<noteq> 0" | "WIFEXITED v1" "v2 = 0" "v3 \<noteq> 0" | "WIFEXITED v1" "v2 = 0" "v3 = 0"
    by blast
  then show ?thesis
  proof cases
    case 1
    then have "ret = -1" "w' = w1" "tc_err_buf cfg' = snprintf ERRBUF_SIZE (tc_err (WEXITSTATUS v1) ''Cannot exec tc cmd'' ?c1)"
      using assms(3) by (auto simp: defs)
    then show ?thesis using t1 by (intro that [of 1]) (simp_all add: goals)
  next
    case 2
    then have "ret = -1" "w' = w2" "tc_err_buf cfg' = snprintf ERRBUF_SIZE (tc_err (WEXITSTATUS v2) ''tc cannot attach qdisc hook'' ?c2)"
      using assms(3) by (auto simp: defs)
    then show ?thesis using t1 t2 by (intro that [of "Suc (Suc 0)"]) (simp_all add: goals)
  next
    case 3
    then have "ret = -1" "w' = w3" "tc_err_buf cfg' = snprintf ERRBUF_SIZE (tc_err (WEXITSTATUS v3) ''tc cannot attach filter'' ?c3)"
      using assms(3) by (auto simp: defs)
    then show ?thesis using t1 t2 t3 3 by (intro that [of 3]) (simp_all add: goals)
  next
    case 4
    then have "ret = 0" "w' = w3" "cfg' = cfg" using assms(3) by (auto simp: defs)
    then show ?thesis using t1 t2 t3 4 by (intro that [of 3]) (simp_all add: goals)
  qed
qed

text \<open>
  Attaching to the egress hook runs the three \<open>tc\<close> commands in order (delete the qdisc, add
  it, add the filter), none of them cut off by the command buffer, and stops at the first one
  that fails. It returns 0 exactly when the last one was reached and succeeded; otherwise it
  returns -1 and leaves a message. Whether there was a qdisc to delete does not matter.
\<close>

lemma tc_attach_commands:
  assumes "length (tc_filename cfg) < BPF_FILE_SIZE" and "length (tc_dev cfg) < TC_DEV_SIZE"
    and "tc_egress_attach_bpf env cfg w = (ret, cfg', w')"
  shows "\<exists>k. 0 < k \<and> k \<le> 3 \<and> grows w w' \<and> map fst (since w w') = map (\<lambda>c. Sock (System c)) (take k (tc_commands cfg)) \<and>
     (ret = 0 \<longleftrightarrow> k = 3 \<and> rv (snd (last (since w w'))) = 0) \<and>
     (if ret = 0 then cfg' = cfg else ret = -1 \<and> take 4 (tc_err_buf cfg') = ''ERR('')"
  by (rule tc_attach_effect [OF assms]) blast

text \<open>
  Taking the egress filter off reports success even when it fails: for every status of the
  \<open>tc\<close> command the result is 0. Only an unknown interface or an unknown flag is reported.
\<close>

lemma remove_tc_ignores_failure:
  assumes "rv (answer env (trace w) (Sock (If_nametoindex interface))) \<noteq> 0" and "length interface < TC_DEV_SIZE"
  shows "\<exists>cfg' w' r. launcher__remove_tc env cfg interface TC_EGRESS_ATTACH w = Some (0, cfg', w') \<and>
     map fst (since w w') = [Sock (If_nametoindex interface), Sock (System (tc_remove_cmd interface))] \<and>
     r = rv (snd (last (since w w'))) \<and> (r \<noteq> 0 \<longrightarrow> take 4 (tc_err_buf cfg') = ''ERR('')"
proof -
  obtain v1 w1 where c1: "call env (Sock (If_nametoindex interface)) w = (v1, w1)" by fastforce
  obtain r1 where t1: "v1 \<noteq> 0" "trace w1 = trace w @ [(Sock (If_nametoindex interface), r1)]"
    using call_effect [OF c1] c1 assms(1) by (auto simp: call_def sys_def Let_def)
  have s: "snprintf CMD_MAX (tc_remove_cmd interface) = tc_remove_cmd interface"
    using assms(2) by (intro snprintf_fits) (simp add: tc_remove_cmd_def tc_cmd_def CMD_MAX_def TC_DEV_SIZE_def)
  obtain v2 w2 where c2: "call env (Sock (System (tc_remove_cmd interface))) w1 = (v2, w2)" by fastforce
  obtain r2 where t2: "rv r2 = v2" "trace w2 = trace w1 @ [(Sock (System (tc_remove_cmd interface)), r2)]"
    using call_effect [OF c2] by auto
  let ?cfg = "if v2 = 0 then cfg\<lparr>tc_dev := interface\<rparr>
    else tc_cfg_err (tc_err v2 ''tc cannot remove filters'' (tc_remove_cmd interface)) (cfg\<lparr>tc_dev := interface\<rparr>)"
  have "launcher__remove_tc env cfg interface TC_EGRESS_ATTACH w = Some (0, ?cfg, w2)"
    using t1(1) assms(2)
    by (simp add: launcher__remove_tc_def c1 tc_remove_egress_def s c2 strcpy_def TC_EGRESS_ATTACH_def TC_INGRESS_ATTACH_def)
  then show ?thesis using t1 t2 by (intro exI [of _ ?cfg] exI [of _ w2]) (simp add: since_def tc_cfg_err_def tc_err_prefix)
qed

section \<open>XDP deployment\<close>

text \<open>Interface names resolve to the same device throughout.\<close>

definition resolves :: "env \<Rightarrow> string \<Rightarrow> int \<Rightarrow> bool" where
  "resolves env ifn i \<longleftrightarrow> (\<forall>t. rv (answer env t (Sock (If_nametoindex ifn))) = i)"

lemma call_resolves: "resolves env ifn i \<Longrightarrow> call env (Sock (If_nametoindex ifn)) w = (v, w') \<Longrightarrow> v = i"
  by (auto simp: resolves_def call_def sys_def Let_def)

lemma deploy_xdp_effect:
  assumes "launcher__deploy_xdp_xsk env cfg file ifn fl w = Some (ret, cfg', w')"
    and "resolves env ifn i" and "kernel_link env i l0" and "fl AND XDP_FLAGS_UPDATE_IF_NOEXIST = 0"
  shows "(ret = 0 \<or> ret = -1 \<and> take 4 (cfg_err_buf cfg') = ''ERR:'') \<and>
     (ret = 0 \<longrightarrow> (\<exists>fd. link_after i l0 (trace w') = only_prog fl (Some fd)))"
proof (cases "file = []")
  case True
  then show ?thesis using assms(1) by (auto simp: launcher__deploy_xdp_xsk_def xdp_cfg_err_def err_prefix ERRBUF_SIZE_def)
next
  case False
  obtain idx w1 where c1: "call env (Sock (If_nametoindex ifn)) w = (idx, w1)" by fastforce
  have idx: "idx = i" using call_resolves [OF assms(2) c1] .
  let ?c = "cfg\<lparr>cfg_filename := file, cfg_progsec := ''xdp_sock'', cfg_ifname := ifn, cfg_do_unload := False,
                  cfg_reuse_maps := False, cfg_ifindex := idx, cfg_xdp_flags := fl\<rparr>"
  obtain obj cfg1 w2 where c: "xdp_attach_configured env ?c w1 = (obj, cfg1, w2)"
    by (cases "xdp_attach_configured env ?c w1") auto
  have ld: "load_bpf_and_xdp_attach env cfg file ifn fl False w = Some (obj, cfg1, w2)"
    using assms(1) False c by (auto simp: launcher__deploy_xdp_xsk_def load_xdp_cases c1 split: if_splits)
  have ok: "(obj = 0 \<longrightarrow> take 4 (cfg_err_buf cfg1) = ''ERR:'') \<and> (obj \<noteq> 0 \<longrightarrow> (\<exists>fd. link_after i l0 (trace w2) = only_prog fl (Some fd)))"
    using xdp_attach_configured_ok [OF c, of l0] assms(3,4) idx by auto
  show ?thesis using assms(1) False ld ok
    by (auto simp: launcher__deploy_xdp_xsk_def Let_def xdp_cfg_err_def err_prefix ERRBUF_SIZE_def split: if_splits)
qed

lemma deploy_remove_effect:
  assumes "launcher__deploy_xdp_xsk env cfg file ifn fl w = Some (ret, cfg', w')"
    and "resolves env ifn i" and "kernel_link env i l0" and "fl AND XDP_FLAGS_UPDATE_IF_NOEXIST = 0"
    and "launcher__remove_xdp env ifn fl w' = (ret2, w2)"
  shows "(ret = 0 \<or> ret = -1 \<and> take 4 (cfg_err_buf cfg') = ''ERR:'') \<and> ret2 = 0 \<and>
     (ret = 0 \<longrightarrow> (\<exists>fd. link_after i l0 (trace w') = only_prog fl (Some fd)) \<and>
        link_after i l0 (trace w2) = \<lparr>skb_prog = None, drv_prog = None\<rparr>)"
proof -
  note d = deploy_xdp_effect [OF assms(1-4)]
  obtain v w3 where c: "call env (Sock (If_nametoindex ifn)) w' = (v, w3)" by fastforce
  have v: "v = i" using call_resolves [OF assms(2) c] .
  have t: "link_after i l0 (trace w3) = link_after i l0 (trace w')"
    using call_effect [OF c] by (auto simp: link_after_append)
  obtain r w4 where x: "xdp_link_detach env i fl 0 w3 = (r, w4)" by fastforce
  have "ret2 = 0" "w2 = w4" using assms(5) detach_effect [OF assms(3) x] v
    by (auto simp: launcher__remove_xdp_def c x EXIT_OK_def)
  moreover have "link_after i l0 (trace w4) = snd (set_link (link_after i l0 (trace w')) (-1) fl)"
    using detach_effect [OF assms(3) x] t by simp
  ultimately show ?thesis using d by (auto simp: set_link_def only_prog_def)
qed


lemma load_env_resolves: "resolves (load_env m) ''eth0'' 2"
  by (simp add: resolves_def load_env_def good_reply_def)


text \<open>
  A deployment can fail and still change the device: when the object has a program but no map
  named \<open>xsks_map\<close>, the function returns -1 with the program left on the interface.
\<close>

lemma deploy_xdp_no_rollback:
  assumes "load_bpf_and_xdp_attach env cfg file ifn fl False w = Some (obj, cfg1, w1)" and "obj \<noteq> 0" and "file \<noteq> []"
    and "resolves env ifn i" and "kernel_link env i l0" and "fl AND XDP_FLAGS_UPDATE_IF_NOEXIST = 0"
    and "\<forall>m \<in> set (obj_maps env obj). map_name env m \<noteq> ''xsks_map''"
  shows "\<exists>cfg' fd. launcher__deploy_xdp_xsk env cfg file ifn fl w = Some (-1, cfg', w1) \<and>
     link_after i l0 (trace w1) = only_prog fl (Some fd)"
proof -
  have no: "find_map_by_name env ''xsks_map'' ms = 0" if "\<forall>m \<in> set ms. map_name env m \<noteq> ''xsks_map''" for ms
    using that by (induction ms) auto
  obtain idx w0 where c1: "call env (Sock (If_nametoindex ifn)) w = (idx, w0)" by fastforce
  have idx: "idx = i" using call_resolves [OF assms(4) c1] .
  let ?c = "cfg\<lparr>cfg_filename := file, cfg_progsec := ''xdp_sock'', cfg_ifname := ifn, cfg_do_unload := False,
                  cfg_reuse_maps := False, cfg_ifindex := idx, cfg_xdp_flags := fl\<rparr>"
  have c: "xdp_attach_configured env ?c w0 = (obj, cfg1, w1)"
    using assms(1) by (simp add: load_xdp_cases c1 split: if_splits)
  have "\<exists>fd. link_after i l0 (trace w1) = only_prog fl (Some fd)"
    using xdp_attach_configured_ok [OF c, of l0] assms(2,5,6) idx by auto
  moreover have "bpf_map__fd env (find_map_by_name env ''xsks_map'' (obj_maps env obj)) < 0"
    using no [OF assms(7)] by (simp add: bpf_map__fd_def EINVAL_def)
  ultimately show ?thesis using assms(1-3) by (auto simp: launcher__deploy_xdp_xsk_def Let_def)
qed

end
