(* ===== verification/Vtl_Api.thy ===== *)
theory Vtl_Api
  imports Adaptor_Receive Adaptor_Send
begin

text \<open>
  The programming interface, \<^verbatim>\<open>src/api/api.c\<close>: sockets, contexts, endpoints, channels,
  sending and receiving. The structures live on the heap: a pointer is an address, the block at
  the address says whether the object is alive, and a store per structure holds its members. A
  null pointer is 0; using it, or an object that was freed, is undefined (\<^term>\<open>None\<close>).
\<close>

section \<open>Structures\<close>

definition VTL_USE_MODE_IN :: int where "VTL_USE_MODE_IN = 0"
definition VTL_USE_MODE_OUT :: int where "VTL_USE_MODE_OUT = 1"
definition VTL_USE_MODE_INOUT :: int where "VTL_USE_MODE_INOUT = 2"
definition VTL_DATA_SIZE :: nat where "VTL_DATA_SIZE = 1024"
definition VTL_LOCAL_AUTOFILL :: int where "VTL_LOCAL_AUTOFILL = 1"
definition API_IF_NAMESIZE :: nat where "API_IF_NAMESIZE = 16"
definition HOSTNAME_SIZE :: nat where "HOSTNAME_SIZE = 40"

record vtl_socket =
  xsk_socket :: "xsk_socket_info option"
  vs_umem :: int               \<comment> \<open>the member \<open>umem.umem\<close> of the embedded umem\<close>
  xsk_poll_mode :: bool
  af_inet_sock :: int
  vs_mode :: int

record vtl_ctx =
  ctx_sock :: nat
  ctx_mode :: int
  ctx_ifname :: string

record vtl_endpoint =
  hostname :: string
  in_addr :: string
  in6_addr :: string

record vtl_rcvbuf =
  rcv_data :: nat
  rcv_datalen :: u64

record vtl_sndbuf =
  sb_vtlh :: vtlhdr
  sb_iphdr :: ip
  sb_ip_flags :: nat
  snd_data :: nat
  snd_datalen :: u64
  snd_packet :: nat

record vtl_channel =
  ch_state :: int
  ch_remote :: nat
  ch_local :: nat
  rcvbuf :: nat
  sndbuf :: nat

record api_world = world +
  sockets :: "nat \<rightharpoonup> vtl_socket"
  ctxs :: "nat \<rightharpoonup> vtl_ctx"
  endpoints :: "nat \<rightharpoonup> vtl_endpoint"
  rcvbufs :: "nat \<rightharpoonup> vtl_rcvbuf"
  sndbufs :: "nat \<rightharpoonup> vtl_sndbuf"
  channels :: "nat \<rightharpoonup> vtl_channel"

text \<open>Reading an object: it has to be alive.\<close>

definition live :: "api_world \<Rightarrow> nat \<Rightarrow> bool" where
  "live w p \<longleftrightarrow> heap w p \<noteq> None"

definition get :: "(nat \<rightharpoonup> 'o) \<Rightarrow> api_world \<Rightarrow> nat \<Rightarrow> 'o option" where
  "get st w p = (if p \<noteq> 0 \<and> live w p then st p else None)"

definition zero_socket :: vtl_socket where
  "zero_socket = \<lparr>xsk_socket = None, vs_umem = 0, xsk_poll_mode = False, af_inet_sock = 0, vs_mode = 0\<rparr>"

definition zero_ctx :: vtl_ctx where
  "zero_ctx = \<lparr>ctx_sock = 0, ctx_mode = 0, ctx_ifname = []\<rparr>"

definition zero_rcvbuf :: vtl_rcvbuf where
  "zero_rcvbuf = \<lparr>rcv_data = 0, rcv_datalen = 0\<rparr>"

definition zero_sndbuf :: vtl_sndbuf where
  "zero_sndbuf = \<lparr>sb_vtlh = \<lparr>vtl_checksum = 0\<rparr>, sb_iphdr = ip_zero, sb_ip_flags = 0, snd_data = 0, snd_datalen = 0,
     snd_packet = 0\<rparr>"

definition zero_channel :: vtl_channel where
  "zero_channel = \<lparr>ch_state = 0, ch_remote = 0, ch_local = 0, rcvbuf = 0, sndbuf = 0\<rparr>"

section \<open>Sockets and contexts\<close>

definition XDP_COPY :: u16 where "XDP_COPY = 2"
definition XDP_ZEROCOPY :: u16 where "XDP_ZEROCOPY = 4"
definition API_XDP_FLAGS_MODES :: u32 where "API_XDP_FLAGS_MODES = 14"
definition API_XDP_FLAGS_SKB_MODE :: u32 where "API_XDP_FLAGS_SKB_MODE = 2"

definition vtl_sock_in :: "env \<Rightarrow> string \<Rightarrow> api_world \<Rightarrow> (xsk_socket_info option \<times> api_world) option" where
  "vtl_sock_in env ifn w =
     (let xdp_flags = 0; xsk_bind_flags = 0; xsk_if_queue = 0;
          xdp_flags = xdp_flags AND NOT API_XDP_FLAGS_MODES;
          xdp_flags = xdp_flags OR API_XDP_FLAGS_SKB_MODE;
          xsk_bind_flags = xsk_bind_flags AND XDP_ZEROCOPY;
          xsk_bind_flags = xsk_bind_flags OR XDP_COPY
      in adaptor__create_xsk_sock env ifn xdp_flags xsk_bind_flags xsk_if_queue w)"

definition vtl_sock_out :: "env \<Rightarrow> api_world \<Rightarrow> int \<times> api_world" where
  "vtl_sock_out env w = adaptor__create_raw_sock env AF_INET IPPROTO_RAW w"

text \<open>
  The first allocation is overwritten by the second one. \<open>case INOUT\<close> and \<open>case IN\<close> share their
  code, and \<open>INOUT\<close> falls through to \<open>OUT\<close>.
\<close>

definition create_out :: "env \<Rightarrow> nat \<Rightarrow> api_world \<Rightarrow> nat \<times> api_world" where
  "create_out env sk w =
     (let (fd, w) = vtl_sock_out env w;
          w = w\<lparr>sockets := (sockets w)(sk := map_option (\<lambda>s. s\<lparr>af_inet_sock := fd\<rparr>) (sockets w sk))\<rparr>
      in if fd < 0 then (0, w) else (sk, w))"

definition vtl_create_socket :: "env \<Rightarrow> int \<Rightarrow> string \<Rightarrow> api_world \<Rightarrow> (nat \<times> api_world) option" where
  "vtl_create_socket env mode ifn w =
     (let (_, w) = c_malloc env 136 w;
          (sk, w) = c_calloc env 136 w
      in if sk = 0 then Some (0, set_err ''ERR: memory allocation for vtl socket failed\<newline>'' w)
         else let w = w\<lparr>sockets := (sockets w)(sk \<mapsto> zero_socket)\<rparr>
         in if mode = VTL_USE_MODE_INOUT \<or> mode = VTL_USE_MODE_IN
            then do {
              (x, w) \<leftarrow> vtl_sock_in env ifn w;
              let w = w\<lparr>sockets := (sockets w)(sk := map_option (\<lambda>s. s\<lparr>xsk_socket := x\<rparr>) (sockets w sk))\<rparr>;
              if x = None then Some (0, w)
              else if mode \<noteq> VTL_USE_MODE_INOUT then Some (sk, w)
              else Some (create_out env sk w)
            }
            else if mode = VTL_USE_MODE_OUT then Some (create_out env sk w)
            else Some (0, set_err ''ERR: unknown mode\<newline>'' w))"

definition vtl_close_socket :: "env \<Rightarrow> nat \<Rightarrow> api_world \<Rightarrow> api_world option" where
  "vtl_close_socket env sk w = do {
     s \<leftarrow> get (sockets w) w sk;
     let w = (case xsk_socket s of
                None \<Rightarrow> w
              | Some x \<Rightarrow>
                  (let (_, w) = call env (Bpf (Xsk_socket_delete (xsk x))) w;
                       (_, w) = call env (Bpf (Xsk_umem_delete (vs_umem s))) w
                   in w));
     c_free sk w
   }"

definition vtl_init_ctx :: "env \<Rightarrow> int \<Rightarrow> string \<Rightarrow> api_world \<Rightarrow> (nat \<times> api_world) option" where
  "vtl_init_ctx env mode ifn w =
     (let (c, w) = c_calloc env 32 w
      in if c = 0 then None
         else do {
           name \<leftarrow> strcpy API_IF_NAMESIZE ifn;
           let w = w\<lparr>ctxs := (ctxs w)(c \<mapsto> zero_ctx\<lparr>ctx_ifname := name\<rparr>)\<rparr>;
           (sk, w) \<leftarrow> vtl_create_socket env mode ifn w;
           let w = w\<lparr>ctxs := (ctxs w)(c := map_option (\<lambda>x. x\<lparr>ctx_sock := sk\<rparr>) (ctxs w c))\<rparr>;
           if sk = 0 then Some (0, w) else Some (c, w)
         })"

definition vtl_destroy_ctx :: "env \<Rightarrow> nat \<Rightarrow> api_world \<Rightarrow> api_world option" where
  "vtl_destroy_ctx env c w = do {
     x \<leftarrow> get (ctxs w) w c;
     w \<leftarrow> vtl_close_socket env (ctx_sock x) w;
     c_free c w
   }"

section \<open>Endpoints\<close>

definition vtl_add_ip4 :: "nat \<Rightarrow> string \<Rightarrow> api_world \<Rightarrow> api_world option" where
  "vtl_add_ip4 ep addr w = do {
     e \<leftarrow> get (endpoints w) w ep;
     a \<leftarrow> strcpy INET_ADDRSTRLEN addr;
     Some (w\<lparr>endpoints := (endpoints w)(ep \<mapsto> e\<lparr>in_addr := a\<rparr>)\<rparr>)
   }"

definition vtl_add_hostname :: "nat \<Rightarrow> string \<Rightarrow> api_world \<Rightarrow> api_world option" where
  "vtl_add_hostname ep name w = do {
     e \<leftarrow> get (endpoints w) w ep;
     n \<leftarrow> strcpy HOSTNAME_SIZE name;
     Some (w\<lparr>endpoints := (endpoints w)(ep \<mapsto> e\<lparr>hostname := n\<rparr>)\<rparr>)
   }"

section \<open>Channels\<close>

definition vtl_alloc_out :: "env \<Rightarrow> nat \<Rightarrow> api_world \<Rightarrow> (int \<times> api_world) option" where
  "vtl_alloc_out env ch w = do {
     c \<leftarrow> get (channels w) w ch;
     b \<leftarrow> get (sndbufs w) w (sndbuf c);
     let (p, w) = allocate_intmem env 4 w;
     let w = w\<lparr>sndbufs := (sndbufs w)(sndbuf c \<mapsto> b\<lparr>sb_ip_flags := p\<rparr>)\<rparr>;
     if p = 0 then Some (-1, w) else do {
       let (d, w) = allocate_ustrmem env (int VTL_DATA_SIZE) w;
       let w = w\<lparr>sndbufs := (sndbufs w)(sndbuf c \<mapsto> b\<lparr>sb_ip_flags := p, snd_data := d\<rparr>)\<rparr>;
       if d = 0 then Some (-1, w) else do {
         let (k, w) = allocate_ustrmem env (int IP_MAXPACKET) w;
         let w = w\<lparr>sndbufs := (sndbufs w)(sndbuf c \<mapsto> b\<lparr>sb_ip_flags := p, snd_data := d, snd_packet := k\<rparr>)\<rparr>;
         if k = 0 then Some (-1, w) else Some (0, w)
       }
     }
   }"

definition vtl_alloc_buf :: "env \<Rightarrow> nat \<Rightarrow> int \<Rightarrow> api_world \<Rightarrow> (int \<times> api_world) option" where
  "vtl_alloc_buf env ch mode w =
     (if mode = VTL_USE_MODE_INOUT \<or> mode = VTL_USE_MODE_IN then do {
        c \<leftarrow> get (channels w) w ch;
        b \<leftarrow> get (rcvbufs w) w (rcvbuf c);
        let (d, w) = allocate_ustrmem env (int VTL_DATA_SIZE) w;
        let w = w\<lparr>rcvbufs := (rcvbufs w)(rcvbuf c \<mapsto> b\<lparr>rcv_data := d\<rparr>)\<rparr>;
        if d = 0 then Some (-1, w)
        else if mode \<noteq> VTL_USE_MODE_INOUT then Some (0, w)
        else vtl_alloc_out env ch w
      }
      else if mode = VTL_USE_MODE_OUT then vtl_alloc_out env ch w
      else Some (0, w))"

definition upd_channel :: "nat \<Rightarrow> (vtl_channel \<Rightarrow> vtl_channel) \<Rightarrow> api_world \<Rightarrow> api_world" where
  "upd_channel p f w = w\<lparr>channels := (channels w)(p := map_option f (channels w p))\<rparr>"

definition upd_sndbuf :: "nat \<Rightarrow> (vtl_sndbuf \<Rightarrow> vtl_sndbuf) \<Rightarrow> api_world \<Rightarrow> api_world" where
  "upd_sndbuf p f w = w\<lparr>sndbufs := (sndbufs w)(p := map_option f (sndbufs w p))\<rparr>"

definition upd_rcvbuf :: "nat \<Rightarrow> (vtl_rcvbuf \<Rightarrow> vtl_rcvbuf) \<Rightarrow> api_world \<Rightarrow> api_world" where
  "upd_rcvbuf p f w = w\<lparr>rcvbufs := (rcvbufs w)(p := map_option f (rcvbufs w p))\<rparr>"

definition vtl_open_channel :: "env \<Rightarrow> nat \<Rightarrow> nat \<Rightarrow> int \<Rightarrow> api_world \<Rightarrow> nat \<times> api_world" where
  "vtl_open_channel env loc rem flags w =
     (let (ch, w) = c_calloc env 40 w
      in if ch = 0 then (0, set_err ''ERR: Memory Allocation\<newline>'' w)
         else let w = w\<lparr>channels := (channels w)(ch \<mapsto> zero_channel)\<rparr>
         in if loc = 0 \<and> rem = 0 then (0, set_err ''ERR: Endpoints not correct\<newline>'' w)
         else if loc = 0 \<and> flags = VTL_LOCAL_AUTOFILL then (0, w)
         else let w = upd_channel ch (\<lambda>c. c\<lparr>ch_local := loc, ch_remote := rem\<rparr>) w;
                  (rb, w) = c_calloc env 16 w;
                  w = upd_channel ch (\<lambda>c. c\<lparr>rcvbuf := rb\<rparr>) w
         in if rb = 0 then (0, set_err ''ERR: Memory Allocation\<newline>'' w)
         else let w = w\<lparr>rcvbufs := (rcvbufs w)(rb \<mapsto> zero_rcvbuf)\<rparr>;
                  (d, w) = c_calloc env VTL_DATA_SIZE w;
                  w = upd_rcvbuf rb (\<lambda>b. b\<lparr>rcv_data := d\<rparr>) w
         in if d = 0 then (0, set_err ''ERR: Memory Allocation\<newline>'' w) else (ch, w))"

definition vtl_accept_channel :: "env \<Rightarrow> nat \<Rightarrow> nat \<Rightarrow> int \<Rightarrow> api_world \<Rightarrow> nat \<times> api_world" where
  "vtl_accept_channel env loc rem flags w =
     (let (ch, w) = c_calloc env 40 w
      in if ch = 0 then (0, set_err ''ERR: Memory Allocation\<newline>'' w)
         else let w = w\<lparr>channels := (channels w)(ch \<mapsto> zero_channel)\<rparr>
         in if loc = 0 \<and> rem = 0 then (0, set_err ''ERR: Endpoints not correct\<newline>'' w)
         else if loc = 0 \<and> flags = VTL_LOCAL_AUTOFILL then (0, w)
         else let w = upd_channel ch (\<lambda>c. c\<lparr>ch_local := loc, ch_remote := rem\<rparr>) w;
                  (sb, w) = c_calloc env 96 w;
                  w = upd_channel ch (\<lambda>c. c\<lparr>sndbuf := sb\<rparr>) w
         in if sb = 0 then (0, set_err ''ERR: ch->sndbuf  memory allocation failed\<newline>'' w)
         else let w = w\<lparr>sndbufs := (sndbufs w)(sb \<mapsto> zero_sndbuf)\<rparr>;
                  (f, w) = c_calloc env 16 w;
                  w = upd_sndbuf sb (\<lambda>b. b\<lparr>sb_ip_flags := f\<rparr>) w
         in if f = 0 then (0, set_err ''ERR: ch->sndbuf->ip_flags  memory allocation failed\<newline>'' w)
         else let (d, w) = c_calloc env VTL_DATA_SIZE w;
                  w = upd_sndbuf sb (\<lambda>b. b\<lparr>snd_data := d\<rparr>) w
         in if d = 0 then (0, set_err ''ERR: ch->sndbuf->snd_data  memory allocation failed\<newline>'' w)
         else let (k, w) = c_calloc env IP_MAXPACKET w;
                  w = upd_sndbuf sb (\<lambda>b. b\<lparr>snd_packet := k\<rparr>) w
         in if k = 0 then (0, set_err ''ERR: ch->sndbuf->snd_packet  memory allocation failed\<newline>'' w)
            else (ch, w))"

text \<open>The guarded \<open>free\<close>s are plain ones, since \<open>free(NULL)\<close> does nothing.\<close>

definition free_rcvbuf :: "nat \<Rightarrow> api_world \<Rightarrow> api_world option" where
  "free_rcvbuf p w =
     (if p = 0 then Some w
      else do {
        b \<leftarrow> get (rcvbufs w) w p;
        w \<leftarrow> (if rcv_data b \<noteq> 0 then c_free (rcv_data b) w else Some w);
        c_free p w
      })"

definition free_sndbuf :: "nat \<Rightarrow> api_world \<Rightarrow> api_world option" where
  "free_sndbuf p w =
     (if p = 0 then Some w
      else do {
        b \<leftarrow> get (sndbufs w) w p;
        w \<leftarrow> (if sb_ip_flags b \<noteq> 0 then c_free (sb_ip_flags b) w else Some w);
        w \<leftarrow> (if snd_data b \<noteq> 0 then c_free (snd_data b) w else Some w);
        w \<leftarrow> (if snd_packet b \<noteq> 0 then c_free (snd_packet b) w else Some w);
        c_free p w
      })"

definition vtl_close_channel :: "nat \<Rightarrow> api_world \<Rightarrow> api_world option" where
  "vtl_close_channel ch w =
     (if ch = 0 then Some w
      else do {
        c \<leftarrow> get (channels w) w ch;
        w \<leftarrow> free_rcvbuf (rcvbuf c) w;
        w \<leftarrow> free_sndbuf (sndbuf c) w;
        c_free ch w
      })"

section \<open>Sending and receiving\<close>

text \<open>
  The destination text is written into the remote endpoint before the local address is read; when
  the two endpoints are the same object the local address is the text just written.
\<close>

definition vtl_send :: "env \<Rightarrow> nat \<Rightarrow> nat \<Rightarrow> nat \<Rightarrow> u64 \<Rightarrow> api_world \<Rightarrow> (int \<times> api_world) option" where
  "vtl_send env cx ch data datalen w = do {
     c \<leftarrow> get (channels w) w ch;
     b \<leftarrow> get (sndbufs w) w (sndbuf c);
     let w = w\<lparr>sndbufs := (sndbufs w)(sndbuf c \<mapsto> b\<lparr>snd_data := data, snd_datalen := datalen\<rparr>)\<rparr>;
     x \<leftarrow> get (ctxs w) w cx;
     s \<leftarrow> get (sockets w) w (ctx_sock x);
     re \<leftarrow> get (endpoints w) w (ch_remote c);
     le \<leftarrow> get (endpoints w) w (ch_local c);
     let src = (if ch_local c = ch_remote c
                then inet_ntop (resolved (answer env (trace w) (Sock (Getaddrinfo (hostname re))))) else in_addr le);
     (ret, h, dst, w) \<leftarrow> adaptor__send_packet env (af_inet_sock s) (snd_packet b) (sb_vtlh b) (sb_iphdr b)
        (hostname re) (in_addr re) src (sb_ip_flags b) data datalen w;
     let w = w\<lparr>endpoints := (endpoints w)(ch_remote c \<mapsto> re\<lparr>in_addr := dst\<rparr>),
               sndbufs := (sndbufs w)(sndbuf c \<mapsto> b\<lparr>snd_data := data, snd_datalen := datalen, sb_iphdr := h\<rparr>)\<rparr>;
     if ret < 0 then Some (-1, w) else Some (0, w)
   }"

definition vtl_receive ::
    "env \<Rightarrow> nat \<Rightarrow> 'c vtl_recv_params \<Rightarrow> api_world \<Rightarrow> ('c vtl_recv_params \<times> api_world) option" where
  "vtl_receive env cx rp w = do {
     x \<leftarrow> get (ctxs w) w cx;
     s \<leftarrow> get (sockets w) w (ctx_sock x);
     k \<leftarrow> xsk_socket s;
     (k, rp, w) \<leftarrow> adaptor__rcv_data env k (xsk_poll_mode s) rp w;
     Some (rp, w\<lparr>sockets := (sockets w)(ctx_sock x \<mapsto> s\<lparr>xsk_socket := Some k\<rparr>)\<rparr>)
   }"

section \<open>What the allocations leave\<close>

lemma api_calloc:
  assumes "c_calloc env n (w :: api_world) = (p, w')"
  shows "channels w' = channels w" "sndbufs w' = sndbufs w" "rcvbufs w' = rcvbufs w" "endpoints w' = endpoints w"
    "ctxs w' = ctxs w" "sockets w' = sockets w"
    "p \<noteq> 0 \<Longrightarrow> p = Suc (fresh w)" "p \<noteq> 0 \<Longrightarrow> fresh w' = Suc (fresh w)"
    "p \<noteq> 0 \<Longrightarrow> heap w' = (heap w)(Suc (fresh w) \<mapsto> replicate n 0)"
  using assms by (auto simp: c_calloc_def sys_def new_block_def Let_def split: if_splits)

lemma upd_simps [simp]:
  "heap (upd_channel p f w) = heap w" "fresh (upd_channel p f w) = fresh w"
  "channels (upd_channel p f w) = (channels w)(p := map_option f (channels w p))"
  "sndbufs (upd_channel p f w) = sndbufs w" "rcvbufs (upd_channel p f w) = rcvbufs w"
  "endpoints (upd_channel p f w) = endpoints w" "ctxs (upd_channel p f w) = ctxs w" "sockets (upd_channel p f w) = sockets w"
  "heap (upd_sndbuf p g w) = heap w" "fresh (upd_sndbuf p g w) = fresh w"
  "sndbufs (upd_sndbuf p g w) = (sndbufs w)(p := map_option g (sndbufs w p))"
  "channels (upd_sndbuf p g w) = channels w" "rcvbufs (upd_sndbuf p g w) = rcvbufs w"
  "endpoints (upd_sndbuf p g w) = endpoints w" "ctxs (upd_sndbuf p g w) = ctxs w" "sockets (upd_sndbuf p g w) = sockets w"
  "heap (upd_rcvbuf p h w) = heap w" "fresh (upd_rcvbuf p h w) = fresh w"
  "rcvbufs (upd_rcvbuf p h w) = (rcvbufs w)(p := map_option h (rcvbufs w p))"
  "channels (upd_rcvbuf p h w) = channels w" "sndbufs (upd_rcvbuf p h w) = sndbufs w"
  by (simp_all add: upd_channel_def upd_sndbuf_def upd_rcvbuf_def)

definition accepted :: "nat \<Rightarrow> nat \<Rightarrow> nat \<Rightarrow> vtl_channel" where
  "accepted a loc rem = zero_channel\<lparr>ch_local := loc, ch_remote := rem, sndbuf := a + 2\<rparr>"

definition accepted_buf :: "nat \<Rightarrow> vtl_sndbuf" where
  "accepted_buf a = zero_sndbuf\<lparr>sb_ip_flags := a + 3, snd_data := a + 4, snd_packet := a + 5\<rparr>"

lemma accept_shape:
  assumes "vtl_accept_channel env loc rem fl w = (ch, w')" and "ch \<noteq> 0"
  defines "a \<equiv> fresh w"
  shows "ch = a + 1" "channels w' = (channels w)(a + 1 \<mapsto> accepted a loc rem)"
    "sndbufs w' = (sndbufs w)(a + 2 \<mapsto> accepted_buf a)"
    "heap w' = (heap w)(a + 1 \<mapsto> replicate 40 0, a + 2 \<mapsto> replicate 96 0, a + 3 \<mapsto> replicate 16 0,
       a + 4 \<mapsto> replicate 1024 0, a + 5 \<mapsto> replicate 65535 0)"
    "endpoints w' = endpoints w" "ctxs w' = ctxs w" "sockets w' = sockets w"
proof -
  obtain p1 w1 where c1: "c_calloc env 40 w = (p1, w1)" by fastforce
  let ?w1 = "upd_channel p1 (\<lambda>c. c\<lparr>ch_local := loc, ch_remote := rem\<rparr>) (w1\<lparr>channels := (channels w1)(p1 \<mapsto> zero_channel)\<rparr>)"
  obtain p2 w2 where c2: "c_calloc env 96 ?w1 = (p2, w2)" by fastforce
  let ?w2 = "upd_channel p1 (\<lambda>c. c\<lparr>sndbuf := p2\<rparr>) w2"
  let ?w2b = "?w2\<lparr>sndbufs := (sndbufs w2)(p2 \<mapsto> zero_sndbuf)\<rparr>"
  obtain p3 w3 where c3: "c_calloc env 16 ?w2b = (p3, w3)" by fastforce
  let ?w3 = "upd_sndbuf p2 (\<lambda>b. b\<lparr>sb_ip_flags := p3\<rparr>) w3"
  obtain p4 w4 where c4: "c_calloc env VTL_DATA_SIZE ?w3 = (p4, w4)" by fastforce
  let ?w4 = "upd_sndbuf p2 (\<lambda>b. b\<lparr>snd_data := p4\<rparr>) w4"
  obtain p5 w5 where c5: "c_calloc env IP_MAXPACKET ?w4 = (p5, w5)" by fastforce
  let ?w5 = "upd_sndbuf p2 (\<lambda>b. b\<lparr>snd_packet := p5\<rparr>) w5"
  have nz: "p1 \<noteq> 0" "p2 \<noteq> 0" "p3 \<noteq> 0" "p4 \<noteq> 0" "p5 \<noteq> 0" and r: "ch = p1" "w' = ?w5"
    using assms(1,2) by (auto simp: vtl_accept_channel_def c1 c2 c3 c4 c5 Let_def split: if_splits)
  note e1 = api_calloc [OF c1] and e2 = api_calloc [OF c2] and e3 = api_calloc [OF c3]
    and e4 = api_calloc [OF c4] and e5 = api_calloc [OF c5]
  have p: "p1 = a + 1" "p2 = a + 2" "p3 = a + 3" "p4 = a + 4" "p5 = a + 5"
    using e1(7,8) e2(7,8) e3(7,8) e4(7,8) e5(7) nz by (simp_all add: a_def)
  show "ch = a + 1" using r p by simp
  show "channels w' = (channels w)(a + 1 \<mapsto> accepted a loc rem)"
    using r(2) e1(1) e2(1) e3(1) e4(1) e5(1) p by (simp add: accepted_def)
  show "sndbufs w' = (sndbufs w)(a + 2 \<mapsto> accepted_buf a)"
    using r(2) e1(2) e2(2) e3(2) e4(2) e5(2) p by (simp add: accepted_buf_def)
  show "heap w' = (heap w)(a + 1 \<mapsto> replicate 40 0, a + 2 \<mapsto> replicate 96 0, a + 3 \<mapsto> replicate 16 0,
       a + 4 \<mapsto> replicate 1024 0, a + 5 \<mapsto> replicate 65535 0)"
  proof -
    have n: "a + 1 = Suc a" "a + 2 = Suc (Suc a)" "a + 3 = Suc (Suc (Suc a))" "a + 4 = Suc (Suc (Suc (Suc a)))"
      "a + 5 = Suc (Suc (Suc (Suc (Suc a))))" by simp_all
    show ?thesis using r(2) e1(8,9) e2(8,9) e3(8,9) e4(8,9) e5(9) nz
      unfolding n by (simp add: a_def VTL_DATA_SIZE_def IP_MAXPACKET_def)
  qed
  show "endpoints w' = endpoints w" "ctxs w' = ctxs w" "sockets w' = sockets w"
    using r(2) e1(4,5,6) e2(4,5,6) e3(4,5,6) e4(4,5,6) e5(4,5,6) by simp_all
qed

lemma heap_ok_fresh: "heap_ok w \<Longrightarrow> fresh w < p \<Longrightarrow> heap w p = None"
  by (metis heap_ok_def domIff leD)

text \<open>
  C33. Accepting and closing a channel is leak-free: the close finds every block of the channel
  alive, frees each once, and the heap is what it was before the accept.
\<close>

theorem accept_close_restores_heap:
  assumes "heap_ok w" and "vtl_accept_channel env loc rem fl w = (ch, w')" and "ch \<noteq> 0"
  shows "\<exists>w''. vtl_close_channel ch w' = Some w'' \<and> heap w'' = heap w"
proof -
  let ?a = "fresh w"
  note s = accept_shape [OF assms(2,3)]
  have n: "heap w (?a + k) = None" if "0 < k" for k using heap_ok_fresh [OF assms(1)] that by simp
  have ch: "get (channels w') w' ch = Some (accepted ?a loc rem)"
    by (simp add: get_def live_def s(1,2,4))
  have sb: "get (sndbufs w') w' (?a + 2) = Some (accepted_buf ?a)"
    by (simp add: get_def live_def s(3,4))
  obtain w1 where w1: "free_sndbuf (?a + 2) w' = Some w1" "heap w1 = (heap w)(?a + 1 \<mapsto> replicate 40 0)"
    using sb n [of 1] n [of 2] n [of 3] n [of 4] n [of 5]
    by (auto simp: free_sndbuf_def accepted_buf_def zero_sndbuf_def c_free_def s(4) fun_upd_twist fun_eq_iff)
  show ?thesis
    using ch w1 n [of 1] s(1) by (auto simp: vtl_close_channel_def accepted_def zero_channel_def free_rcvbuf_def c_free_def fun_eq_iff)
qed

section \<open>Sending on a channel\<close>

lemma sys_more: "sys env c w = (r, w') \<Longrightarrow> world.more w' = world.more w"
  by (auto simp: sys_def Let_def)

lemma call_more: "call env c w = (r, w') \<Longrightarrow> world.more w' = world.more w"
  by (auto simp: call_def sys_def Let_def)

text \<open>Same live blocks, same stores: what the send path does not change.\<close>

definition keeps :: "'a world_scheme \<Rightarrow> 'a world_scheme \<Rightarrow> bool" where
  "keeps w w' \<longleftrightarrow> dom (heap w') = dom (heap w) \<and> world.more w' = world.more w"

lemma keeps_trans: "keeps w1 w2 \<Longrightarrow> keeps w2 w3 \<Longrightarrow> keeps w1 w3"
  by (simp add: keeps_def)

lemma heap_write_keeps: "heap_write p off bs w = Some w' \<Longrightarrow> keeps w w'"
  by (auto simp: keeps_def heap_write_def bind_eq_Some_conv split: if_splits)

lemma sys_keeps: "keeps w (snd (sys env c w))" and call_keeps: "keeps w (snd (call env c w))"
  and set_err_keeps: "keeps w (set_err s w)" and keeps_refl: "keeps w w"
  by (simp_all add: keeps_def call_def sys_def Let_def set_err_def)

lemma create_hdr_keeps:
  assumes "create_ip4_hdr env h t d s f n w = Some (ret, h', d', w')"
  shows "keeps w w'"
proof -
  obtain r w1 where c: "sys env (Sock (Getaddrinfo t)) w = (r, w1)" by fastforce
  have k1: "keeps w w1" using sys_keeps [of w env "Sock (Getaddrinfo t)"] by (simp add: c)
  show ?thesis
  proof (cases "rv r = 0")
    case True
    then obtain w2 where w2: "heap_write f 0 (replicate 16 0) w1 = Some w2"
      using assms by (auto simp: create_ip4_hdr_def c bind_eq_Some_conv Let_def)
    then have "w' = w2" using assms True inet_round_trip [of "resolved r"]
      by (auto simp: create_ip4_hdr_def c bind_eq_Some_conv Let_def split: option.splits)
    then show ?thesis using k1 heap_write_keeps [OF w2] keeps_trans by blast
  next
    case False
    then show ?thesis using assms k1 by (auto simp: create_ip4_hdr_def c)
  qed
qed

lemma assemble_keeps: "ip4_pkt_assemble p h v d n w = Some w' \<Longrightarrow> keeps w w'"
  by (auto simp: ip4_pkt_assemble_def bind_eq_Some_conv intro: keeps_trans dest!: heap_write_keeps split: if_splits)

lemma send_pkt_keeps:
  assumes "send_packet env fd to p n w = Some (ret, w')"
  shows "keeps w w'"
  using assms call_keeps
  by (auto simp: send_packet_def bind_eq_Some_conv Let_def case_prod_unfold split: if_splits)

lemma adaptor_send_keeps:
  assumes "adaptor__send_packet env fd p v h t d s f da n w = Some (ret, h', d', w')"
  shows "keeps w w'"
proof -
  obtain r1 h1 d1 w1 where c: "create_ip4_hdr env h t d s f n w = Some (r1, h1, d1, w1)"
    using assms by (auto simp: adaptor__send_packet_def bind_eq_Some_conv)
  show ?thesis
  proof (cases "r1 = 0")
    case True
    then obtain w2 r3 w3 where "ip4_pkt_assemble p h1 v da n w1 = Some w2"
      "send_packet env fd (fill_sockaddr_in h1) p n w2 = Some (r3, w3)" "w' = w3 \<or> (\<exists>m. w' = set_err m w3)"
      using assms by (auto simp: adaptor__send_packet_def c bind_eq_Some_conv Let_def split: if_splits)
    then show ?thesis using create_hdr_keeps [OF c] assemble_keeps send_pkt_keeps set_err_keeps keeps_trans by metis
  next
    case False
    then show ?thesis using assms create_hdr_keeps [OF c] set_err_keeps keeps_trans
      by (auto simp: adaptor__send_packet_def c) blast
  qed
qed

lemma more_stores:
  "world.more (w' :: api_world) = world.more w \<Longrightarrow>
     channels w' = channels w \<and> sndbufs w' = sndbufs w \<and> rcvbufs w' = rcvbufs w \<and> endpoints w' = endpoints w \<and>
     ctxs w' = ctxs w \<and> sockets w' = sockets w"
  by (cases w, cases w') simp

text \<open>A program with a context (block 3, socket 4), two endpoints (1, 2) and five bytes of data (5).\<close>

definition api0 :: api_world where
  "api0 = \<lparr>trace = [], errno = 0,
     heap = [1 \<mapsto> [], 2 \<mapsto> [], 3 \<mapsto> [], 4 \<mapsto> [], 5 \<mapsto> [104, 101, 108, 108, 111]], fresh = 5, err_buf = [],
     sockets = [4 \<mapsto> zero_socket\<lparr>af_inet_sock := 9\<rparr>], ctxs = [3 \<mapsto> zero_ctx\<lparr>ctx_sock := 4\<rparr>],
     endpoints = [1 \<mapsto> \<lparr>hostname = [], in_addr = ''10.0.0.1'', in6_addr = []\<rparr>,
                  2 \<mapsto> \<lparr>hostname = ''host'', in_addr = [], in6_addr = []\<rparr>],
     rcvbufs = Map.empty, sndbufs = Map.empty, channels = Map.empty\<rparr>"

lemma api0_ok: "heap_ok api0"
  by (auto simp: heap_ok_def api0_def)

lemma good_calloc: "c_calloc good_env n w =
    (Suc (fresh w), w\<lparr>trace := trace w @ [(Calloc n, good_reply 1)], heap := (heap w)(Suc (fresh w) \<mapsto> replicate n 0),
       fresh := Suc (fresh w)\<rparr>)"
  by (simp add: c_calloc_def good_env_simps(1) new_block_def) (simp add: good_env_def good_reply_def)

lemma accept_good: "loc \<noteq> 0 \<Longrightarrow> fst (vtl_accept_channel good_env loc rem fl w) = Suc (fresh w)"
  by (simp add: vtl_accept_channel_def good_calloc upd_channel_def upd_sndbuf_def Let_def)

theorem accept_close_restores_heap_witness:
  "\<exists>w''. vtl_close_channel 6 (snd (vtl_accept_channel good_env 1 2 0 api0)) = Some w'' \<and> heap w'' = heap api0"
  by (rule accept_close_restores_heap [OF api0_ok, of good_env 1 2 0])
    (simp_all add: accept_good prod_eq_iff api0_def)

section \<open>A send on an accepted channel\<close>

lemma get_iff: "get st w p = Some v \<longleftrightarrow> p \<noteq> 0 \<and> heap w p \<noteq> None \<and> st p = Some v"
  by (auto simp: get_def live_def)

lemma accept_ready:
  assumes "heap_ok w" and "vtl_accept_channel env loc rem fl w = (ch, w')" and "ch \<noteq> 0"
    and "heap w d = Some data" and "unat n \<le> length data"
  shows "send_ready (fresh w + 5) (fresh w + 3) d n w'" "heap w' d = Some data"
proof -
  note s = accept_shape [OF assms(2,3)]
  have "d \<le> fresh w" using assms(1,4) by (auto simp: heap_ok_def)
  then show "send_ready (fresh w + 5) (fresh w + 3) d n w'" "heap w' d = Some data"
    using assms(4,5) by (simp_all add: send_ready_def s(4) IP_MAXPACKET_def)
qed

lemma accept_send:
  assumes "heap_ok w" and "vtl_accept_channel env loc rem fl w = (ch, w')" and "ch \<noteq> 0"
    and "get (ctxs w) w cx = Some x" and "get (sockets w) w (ctx_sock x) = Some s"
    and "get (endpoints w) w loc = Some le" and "get (endpoints w) w rem = Some re" and "loc \<noteq> rem"
    and "inet_pton (in_addr le) = Some src" and "heap w d = Some data" and "unat n \<le> length data" and "unat n \<le> 65513"
    and "rv (answer env (trace w') (Sock (Getaddrinfo (hostname re)))) = 0"
  shows "\<exists>h r w''. let dst = resolved (answer env (trace w') (Sock (Getaddrinfo (hostname re))));
       pkt = vtl_packet h \<lparr>vtl_checksum = 0\<rparr> (take (unat n) data) in
     vtl_send env cx ch d n w' = Some (if rv r < 0 then -1 else 0, w'') \<and>
     calls w'' = calls w' @ [Sock (Getaddrinfo (hostname re)),
                             Sock (Sendto (af_inet_sock s) pkt (sockaddr_bytes (fill_sockaddr_in h)))] \<and>
     snd (last (trace w'')) = r \<and> ip4_describes h src dst n \<and> length pkt = unat (htons (ip_len h)) \<and>
     endpoints w'' = (endpoints w)(rem \<mapsto> re\<lparr>in_addr := inet_ntop dst\<rparr>) \<and>
     dom (heap w'') = dom (heap w') \<and> channels w'' = channels w' \<and>
     sndbufs w'' = (sndbufs w)(fresh w + 2 \<mapsto>
       (accepted_buf (fresh w))\<lparr>snd_data := d, snd_datalen := n, sb_iphdr := h\<rparr>)"
proof -
  let ?a = "fresh w"
  note sh = accept_shape [OF assms(2,3)]
  let ?b = "(accepted_buf ?a)\<lparr>snd_data := d, snd_datalen := n\<rparr>"
  let ?w1 = "w'\<lparr>sndbufs := (sndbufs w')(?a + 2 \<mapsto> ?b)\<rparr>"
  let ?dst = "resolved (answer env (trace w') (Sock (Getaddrinfo (hostname re))))"
  have live: "heap w' p \<noteq> None" if "heap w p \<noteq> None" for p using that by (simp add: sh(4))
  have ch: "get (channels w') w' ch = Some (accepted ?a loc rem)" by (simp add: get_def live_def sh)
  have sb: "get (sndbufs w') w' (?a + 2) = Some (accepted_buf ?a)" by (simp add: get_def live_def sh)
  have objs: "get (ctxs ?w1) ?w1 cx = Some x" "get (sockets ?w1) ?w1 (ctx_sock x) = Some s"
    "get (endpoints ?w1) ?w1 loc = Some le" "get (endpoints ?w1) ?w1 rem = Some re"
    using assms(4-7) live by (auto simp: get_iff sh(5-7))
  have "send_ready (?a + 5) (?a + 3) d n ?w1" "heap ?w1 d = Some data"
    using accept_ready [OF assms(1-3,10,11)] by (simp_all add: send_ready_def)
  then obtain h r w2 where ad: "adaptor__send_packet env (af_inet_sock s) (?a + 5) \<lparr>vtl_checksum = 0\<rparr> ip_zero
        (hostname re) (in_addr re) (in_addr le) (?a + 3) d n ?w1 = Some (if rv r < 0 then -1 else 0, h, inet_ntop ?dst, w2)"
    and tr: "calls w2 = calls w' @ [Sock (Getaddrinfo (hostname re)), Sock (Sendto (af_inet_sock s)
        (vtl_packet h \<lparr>vtl_checksum = 0\<rparr> (take (unat n) data)) (sockaddr_bytes (fill_sockaddr_in h)))]"
    and hd: "snd (last (trace w2)) = r" "ip4_describes h src ?dst n"
      "length (vtl_packet h \<lparr>vtl_checksum = 0\<rparr> (take (unat n) data)) = unat (htons (ip_len h))"
    using send_packet_wire [of env ?w1 "hostname re" "in_addr le" src "?a + 5" "?a + 3" d n data "\<lparr>vtl_checksum = 0\<rparr>"
        "af_inet_sock s" ip_zero "in_addr re"] assms(9,12,13)
    by (auto simp: Let_def calls_def)
  have k: "keeps ?w1 w2" by (rule adaptor_send_keeps [OF ad])
  have st: "channels w2 = channels w'" "sndbufs w2 = (sndbufs w')(?a + 2 \<mapsto> ?b)" "endpoints w2 = endpoints w'"
    using k more_stores [of w2 ?w1] by (simp_all add: keeps_def)
  let ?w3 = "w2\<lparr>endpoints := (endpoints w2)(rem \<mapsto> re\<lparr>in_addr := inet_ntop ?dst\<rparr>),
      sndbufs := (sndbufs w2)(?a + 2 \<mapsto> ?b\<lparr>sb_iphdr := h\<rparr>)\<rparr>"
  have buf: "snd_packet (accepted_buf ?a) = ?a + 5" "sb_ip_flags (accepted_buf ?a) = ?a + 3"
    "sb_vtlh (accepted_buf ?a) = \<lparr>vtl_checksum = 0\<rparr>" "sb_iphdr (accepted_buf ?a) = ip_zero"
    and chn: "sndbuf (accepted ?a loc rem) = ?a + 2" "ch_remote (accepted ?a loc rem) = rem" "ch_local (accepted ?a loc rem) = loc"
    by (simp_all add: accepted_buf_def zero_sndbuf_def accepted_def)
  have "vtl_send env cx ch d n w' = Some (if rv r < 0 then -1 else 0, ?w3)"
    using ad assms(8) objs by (simp add: vtl_send_def ch sb chn buf del: add_2_eq_Suc')
  then show ?thesis using tr hd st k sh(3,5)
    by (intro exI [of _ h] exI [of _ r] exI [of _ ?w3]) (simp add: Let_def calls_def keeps_def)
qed

text \<open>
  C4. An accepted channel sends. On a context with a raw socket, with two different live
  endpoints, a well-formed local address and a target the resolver finds, a send of at most 65513
  bytes hands exactly one packet to that socket: a valid VTL packet carrying the caller's bytes.
  The remote endpoint then holds the resolved address, and the result is 0 exactly when the
  kernel took the packet.
\<close>

theorem accepted_channel_sends:
  assumes "heap_ok w" and "vtl_accept_channel env loc rem fl w = (ch, w')" and "ch \<noteq> 0"
    and "get (ctxs w) w cx = Some x" and "get (sockets w) w (ctx_sock x) = Some s"
    and "get (endpoints w) w loc = Some le" and "get (endpoints w) w rem = Some re" and "loc \<noteq> rem"
    and "inet_pton (in_addr le) = Some src" and "heap w d = Some data" and "unat n \<le> length data" and "unat n \<le> 65513"
    and "rv (answer env (trace w') (Sock (Getaddrinfo (hostname re)))) = 0"
  shows "\<exists>h r w''. let dst = resolved (answer env (trace w') (Sock (Getaddrinfo (hostname re))));
       pkt = vtl_packet h \<lparr>vtl_checksum = 0\<rparr> (take (unat n) data) in
     vtl_send env cx ch d n w' = Some (if rv r < 0 then -1 else 0, w'') \<and>
     calls w'' = calls w' @ [Sock (Getaddrinfo (hostname re)),
                             Sock (Sendto (af_inet_sock s) pkt (sockaddr_bytes (fill_sockaddr_in h)))] \<and>
     snd (last (trace w'')) = r \<and> ip4_describes h src dst n \<and> length pkt = unat (htons (ip_len h)) \<and>
     endpoints w'' = (endpoints w)(rem \<mapsto> re\<lparr>in_addr := inet_ntop dst\<rparr>)"
  using accept_send [OF assms] unfolding Let_def by blast

lemma accept_eqD: "fst p = a \<Longrightarrow> p = (a, snd p)"
  by (cases p) simp

lemma api0_gets:
  "get (ctxs api0) api0 3 = Some (zero_ctx\<lparr>ctx_sock := 4\<rparr>)"
  "get (sockets api0) api0 4 = Some (zero_socket\<lparr>af_inet_sock := 9\<rparr>)"
  "get (endpoints api0) api0 1 = Some \<lparr>hostname = [], in_addr = ''10.0.0.1'', in6_addr = []\<rparr>"
  "get (endpoints api0) api0 2 = Some \<lparr>hostname = ''host'', in_addr = [], in6_addr = []\<rparr>"
  "heap api0 5 = Some [104, 101, 108, 108, 111]" "fresh api0 = 5"
  by (simp_all add: api0_def get_def live_def)

theorem accepted_channel_sends_witness:
  "let w' = snd (vtl_accept_channel good_env 1 2 0 api0) in
   \<exists>h r w''. let dst = resolved (answer good_env (trace w') (Sock (Getaddrinfo ''host'')));
       pkt = vtl_packet h \<lparr>vtl_checksum = 0\<rparr> [104, 101, 108, 108, 111] in
     vtl_send good_env 3 6 5 5 w' = Some (if rv r < 0 then -1 else 0, w'') \<and>
     calls w'' = calls w' @ [Sock (Getaddrinfo ''host''),
                             Sock (Sendto 9 pkt (sockaddr_bytes (fill_sockaddr_in h)))] \<and>
     snd (last (trace w'')) = r \<and> ip4_describes h (10, 0, 0, 1) dst 5 \<and> length pkt = unat (htons (ip_len h)) \<and>
     endpoints w'' = (endpoints api0)(2 \<mapsto> \<lparr>hostname = ''host'', in_addr = inet_ntop dst, in6_addr = []\<rparr>)"
proof -
  have acc: "vtl_accept_channel good_env 1 2 0 api0 = (6, snd (vtl_accept_channel good_env 1 2 0 api0))"
    by (rule accept_eqD) (simp add: accept_good api0_gets)
  have sk: "get (sockets api0) api0 (ctx_sock (zero_ctx\<lparr>ctx_sock := 4\<rparr>)) = Some (zero_socket\<lparr>af_inet_sock := 9\<rparr>)"
    by (simp add: api0_gets)
  show ?thesis
    using accepted_channel_sends [OF api0_ok acc _ api0_gets(1) sk api0_gets(3,4), where src = "(10, 0, 0, 1)" and d = 5 and n = 5]
    by (simp add: api0_gets(5) pton_example good_env_simps Let_def del: One_nat_def)
qed

text \<open>
  Closing a channel after a send frees the caller's data and not the channel's own buffer:
  \<open>vtl_send\<close> stores the caller's pointer over the block that the accept had allocated, and the
  close frees whatever is stored there. So the caller's block is gone while the 1024-byte buffer
  of the channel stays allocated for ever.
\<close>

lemma send_close_frees_callers_data:
  assumes "heap_ok w" and "vtl_accept_channel env loc rem fl w = (ch, w')" and "ch \<noteq> 0"
    and "get (ctxs w) w cx = Some x" and "get (sockets w) w (ctx_sock x) = Some s"
    and "get (endpoints w) w loc = Some le" and "get (endpoints w) w rem = Some re" and "loc \<noteq> rem"
    and "inet_pton (in_addr le) = Some src" and "heap w d = Some data" and "unat n \<le> length data" and "unat n \<le> 65513"
    and "rv (answer env (trace w') (Sock (Getaddrinfo (hostname re)))) = 0"
  shows "\<exists>ret w'' w3. vtl_send env cx ch d n w' = Some (ret, w'') \<and> vtl_close_channel ch w'' = Some w3 \<and>
     dom (heap w3) = dom (heap w) - {d} \<union> {fresh w + 4}"
proof -
  let ?a = "fresh w"
  note sh = accept_shape [OF assms(2,3)]
  obtain h and r :: reply and w'' where snd: "vtl_send env cx ch d n w' = Some (if rv r < 0 then -1 else 0, w'')"
    and st: "dom (heap w'') = dom (heap w')" "channels w'' = channels w'"
      "sndbufs w'' = (sndbufs w)(?a + 2 \<mapsto> (accepted_buf ?a)\<lparr>snd_data := d, snd_datalen := n, sb_iphdr := h\<rparr>)"
    using accept_send [OF assms] unfolding Let_def by (elim exE conjE) (rule that)
  have low: "p \<le> ?a \<and> 0 < p" if "heap w p \<noteq> None" for p using assms(1) that by (auto simp: heap_ok_def)
  have d: "d \<le> ?a" "0 < d" using low [of d] assms(10) by simp_all
  have live: "heap w'' p \<noteq> None \<longleftrightarrow> heap w p \<noteq> None \<or> p \<in> {?a + 1, ?a + 2, ?a + 3, ?a + 4, ?a + 5}" for p
    using arg_cong [OF st(1), of "\<lambda>S. p \<in> S"] by (auto simp: sh(4) domIff)
  have ch: "get (channels w'') w'' ch = Some (accepted ?a loc rem)"
    using live [of ch] by (simp add: get_iff sh(1,2) st(2))
  let ?b = "(accepted_buf ?a)\<lparr>snd_data := d, snd_datalen := n, sb_iphdr := h\<rparr>"
  have sb: "get (sndbufs w'') w'' (?a + 2) = Some ?b" using live [of "?a + 2"] by (simp add: get_iff st(3))
  have "free_sndbuf (?a + 2) w'' = Some (w''\<lparr>heap := (heap w'')(?a + 3 := None, d := None, ?a + 5 := None, ?a + 2 := None)\<rparr>)"
    using sb live [of "?a + 3"] live [of d] live [of "?a + 5"] live [of "?a + 2"] d assms(10)
    by (simp add: free_sndbuf_def accepted_buf_def c_free_def)
  then have "vtl_close_channel ch w'' =
      Some (w''\<lparr>heap := (heap w'')(?a + 3 := None, d := None, ?a + 5 := None, ?a + 2 := None, ?a + 1 := None)\<rparr>)"
    using ch sh(1) live [of "?a + 1"] d by (simp add: vtl_close_channel_def accepted_def zero_channel_def free_rcvbuf_def c_free_def)
  moreover have "dom ((heap w'')(?a + 3 := None, d := None, ?a + 5 := None, ?a + 2 := None, ?a + 1 := None)) =
      dom (heap w) - {d} \<union> {?a + 4}"
    using d live low by (auto simp: dom_def split: if_splits) force+
  ultimately show ?thesis using snd by (metis (no_types, lifting) world.select_convs(3) world.surjective world.update_convs(3))
qed

lemma open_shape:
  assumes "vtl_open_channel env loc rem fl w = (ch, w')" and "ch \<noteq> 0"
  shows "\<exists>c. channels w' ch = Some c \<and> sndbuf c = 0"
proof -
  obtain p1 w1 where c1: "c_calloc env 40 w = (p1, w1)" by fastforce
  let ?w1 = "upd_channel p1 (\<lambda>c. c\<lparr>ch_local := loc, ch_remote := rem\<rparr>) (w1\<lparr>channels := (channels w1)(p1 \<mapsto> zero_channel)\<rparr>)"
  obtain p2 w2 where c2: "c_calloc env 16 ?w1 = (p2, w2)" by fastforce
  let ?w2 = "upd_channel p1 (\<lambda>c. c\<lparr>rcvbuf := p2\<rparr>) w2"
  obtain p3 w3 where c3: "c_calloc env VTL_DATA_SIZE (?w2\<lparr>rcvbufs := (rcvbufs w2)(p2 \<mapsto> zero_rcvbuf)\<rparr>) = (p3, w3)" by fastforce
  have "ch = p1" "w' = upd_rcvbuf p2 (\<lambda>b. b\<lparr>rcv_data := p3\<rparr>) w3"
    using assms by (auto simp: vtl_open_channel_def c1 c2 c3 Let_def split: if_splits)
  then show ?thesis using api_calloc(1) [OF c2] api_calloc(1) [OF c3] by (simp add: zero_channel_def)
qed

text \<open>
  A channel obtained with \<open>vtl_open_channel\<close> cannot send: it is left without a send buffer,
  so every \<open>vtl_send\<close> on it stores through a null pointer.
\<close>

lemma opened_channel_cannot_send:
  assumes "vtl_open_channel env loc rem fl w = (ch, w')" and "ch \<noteq> 0"
  shows "vtl_send env cx ch d n w' = None"
proof -
  obtain c where "channels w' ch = Some c" "sndbuf c = 0" using open_shape [OF assms] by blast
  moreover have "get (sndbufs w') w' 0 = None" by (simp add: get_def)
  ultimately show ?thesis by (cases "get (channels w') w' ch") (simp_all add: vtl_send_def, auto simp: get_iff)
qed

section \<open>The life of a socket\<close>

lemma api_malloc:
  assumes "c_malloc env n (w :: api_world) = (p, w')" and "rv (answer env (trace w) (Malloc n)) \<noteq> 0"
  shows "world.more w' = world.more w" "fresh w' = Suc (fresh w)" "dom (heap w') = insert (Suc (fresh w)) (dom (heap w))"
    "calls w' = calls w @ [Malloc n]"
  using assms by (auto simp: c_malloc_def sys_def new_block_def Let_def calls_def split: if_splits)

lemma api_calloc_ok:
  assumes "rv (answer env (trace (w :: api_world)) (Calloc n)) \<noteq> 0"
  shows "\<exists>w'. c_calloc env n w = (Suc (fresh w), w') \<and> world.more w' = world.more w \<and> fresh w' = Suc (fresh w) \<and>
     heap w' = (heap w)(Suc (fresh w) \<mapsto> replicate n 0) \<and> calls w' = calls w @ [Calloc n]"
  using assms by (simp add: c_calloc_def sys_def new_block_def Let_def calls_def)

lemma create_socket_out:
  assumes "\<And>t n. rv (answer env t (Malloc n)) \<noteq> 0" and "\<And>t n. rv (answer env t (Calloc n)) \<noteq> 0"
    and "\<And>t. 0 \<le> rv (answer env t (Sock (Socket AF_INET SOCK_RAW IPPROTO_RAW)))"
  shows "\<exists>w' fd. vtl_create_socket env VTL_USE_MODE_OUT ifn w = Some (fresh w + 2, w') \<and>
     dom (heap w') = dom (heap w) \<union> {fresh w + 1, fresh w + 2} \<and> ctxs w' = ctxs w \<and>
     sockets w' (fresh w + 2) = Some (zero_socket\<lparr>af_inet_sock := fd\<rparr>) \<and>
     calls w' = calls w @ [Malloc 136, Calloc 136, Sock (Socket AF_INET SOCK_RAW IPPROTO_RAW)]"
proof -
  obtain p1 w1 where c1: "c_malloc env 136 w = (p1, w1)" by fastforce
  note m = api_malloc [OF c1 assms(1)]
  obtain w2 where c2: "c_calloc env 136 w1 = (Suc (fresh w1), w2)" "world.more w2 = world.more w1"
    "heap w2 = (heap w1)(Suc (fresh w1) \<mapsto> replicate 136 0)" "calls w2 = calls w1 @ [Calloc 136]"
    using api_calloc_ok [OF assms(2)] by blast
  let ?w2 = "w2\<lparr>sockets := (sockets w2)(Suc (fresh w1) \<mapsto> zero_socket)\<rparr>"
  obtain fd w3 where c3: "vtl_sock_out env ?w2 = (fd, w3)" by fastforce
  then have e3: "0 \<le> fd" "world.more w3 = world.more ?w2" "heap w3 = heap w2"
    "calls w3 = calls w2 @ [Sock (Socket AF_INET SOCK_RAW IPPROTO_RAW)]"
  proof -
    have nn: "\<not> rv (answer env t (Sock (Socket AF_INET SOCK_RAW IPPROTO_RAW))) < 0" for t using assms(3) [of t] by simp
    show "0 \<le> fd" "world.more w3 = world.more ?w2" "heap w3 = heap w2"
      "calls w3 = calls w2 @ [Sock (Socket AF_INET SOCK_RAW IPPROTO_RAW)]"
      using c3 assms(3) by (auto simp: vtl_sock_out_def adaptor__create_raw_sock_def call_def sys_def Let_def calls_def nn)
  qed
  let ?w = "w3\<lparr>sockets := (sockets w3)(fresh w + 2 := map_option (\<lambda>s. s\<lparr>af_inet_sock := fd\<rparr>) (sockets w3 (fresh w + 2)))\<rparr>"
  have "vtl_create_socket env VTL_USE_MODE_OUT ifn w = Some (fresh w + 2, ?w)"
    using e3(1) c3 by (simp add: vtl_create_socket_def c1 c2(1) create_out_def m(2) VTL_USE_MODE_IN_def VTL_USE_MODE_OUT_def
        VTL_USE_MODE_INOUT_def)
  moreover have "sockets w3 = (sockets w2)(fresh w + 2 \<mapsto> zero_socket)" "ctxs w3 = ctxs w"
    using more_stores [OF e3(2)] more_stores [OF c2(2)] more_stores [OF m(1)] by (simp_all add: m(2))
  moreover have "dom (heap w3) = dom (heap w) \<union> {fresh w + 1, fresh w + 2}" using m(2,3) c2(3) e3(3) by auto
  moreover have "calls w3 = calls w @ [Malloc 136, Calloc 136, Sock (Socket AF_INET SOCK_RAW IPPROTO_RAW)]"
    using m(4) c2(4) e3(4) by simp
  ultimately show ?thesis by (intro exI [of _ ?w] exI [of _ fd]) (simp add: calls_def)
qed

text \<open>
  Closing a context does not give back what creating it took. In the sending mode, creating
  and destroying a context leaves one 136-byte block allocated (the first of the two allocations
  of \<open>vtl_create_socket\<close>, whose address is overwritten) and the raw socket open: no descriptor is
  closed on the way.
\<close>

lemma create_destroy_leaks:
  assumes "heap_ok w" and "\<And>t n. rv (answer env t (Malloc n)) \<noteq> 0" and "\<And>t n. rv (answer env t (Calloc n)) \<noteq> 0"
    and "\<And>t. 0 \<le> rv (answer env t (Sock (Socket AF_INET SOCK_RAW IPPROTO_RAW)))" and "length ifn < 16"
  shows "\<exists>c w' w''. vtl_init_ctx env VTL_USE_MODE_OUT ifn w = Some (c, w') \<and> c \<noteq> 0 \<and> vtl_destroy_ctx env c w' = Some w'' \<and>
     dom (heap w'') = dom (heap w) \<union> {fresh w + 2} \<and>
     calls w'' = calls w @ [Calloc 32, Malloc 136, Calloc 136, Sock (Socket AF_INET SOCK_RAW IPPROTO_RAW)]"
proof -
  let ?a = "fresh w"
  obtain w1 where c1: "c_calloc env 32 w = (Suc ?a, w1)" "world.more w1 = world.more w" "fresh w1 = Suc ?a"
    "heap w1 = (heap w)(Suc ?a \<mapsto> replicate 32 0)" "calls w1 = calls w @ [Calloc 32]"
    using api_calloc_ok [OF assms(3)] by blast
  let ?w1 = "w1\<lparr>ctxs := (ctxs w1)(Suc ?a \<mapsto> zero_ctx\<lparr>ctx_ifname := ifn\<rparr>)\<rparr>"
  obtain w2 fd where c2: "vtl_create_socket env VTL_USE_MODE_OUT ifn ?w1 = Some (?a + 3, w2)"
    "dom (heap w2) = dom (heap w1) \<union> {?a + 2, ?a + 3}" "ctxs w2 = ctxs ?w1"
    "sockets w2 (?a + 3) = Some (zero_socket\<lparr>af_inet_sock := fd\<rparr>)"
    "calls w2 = calls w1 @ [Malloc 136, Calloc 136, Sock (Socket AF_INET SOCK_RAW IPPROTO_RAW)]"
    using create_socket_out [OF assms(2-4), where w = ?w1 and ifn = ifn] c1(3) by (auto simp: calls_def numeral_3_eq_3)
  let ?w2 = "w2\<lparr>ctxs := (ctxs w2)(Suc ?a := map_option (\<lambda>x. x\<lparr>ctx_sock := ?a + 3\<rparr>) (ctxs w2 (Suc ?a)))\<rparr>"
  have i: "vtl_init_ctx env VTL_USE_MODE_OUT ifn w = Some (Suc ?a, ?w2)"
    using assms(5) by (simp add: vtl_init_ctx_def c1(1) strcpy_def API_IF_NAMESIZE_def c2(1))
  have live: "heap w2 (Suc ?a) \<noteq> None" "heap w2 (?a + 3) \<noteq> None"
    using c2(2) c1(4) by (auto simp: dom_def)
  have "vtl_destroy_ctx env (Suc ?a) ?w2 = Some (?w2\<lparr>heap := (heap w2)(?a + 3 := None, Suc ?a := None)\<rparr>)"
    using live c2(3,4)
    by (auto simp: vtl_destroy_ctx_def vtl_close_socket_def get_def live_def c_free_def zero_socket_def zero_ctx_def Let_def)
  moreover have "dom ((heap w2)(?a + 3 := None, Suc ?a := None)) = dom (heap w) \<union> {?a + 2}"
  proof -
    have "heap w (Suc ?a) = None" "heap w (?a + 3) = None" using heap_ok_fresh [OF assms(1)] by simp_all
    then show ?thesis using c2(2) c1(4) by (auto simp: domIff)
  qed
  ultimately show ?thesis using i c1(5) c2(5) by (simp add: calls_def)
qed

end
