(* ===== verification/Hooker.thy ===== *)
theory Hooker
  imports Vtl_Api Launcher
begin

text \<open>
  The user side of the hooker, \<^verbatim>\<open>src/hooker/hooker.c\<close>: loading the two BPF programs, the
  pair of sockets through which messages of legacy applications come in, the two thread bodies
  and \<open>main\<close>, which attaches the programs and takes them off again. The global variables of the
  file are a record that is passed along. \<open>None\<close> is undefined behaviour, or a loop that does not
  end.
\<close>

section \<open>Loading the programs\<close>

definition BPF_PROG_TYPE_SOCK_OPS :: int where "BPF_PROG_TYPE_SOCK_OPS = 13"
definition BPF_PROG_TYPE_SK_MSG :: int where "BPF_PROG_TYPE_SK_MSG = 16"
definition BPF_CGROUP_SOCK_OPS :: int where "BPF_CGROUP_SOCK_OPS = 3"
definition BPF_SK_MSG_VERDICT :: int where "BPF_SK_MSG_VERDICT = 7"
definition BPF_F_ALLOW_MULTI :: int where "BPF_F_ALLOW_MULTI = 2"

definition map_names :: "string list" where "map_names = [''SOCK_MAP'', ''COOKIE_MAP'']"
definition prog_type :: "int list" where "prog_type = [BPF_PROG_TYPE_SOCK_OPS, BPF_PROG_TYPE_SK_MSG]"
definition prog_attach_type :: "int list" where "prog_attach_type = [BPF_CGROUP_SOCK_OPS, BPF_SK_MSG_VERDICT]"

record hooker_globals =
  map_fd :: "int list"
  prog_fd :: "int list"
  sock_server :: int
  sock_redir :: int

text \<open>Array accesses of the two loops: outside the two entries they are undefined.\<close>

definition at :: "'a list \<Rightarrow> nat \<Rightarrow> 'a option" where
  "at xs i = (if i < length xs then Some (xs ! i) else None)"

definition put_at :: "'a list \<Rightarrow> nat \<Rightarrow> 'a \<Rightarrow> 'a list option" where
  "put_at xs i v = (if i < length xs then Some (xs[i := v]) else None)"

fun set_types :: "env \<Rightarrow> nat \<Rightarrow> int list \<Rightarrow> 'a world_scheme \<Rightarrow> 'a world_scheme option" where
  "set_types env i [] w = Some w"
| "set_types env i (p # ps) w = do {
     t \<leftarrow> at prog_type i;
     a \<leftarrow> at prog_attach_type i;
     let (_, w) = call env (Bpf (Set_prog_type p t)) w;
     let (_, w) = call env (Bpf (Set_attach_type p a)) w;
     set_types env (Suc i) ps w
   }"

fun get_prog_fds :: "env \<Rightarrow> nat \<Rightarrow> int list \<Rightarrow> int list \<Rightarrow> int list option" where
  "get_prog_fds env i [] fds = Some fds"
| "get_prog_fds env i (p # ps) fds = do {
     fds \<leftarrow> put_at fds i (prog_fd_of env p);
     get_prog_fds env (Suc i) ps fds
   }"

fun get_map_fds :: "env \<Rightarrow> int \<Rightarrow> nat \<Rightarrow> string list \<Rightarrow> int list \<Rightarrow> (int \<times> int list) option" where
  "get_map_fds env obj i [] fds = Some (0, fds)"
| "get_map_fds env obj i (n # ns) fds =
     (let fd = bpf_map__fd env (find_map_by_name env n (obj_maps env obj))
      in do {
        fds \<leftarrow> put_at fds i fd;
        if fd < 0 then Some (-1, fds) else get_map_fds env obj (Suc i) ns fds
      })"

text \<open>\<open>libbpf_get_error\<close> is non-zero for the pointers that encode an error.\<close>

definition libbpf_get_error :: "int \<Rightarrow> int" where
  "libbpf_get_error p = (if - 4095 \<le> p \<and> p < 0 then p else 0)"

definition load_bpf_progs :: "env \<Rightarrow> string \<Rightarrow> hooker_globals \<Rightarrow> 'a world_scheme \<Rightarrow> (int \<times> hooker_globals \<times> 'a world_scheme) option" where
  "load_bpf_progs env bpf_file g w =
     (let (obj, w) = call env (Bpf (Object_open bpf_file)) w
      in if libbpf_get_error obj \<noteq> 0 then Some (-1, g, w)
         else do {
           w \<leftarrow> set_types env 0 (obj_programs env obj) w;
           let (_, w) = call env (Bpf (Object_load obj)) w;
           pfds \<leftarrow> get_prog_fds env 0 (obj_programs env obj) (prog_fd g);
           (err, mfds) \<leftarrow> get_map_fds env obj 0 map_names (map_fd g);
           Some (err, g\<lparr>prog_fd := pfds, map_fd := mfds\<rparr>, w)
         })"

section \<open>The sockets\<close>

definition SOCK_STREAM :: int where "SOCK_STREAM = 1"
definition SOL_SOCKET :: int where "SOL_SOCKET = 1"
definition SO_REUSEADDR :: int where "SO_REUSEADDR = 2"
definition FIONBIO :: int where "FIONBIO = 0x5421"
definition EINPROGRESS :: int where "EINPROGRESS = 115"
definition HOOKER_SERV_PORT :: u16 where "HOOKER_SERV_PORT = 10000"
definition REDIR_PORT :: u16 where "REDIR_PORT = 10002"
definition MAX_DATA_SIZE :: nat where "MAX_DATA_SIZE = 1024"

text \<open>
  \<open>one\<close> is the value that the uninitialised variable of that name happens to have. Every failure
  returns \<open>errno\<close> and leaves the sockets as they are.
\<close>

definition hooker_init_sock :: "env \<Rightarrow> int \<Rightarrow> hooker_globals \<Rightarrow> 'a world_scheme \<Rightarrow> int \<times> hooker_globals \<times> 'a world_scheme" where
  "hooker_init_sock env one g w =
     (let (s, w) = call env (Sock (Socket AF_INET SOCK_STREAM 0)) w; g = g\<lparr>sock_server := s\<rparr>
      in if s = -1 then (errno w, g, w)
         else let (r, w) = call env (Sock (Socket AF_INET SOCK_STREAM 0)) w; g = g\<lparr>sock_redir := r\<rparr>
         in if r = -1 then (errno w, g, w)
         else let (err, w) = call env (Sock (Setsockopt_int s SOL_SOCKET SO_REUSEADDR one)) w
         in if err \<noteq> 0 then (errno w, g, w)
         else let (err, w) = call env (Sock (Ioctl_int s FIONBIO one)) w
         in if err < 0 then (errno w, g, w)
         else let (err, w) = call env (Sock (Bind s ''0.0.0.0'' (htons HOOKER_SERV_PORT))) w
         in if err < 0 then (errno w, g, w)
         else let (err, w) = call env (Sock (Listen s 32)) w
         in if err < 0 then (errno w, g, w)
         else let (err, w) = call env (Sock (Bind r ''127.0.0.1'' (htons REDIR_PORT))) w
         in if err < 0 then (errno w, g, w)
         else let (err, w) = call env (Sock (Connect r ''0.0.0.0'' (htons HOOKER_SERV_PORT))) w
         in if err < 0 \<and> errno w \<noteq> EINPROGRESS then (errno w, g, w)
         else let (hacpt, w) = call env (Sock (Accept s)) w
         in if hacpt < 0 then (errno w, g, w) else (0, g, w))"

section \<open>Messages from and to the applications\<close>

text \<open>\<open>recv\<close> stores what the reply carries, at most the length it was given.\<close>

definition recv_from_app' :: "env \<Rightarrow> hooker_globals \<Rightarrow> byte list \<Rightarrow> 'a world_scheme \<Rightarrow> (int \<times> byte list \<times> 'a world_scheme) option" where
  "recv_from_app' env g buf w =
     (let (r, w) = sys env (Sock (Recv (sock_redir g) MAX_DATA_SIZE)) w
      in do {
        buf \<leftarrow> (if rv r \<le> 0 then Some buf else memcpy buf 0 (take (nat (rv r)) (rdata r @ replicate (nat (rv r)) 0)));
        Some (rv r, buf, w)
      })"

text \<open>\<open>sizeof(buf)\<close> is the size of a pointer.\<close>

definition recv_from_app :: "env \<Rightarrow> hooker_globals \<Rightarrow> byte list \<Rightarrow> 'a world_scheme \<Rightarrow> (int \<times> byte list \<times> 'a world_scheme) option" where
  "recv_from_app env g buf w = do {
     buf \<leftarrow> memcpy buf 0 (replicate 8 0);
     (numbytes, buf, w) \<leftarrow> recv_from_app' env g buf w;
     if numbytes < 0 then Some (errno w, buf, w)
     else do {
       buf \<leftarrow> memcpy buf (nat numbytes) [0];
       Some (0, buf, w)
     }
   }"

text \<open>A C string in memory: the bytes before the first zero; without one, \<open>strlen\<close> runs off.\<close>

definition c_string :: "byte list \<Rightarrow> byte list option" where
  "c_string bs = (if 0 \<in> set bs then Some (takeWhile (\<lambda>b. b \<noteq> 0) bs) else None)"

definition send_to_app' :: "env \<Rightarrow> hooker_globals \<Rightarrow> byte list \<Rightarrow> 'a world_scheme \<Rightarrow> (int \<times> 'a world_scheme) option" where
  "send_to_app' env g buf w = do {
     s \<leftarrow> c_string buf;
     Some (call env (Sock (Send (sock_redir g) s)) w)
   }"

definition send_to_app :: "env \<Rightarrow> hooker_globals \<Rightarrow> byte list \<Rightarrow> 'a world_scheme \<Rightarrow> (int \<times> 'a world_scheme) option" where
  "send_to_app env g buf w = do {
     (ret, w) \<leftarrow> send_to_app' env g buf w;
     if ret < 0 then Some (errno w, w) else Some (ret, w)
   }"

text \<open>The callback runs off its end without a value when \<open>send_to_app\<close> returns 0.\<close>

definition hooker__recv_cb ::
    "env \<Rightarrow> hooker_globals \<Rightarrow> 'a world_scheme \<Rightarrow> byte list \<Rightarrow> u32 \<Rightarrow> (int option \<times> 'a world_scheme) option" where
  "hooker__recv_cb env g w data data_size = do {
     (err, w) \<leftarrow> send_to_app env g data w;
     if err \<noteq> 0 then Some (Some (-1), w) else Some (None, w)
   }"
text \<open>
  The receiving thread. The calls the callback makes are recorded in its context. \<open>sk\<close> is the
  global \<open>vtl_sock\<close>, which the file never assigns: it is a null pointer.
\<close>

definition hooker__recv :: "env \<Rightarrow> hooker_globals \<Rightarrow> nat \<Rightarrow> world \<Rightarrow> api_world \<Rightarrow> (world vtl_recv_params \<times> api_world) option" where
  "hooker__recv env g sk c w =
     vtl_receive env sk
       \<lparr>recv_cb = Some (\<lambda>c data n. map_option snd (hooker__recv_cb env g c data n)), ctx = c, global_exit = False\<rparr> w"

text \<open>
  One turn of the sending thread. \<open>bpf_map_lookup_elem\<close> reads a 16-byte key where the cookie is
  and writes an 8-byte value over the first half of the key structure, so that the member \<open>dip4\<close>
  is the upper half of the value; \<open>vtl_add_ip4\<close> gets that integer as the address of a string.
  \<open>err_buf\<close> is an uninitialised pointer: a callee that reports an error through it is undefined.
  The turn gives the buffers for the next one.
\<close>

definition heap_string :: "nat \<Rightarrow> 'a world_scheme \<Rightarrow> string option" where
  "heap_string p w = do { b \<leftarrow> heap w p; s \<leftarrow> c_string b; Some (map (\<lambda>x. char_of (unat x)) s) }"

definition VTL_LOCAL_NOTFILL :: int where "VTL_LOCAL_NOTFILL = 0"

definition cookie_lookup :: "env \<Rightarrow> int \<Rightarrow> byte list \<Rightarrow> byte list \<Rightarrow> 'a world_scheme \<Rightarrow> byte list \<times> 'a world_scheme" where
  "cookie_lookup env fd key skey w =
     (let (r, w) = sys env (Bpf (Map_lookup fd key)) w
      in (if rv r = 0 then take 8 (rdata r @ replicate 8 0) @ drop 8 skey else skey, w))"

definition hooker_send_turn ::
    "env \<Rightarrow> hooker_globals \<Rightarrow> nat \<Rightarrow> nat \<Rightarrow> nat \<Rightarrow> nat \<Rightarrow> byte list \<Rightarrow> byte list \<Rightarrow> api_world \<Rightarrow>
     ((byte list \<times> byte list) option \<times> api_world) option" where
  "hooker_send_turn env g sk loc rem io_addr hk_buf skey w = do {
     (numBytes, hk_buf, w) \<leftarrow> recv_from_app env g hk_buf w;
     if numBytes < 0 then Some (None, w)
     else do {
       fd \<leftarrow> at (map_fd g) 1;
       let (skey, w) = cookie_lookup env fd (take 16 hk_buf) skey w;
       dip4 \<leftarrow> heap_string (unat (get32 skey 4)) w;
       w \<leftarrow> vtl_add_ip4 rem dip4 w;
       let io_buffer = drop 8 hk_buf;
       let (ch, w) = vtl_open_channel env loc rem VTL_LOCAL_NOTFILL w;
       if ch = 0 then None
       else do {
         s \<leftarrow> c_string io_buffer;
         (err, w) \<leftarrow> vtl_send env sk ch io_addr (of_nat (length s)) w;
         if err \<noteq> 0 then None else Some (Some (hk_buf, skey), w)
       }
     }
   }"

partial_function (option) hooker__send ::
    "env \<Rightarrow> hooker_globals \<Rightarrow> nat \<Rightarrow> nat \<Rightarrow> nat \<Rightarrow> nat \<Rightarrow> byte list \<Rightarrow> byte list \<Rightarrow> api_world \<Rightarrow> api_world option" where
  "hooker__send env g sk loc rem io_addr hk_buf skey w =
     Option.bind (hooker_send_turn env g sk loc rem io_addr hk_buf skey w)
       (\<lambda>(nxt, w). case nxt of
          None \<Rightarrow> Some w
        | Some (hk_buf, skey) \<Rightarrow> hooker__send env g sk loc rem io_addr hk_buf skey w)"

section \<open>The control group\<close>

text \<open>
  \<open>getmntent\<close> answers with the type of the next mount (text) and its directory (bytes), or with
  a null pointer; how many there are is up to the system.
\<close>

partial_function (option) scan_mounts :: "env \<Rightarrow> 'a world_scheme \<Rightarrow> (string option \<times> 'a world_scheme) option" where
  "scan_mounts env w =
     (let (r, w) = sys env (Sock Getmntent) w
      in if rv r = 0 then Some (None, w)
         else if rtext r = ''cgroup2'' then Some (Some (map (\<lambda>x. char_of (unat x)) (rdata r)), w)
         else scan_mounts env w)"

definition find_cgroup_root :: "env \<Rightarrow> 'a world_scheme \<Rightarrow> (string option \<times> 'a world_scheme) option" where
  "find_cgroup_root env w =
     (let (f, w) = call env (Sock (Fopen ''/proc/mounts'')) w
      in if f = 0 then Some (None, w)
         else do {
           (mnt_dir, w) \<leftarrow> scan_mounts env w;
           let (_, w) = call env (Sock Fclose) w;
           Some (mnt_dir, w)
         })"

text \<open>\<open>open\<close> of a null path fails with \<open>EFAULT\<close>.\<close>

definition get_cgroup_root_fd :: "env \<Rightarrow> 'a world_scheme \<Rightarrow> (int \<times> 'a world_scheme) option" where
  "get_cgroup_root_fd env w = do {
     (path, w) \<leftarrow> find_cgroup_root env w;
     let (cgfd, w) = (case path of None \<Rightarrow> (-1, w) | Some p \<Rightarrow> call env (Sock (Open_path p)) w);
     if cgfd < 0 then Some (-1, w) else Some (cgfd, w)
   }"

section \<open>The main program\<close>

definition close_all :: "env \<Rightarrow> hooker_globals \<Rightarrow> int \<Rightarrow> 'a world_scheme \<Rightarrow> 'a world_scheme" where
  "close_all env g cgfd w =
     (let (_, w) = call env (Sock (Close (sock_redir g))) w;
          (_, w) = call env (Sock (Close (sock_server g))) w;
          (_, w) = call env (Sock (Close cgfd)) w
      in w)"

text \<open>
  From the creation of the threads on. When a creation fails, the thread is joined all the same:
  its handle was never written.
\<close>

definition run_threads :: "env \<Rightarrow> 'a world_scheme \<Rightarrow> (int \<times> 'a world_scheme) option" where
  "run_threads env w =
     (let (err, w) = call env (Spawn ''hooker__send'') w
      in if err \<noteq> 0 then None
         else let (err, w) = call env (Spawn ''hooker__recv'') w
         in if err \<noteq> 0 then None
         else let (err, w) = call env (Join ''hooker__send'') w;
                  (err, w) = call env (Join ''hooker__recv'') w
         in Some (err, w))"

definition run_attached :: "env \<Rightarrow> hooker_globals \<Rightarrow> int \<Rightarrow> int \<Rightarrow> int \<Rightarrow> int \<Rightarrow> 'a world_scheme \<Rightarrow> (int \<times> 'a world_scheme) option" where
  "run_attached env g hk_monitor_fd hk_redir_fd sock_map_fd cgfd w =
     (let (err, w) = call env (Bpf (Prog_attach hk_redir_fd sock_map_fd BPF_SK_MSG_VERDICT 0)) w
      in if err \<noteq> 0 then Some (err, close_all env g cgfd w)
         else let (upd, w) = call env (Bpf (Map_update sock_map_fd (replicate 16 0) (sock_redir g) 0)) w
         in if upd \<noteq> 0
         then let (_, w) = call env (Bpf (Prog_detach hk_redir_fd sock_map_fd BPF_SK_MSG_VERDICT)) w
              in Some (err, close_all env g cgfd w)
         else let (err, w) = call env (Bpf (Prog_attach hk_monitor_fd cgfd BPF_CGROUP_SOCK_OPS BPF_F_ALLOW_MULTI)) w
         in if err \<noteq> 0
         then let (_, w) = call env (Bpf (Prog_detach hk_redir_fd sock_map_fd BPF_SK_MSG_VERDICT)) w
              in Some (err, close_all env g cgfd w)
         else do {
           (err, w) \<leftarrow> run_threads env w;
           let (_, w) = call env (Bpf (Prog_detach hk_monitor_fd cgfd BPF_CGROUP_SOCK_OPS)) w;
           Some (err, close_all env g cgfd w)
         })"

definition BPF_HOOKER_FILENAME :: string where "BPF_HOOKER_FILENAME = ''../bpf/bpf_hooker.o''"

definition hooker_zero :: hooker_globals where
  "hooker_zero = \<lparr>map_fd = [0, 0], prog_fd = [0, 0], sock_server = 0, sock_redir = 0\<rparr>"

definition hooker_main :: "env \<Rightarrow> int \<Rightarrow> 'a world_scheme \<Rightarrow> (int \<times> 'a world_scheme) option" where
  "hooker_main env one w = do {
     (err, g, w) \<leftarrow> load_bpf_progs env BPF_HOOKER_FILENAME hooker_zero w;
     if err < 0 then Some (err, w)
     else do {
       let hk_monitor_fd = prog_fd g ! 0;
       let hk_redir_fd = prog_fd g ! 1;
       let sock_map_fd = map_fd g ! 0;
       (cgfd, w) \<leftarrow> get_cgroup_root_fd env w;
       if cgfd < 0 then Some (-1, w)
       else do {
         let (err, g, w) = hooker_init_sock env one g w;
         if err \<noteq> 0 then Some (err, w)
         else run_attached env g hk_monitor_fd hk_redir_fd sock_map_fd cgfd w
       }
     }
   }"

section \<open>What stays attached\<close>

text \<open>
  The programs that are attached after a sequence of calls: those whose attachment succeeded and
  that no later call asked to detach.
\<close>

fun attached :: "(sys_call \<times> reply) list \<Rightarrow> (int \<times> int \<times> int) set \<Rightarrow> (int \<times> int \<times> int) set" where
  "attached [] S = S"
| "attached ((Bpf (Prog_attach p t ty fl), r) # cs) S = attached cs (if rv r = 0 then insert (p, t, ty) S else S)"
| "attached ((Bpf (Prog_detach p t ty), r) # cs) S = attached cs (S - {(p, t, ty)})"
| "attached (_ # cs) S = attached cs S"

text \<open>Calls that neither attach nor detach nor start a thread.\<close>

fun quiet_call :: "sys_call \<Rightarrow> bool" where
  "quiet_call (Bpf (Prog_attach p t ty fl)) = False"
| "quiet_call (Bpf (Prog_detach p t ty)) = False"
| "quiet_call (Spawn s) = False"
| "quiet_call _ = True"

definition quiet :: "'a world_scheme \<Rightarrow> 'a world_scheme \<Rightarrow> bool" where
  "quiet w w' \<longleftrightarrow> (\<exists>t. trace w' = trace w @ t \<and> (\<forall>cr \<in> set t. quiet_call (fst cr)))"

lemma attached_append: "attached (s @ t) S = attached t (attached s S)"
  by (induction s S rule: attached.induct) simp_all

lemma attached_quiet: "\<forall>cr \<in> set t. quiet_call (fst cr) \<Longrightarrow> attached t S = S"
  by (induction t S rule: attached.induct) auto

lemma quiet_refl [simp]: "quiet w w"
  by (simp add: quiet_def)

lemma quiet_trans: "quiet w1 w2 \<Longrightarrow> quiet w2 w3 \<Longrightarrow> quiet w1 w3"
  by (auto simp: quiet_def)

lemma quiet_sys: "sys env c w = (r, w') \<Longrightarrow> quiet_call c \<Longrightarrow> quiet w w'"
  using sys_effect [of env c w r w'] by (auto simp: quiet_def)

lemma quiet_call: "call env c w = (v, w') \<Longrightarrow> quiet_call c \<Longrightarrow> quiet w w'"
  using call_effect [of env c w v w'] by (auto simp: quiet_def)

lemma quiet_step: "quiet w w1 \<Longrightarrow> quiet_call c \<Longrightarrow> quiet w (snd (call env c w1))"
  using quiet_call [of env c w1 "fst (call env c w1)"] quiet_trans by fastforce

lemma set_types_quiet: "set_types env i ps w = Some w' \<Longrightarrow> quiet w w'"
proof (induction ps arbitrary: i w)
  case (Cons p ps)
  obtain t a where ta: "at prog_type i = Some t" "at prog_attach_type i = Some a"
    using Cons.prems by (auto simp: bind_eq_Some_conv)
  obtain v1 w1 where c1: "call env (Bpf (Set_prog_type p t)) w = (v1, w1)" by fastforce
  obtain v2 w2 where c2: "call env (Bpf (Set_attach_type p a)) w1 = (v2, w2)" by fastforce
  have "set_types env (Suc i) ps w2 = Some w'" using Cons.prems ta c1 c2 by simp
  then have "quiet w2 w'" by (rule Cons.IH)
  then show ?case using quiet_trans [OF quiet_trans [OF quiet_call [OF c1] quiet_call [OF c2]]] by simp
qed simp

lemma load_quiet: "load_bpf_progs env f g w = Some (err, g', w') \<Longrightarrow> quiet w w'"
proof -
  assume l: "load_bpf_progs env f g w = Some (err, g', w')"
  obtain obj w1 where c1: "call env (Bpf (Object_open f)) w = (obj, w1)" by fastforce
  have q1: "quiet w w1" using quiet_call [OF c1] by simp
  show ?thesis
  proof (cases "libbpf_get_error obj = 0")
    case True
    then obtain w2 where w2: "set_types env 0 (obj_programs env obj) w1 = Some w2"
      and "w' = snd (call env (Bpf (Object_load obj)) w2)"
      using l by (auto simp: load_bpf_progs_def c1 bind_eq_Some_conv case_prod_unfold)
    then show ?thesis using quiet_trans [OF q1 set_types_quiet [OF w2]] by (simp add: quiet_step)
  next
    case False
    then show ?thesis using l q1 by (simp add: load_bpf_progs_def c1)
  qed
qed

lemma scan_quiet: "scan_mounts env w = Some y \<Longrightarrow> quiet w (snd y)"
proof (induction rule: scan_mounts.raw_induct [rotated, consumes 1, case_names step])
  case (step scan env w y)
  obtain r w1 where c: "sys env (Sock Getmntent) w = (r, w1)" by fastforce
  have q: "quiet w w1" using quiet_sys [OF c] by simp
  show ?case
  proof (cases "rv r = 0 \<or> rtext r = ''cgroup2''")
    case True
    then show ?thesis using step(2) q by (auto simp: c split: if_splits)
  next
    case False
    then have "scan env w1 = Some y" using step(2) by (simp add: c)
    then show ?thesis using step(1) q quiet_trans by blast
  qed
qed

lemma cgroup_quiet:
  assumes "get_cgroup_root_fd env w = Some (fd, w')"
  shows "quiet w w'"
proof -
  obtain p w1 where f: "find_cgroup_root env w = Some (p, w1)"
    using assms by (auto simp: get_cgroup_root_fd_def bind_eq_Some_conv)
  have "quiet w w1"
  proof (cases "fst (call env (Sock (Fopen ''/proc/mounts'')) w) = 0")
    case True
    then show ?thesis using f by (auto simp: find_cgroup_root_def Let_def case_prod_unfold intro: quiet_step)
  next
    case False
    let ?w = "snd (call env (Sock (Fopen ''/proc/mounts'')) w)"
    obtain y where y: "scan_mounts env ?w = Some y" "w1 = snd (call env (Sock Fclose) (snd y))"
      using f False by (auto simp: find_cgroup_root_def bind_eq_Some_conv Let_def case_prod_unfold)
    have "quiet w ?w" by (simp add: quiet_step)
    then show ?thesis using scan_quiet [OF y(1)] quiet_trans y(2) by (fastforce intro: quiet_step)
  qed
  moreover have "w' = (case p of None \<Rightarrow> w1 | Some x \<Rightarrow> snd (call env (Sock (Open_path x)) w1))"
    using assms f by (auto simp: get_cgroup_root_fd_def Let_def case_prod_unfold split: if_splits option.splits)
  ultimately show ?thesis by (auto intro: quiet_step split: option.splits)
qed

lemma init_quiet: "hooker_init_sock env one g w = (err, g', w') \<Longrightarrow> quiet w w'"
  by (auto simp: hooker_init_sock_def Let_def case_prod_unfold intro!: quiet_step split: if_splits)

text \<open>From the first attachment on: every way out, with the calls made.\<close>

lemma close_all_quiet: "quiet w (close_all env g cgfd w)"
  by (simp add: close_all_def Let_def case_prod_unfold quiet_step)

lemma quiet_append:
  "quiet w w' \<Longrightarrow> \<exists>t. trace w' = trace w @ t \<and> (\<forall>S. attached t S = S) \<and> (\<forall>s. Spawn s \<notin> set (map fst t))"
  unfolding quiet_def using attached_quiet by fastforce

lemma call_obtain:
  obtains v w' r where "call env c w = (v, w')" "v = rv r" "trace w' = trace w @ [(c, r)]"
  using call_effect [OF surjective_pairing, of env c w] by (metis prod.collapse)

lemma run_attached_trace:
  assumes "run_attached env g m p s cg w = Some (err, w')"
  shows "\<exists>t. trace w' = trace w @ t \<and>
     attached t {} = (if Spawn ''hooker__send'' \<in> set (map fst t) then {(p, s, BPF_SK_MSG_VERDICT)} else {})"
proof -
  let ?at = "Bpf (Prog_attach p s BPF_SK_MSG_VERDICT 0)" and ?de = "Bpf (Prog_detach p s BPF_SK_MSG_VERDICT)"
  obtain e1 w1 r1 where 1: "call env ?at w = (e1, w1)" "e1 = rv r1" "trace w1 = trace w @ [(?at, r1)]"
    by (rule call_obtain)
  obtain e2 w2 r2 where 2: "call env (Bpf (Map_update s (replicate 16 0) (sock_redir g) 0)) w1 = (e2, w2)" "e2 = rv r2"
    "trace w2 = trace w1 @ [(Bpf (Map_update s (replicate 16 0) (sock_redir g) 0), r2)]" by (rule call_obtain)
  obtain e3 w3 r3 where 3: "call env ?de w2 = (e3, w3)" "e3 = rv r3" "trace w3 = trace w2 @ [(?de, r3)]" by (rule call_obtain)
  let ?am = "Bpf (Prog_attach m cg BPF_CGROUP_SOCK_OPS BPF_F_ALLOW_MULTI)" and ?dm = "Bpf (Prog_detach m cg BPF_CGROUP_SOCK_OPS)"
  obtain e4 w4 r4 where 4: "call env ?am w2 = (e4, w4)" "e4 = rv r4" "trace w4 = trace w2 @ [(?am, r4)]" by (rule call_obtain)
  obtain e5 w5 r5 where 5: "call env ?de w4 = (e5, w5)" "e5 = rv r5" "trace w5 = trace w4 @ [(?de, r5)]" by (rule call_obtain)
  have cl: "\<exists>t. trace (close_all env g cg v) = trace v @ t \<and> (\<forall>S. attached t S = S) \<and> (\<forall>s. Spawn s \<notin> set (map fst t))" for v :: "'a world_scheme"
    by (rule quiet_append [OF close_all_quiet])
  consider (a) "e1 \<noteq> 0" "w' = close_all env g cg w1" | (b) "e1 = 0" "e2 \<noteq> 0" "w' = close_all env g cg w3"
    | (c) "e1 = 0" "e2 = 0" "e4 \<noteq> 0" "w' = close_all env g cg w5" | (d) "e1 = 0" "e2 = 0" "e4 = 0"
    using assms 1(1) 2(1) 3(1) 4(1) 5(1) by (auto simp: run_attached_def split: if_splits)
  then show ?thesis
  proof cases
    case a
    obtain t where "trace w' = trace w1 @ t" "\<forall>S. attached t S = S" "\<forall>s. Spawn s \<notin> set (map fst t)"
      using cl [of w1] a by blast
    then show ?thesis using a 1
      by (intro exI [of _ "[(?at, r1)] @ t"]) (simp add: attached_append)
  next
    case b
    obtain t where "trace w' = trace w3 @ t" "\<forall>S. attached t S = S" "\<forall>s. Spawn s \<notin> set (map fst t)"
      using cl [of w3] b by blast
    then show ?thesis using b 1 2 3
      by (intro exI [of _ "[(?at, r1), (Bpf (Map_update s (replicate 16 0) (sock_redir g) 0), r2), (?de, r3)] @ t"]) (simp add: attached_append)
  next
    case c
    obtain t where "trace w' = trace w5 @ t" "\<forall>S. attached t S = S" "\<forall>s. Spawn s \<notin> set (map fst t)"
      using cl [of w5] c by blast
    then show ?thesis using c 1 2 4 5
      by (intro exI [of _ "[(?at, r1), (Bpf (Map_update s (replicate 16 0) (sock_redir g) 0), r2), (?am, r4), (?de, r5)] @ t"]) (simp add: attached_append)
  next
    case d
    obtain e6 w6 r6 where 6: "call env (Spawn ''hooker__send'') w4 = (e6, w6)" "e6 = rv r6"
      "trace w6 = trace w4 @ [(Spawn ''hooker__send'', r6)]" by (rule call_obtain)
    obtain e7 w7 r7 where 7: "call env (Spawn ''hooker__recv'') w6 = (e7, w7)" "e7 = rv r7"
      "trace w7 = trace w6 @ [(Spawn ''hooker__recv'', r7)]" by (rule call_obtain)
    obtain e8 w8 r8 where 8: "call env (Join ''hooker__send'') w7 = (e8, w8)" "e8 = rv r8"
      "trace w8 = trace w7 @ [(Join ''hooker__send'', r8)]" by (rule call_obtain)
    obtain e9 w9 r9 where 9: "call env (Join ''hooker__recv'') w8 = (e9, w9)" "e9 = rv r9"
      "trace w9 = trace w8 @ [(Join ''hooker__recv'', r9)]" by (rule call_obtain)
    obtain ea wa ra where 10: "call env ?dm w9 = (ea, wa)" "ea = rv ra" "trace wa = trace w9 @ [(?dm, ra)]" by (rule call_obtain)
    have "w' = close_all env g cg wa"
      using assms d 1(1) 2(1) 4(1) 6(1) 7(1) 8(1) 9(1) 10(1)
      by (auto simp: run_attached_def run_threads_def split: if_splits)
    then obtain t where "trace w' = trace wa @ t" "\<forall>S. attached t S = S" "\<forall>s. Spawn s \<notin> set (map fst t)"
      using cl [of wa] by blast
    moreover have "trace wa = trace w @ [(?at, r1), (Bpf (Map_update s (replicate 16 0) (sock_redir g) 0), r2), (?am, r4),
        (Spawn ''hooker__send'', r6), (Spawn ''hooker__recv'', r7), (Join ''hooker__send'', r8), (Join ''hooker__recv'', r9),
        (?dm, ra)]"
      using 1(3) 2(3) 4(3) 6(3) 7(3) 8(3) 9(3) 10(3) by simp
    ultimately show ?thesis using d 1(2) 4(2)
      by (intro exI [of _ "[(?at, r1), (Bpf (Map_update s (replicate 16 0) (sock_redir g) 0), r2), (?am, r4),
        (Spawn ''hooker__send'', r6), (Spawn ''hooker__recv'', r7), (Join ''hooker__send'', r8), (Join ''hooker__recv'', r9),
        (?dm, ra)] @ t"]) (simp add: attached_append BPF_SK_MSG_VERDICT_def BPF_CGROUP_SOCK_OPS_def)
  qed
qed


definition hook_env :: env where
  "hook_env = good_env\<lparr>answer := (\<lambda>t c. case c of
        Sock (Fopen s) \<Rightarrow> good_reply 1
      | Sock Getmntent \<Rightarrow> \<lparr>rv = 1, rerr = 0, rdata = [47], rtext = ''cgroup2''\<rparr>
      | _ \<Rightarrow> good_reply 0),
     obj_programs := (\<lambda>ob. [5, 6]), obj_maps := (\<lambda>ob. [7, 8]),
     map_name := (\<lambda>m. if m = 7 then ''SOCK_MAP'' else ''COOKIE_MAP'')\<rparr>"

lemma hook_env_simps:
  "answer hook_env t (Sock (Fopen s)) = good_reply 1"
  "answer hook_env t (Sock Getmntent) = \<lparr>rv = 1, rerr = 0, rdata = [47], rtext = ''cgroup2''\<rparr>"
  "answer hook_env t (Bpf b) = good_reply 0" "answer hook_env t (Spawn s) = good_reply 0" "answer hook_env t (Join s) = good_reply 0"
  "answer hook_env t (Sock (Socket a a2 a3)) = good_reply 0" "answer hook_env t (Sock (Setsockopt_int fd a a2 a3)) = good_reply 0"
  "answer hook_env t (Sock (Ioctl_int fd a a2)) = good_reply 0" "answer hook_env t (Sock (Bind fd ad p)) = good_reply 0"
  "answer hook_env t (Sock (Listen fd n)) = good_reply 0" "answer hook_env t (Sock (Connect fd ad p)) = good_reply 0"
  "answer hook_env t (Sock (Accept fd)) = good_reply 0" "answer hook_env t (Sock (Open_path s)) = good_reply 0"
  "answer hook_env t (Sock Fclose) = good_reply 0" "answer hook_env t (Sock (Close fd)) = good_reply 0"
  "obj_programs hook_env ob = [5, 6]" "obj_maps hook_env ob = [7, 8]"
  "map_name hook_env m = (if m = 7 then ''SOCK_MAP'' else ''COOKIE_MAP'')" "prog_fd_of hook_env q = 8" "map_fd_of hook_env q = 7"
  "rv (good_reply v) = v" "rerr (good_reply v) = 0"
  by (simp_all add: hook_env_def good_reply_def) (simp_all add: good_env_def)

lemma hook_call: "call hook_env c w = (rv (answer hook_env (trace w) c), w\<lparr>trace := trace w @ [(c, answer hook_env (trace w) c)]\<rparr>)"
  if "rerr (answer hook_env (trace w) c) = 0"
  using that by (simp add: call_def sys_def Let_def)

lemma hook_env_run:
  "\<exists>err w'. hooker_main hook_env 1 init_world = Some (err, w') \<and> Spawn ''hooker__send'' \<in> set (map fst (trace w'))"
proof -
  have sc: "scan_mounts hook_env w = Some (Some ''/'', w\<lparr>trace := trace w @ [(Sock Getmntent, answer hook_env (trace w) (Sock Getmntent))]\<rparr>)"
    for w :: world
    by (subst scan_mounts.simps) (simp add: sys_def hook_env_simps Let_def char_of_def bit_0)
  show ?thesis
    by (simp add: hooker_main_def load_bpf_progs_def hooker_zero_def BPF_HOOKER_FILENAME_def libbpf_get_error_def
        hook_call hook_env_simps at_def put_at_def prog_type_def prog_attach_type_def map_names_def bpf_map__fd_def
        get_cgroup_root_fd_def find_cgroup_root_def sc hooker_init_sock_def run_attached_def run_threads_def close_all_def)
qed


section \<open>Receiving from and sending to an application\<close>

text \<open>
  Receiving a message. With fewer than 1024 bytes the buffer holds them and a terminating
  zero; with exactly 1024 the terminator is written one byte behind the buffer; a failed \<open>recv\<close>
  is reported by the (positive) error number, which the sending thread, looking for a negative
  result, does not take for a failure.
\<close>

lemma recv_from_app_bounds:
  assumes "r = answer env (trace w) (Sock (Recv (sock_redir g) MAX_DATA_SIZE))"
    and "length buf = MAX_DATA_SIZE" and "rv r \<le> int MAX_DATA_SIZE" and "length (rdata r) = nat (rv r)"
  shows "(recv_from_app env g buf w = None \<longleftrightarrow> rv r = 1024) \<and>
     (0 \<le> rv r \<and> rv r < 1024 \<longrightarrow> (\<exists>buf' w'. recv_from_app env g buf w = Some (0, buf', w') \<and>
        length buf' = MAX_DATA_SIZE \<and> take (Suc (length (rdata r))) buf' = rdata r @ [0])) \<and>
     (rv r < 0 \<and> 0 < rerr r \<longrightarrow> (\<exists>buf' w'. recv_from_app env g buf w = Some (rerr r, buf', w') \<and> \<not> rerr r < 0))"
proof -
  obtain w1 where s: "sys env (Sock (Recv (sock_redir g) MAX_DATA_SIZE)) w = (r, w1)"
    "errno w1 = (if rerr r = 0 then errno w else rerr r)" by (simp add: sys_def assms(1) Let_def)
  define z where "z = replicate 8 0 @ drop 8 buf"
  let ?b = "rdata r @ drop (length (rdata r)) z"
  have m1: "memcpy buf 0 (replicate 8 0) = Some z" using assms(2) by (simp add: memcpy_def MAX_DATA_SIZE_def z_def)
  have lz: "length z = 1024" using assms(2) by (simp add: MAX_DATA_SIZE_def z_def)
  have m2: "memcpy z 0 (take (nat (rv r)) (rdata r @ replicate (nat (rv r)) 0)) = Some ?b"
    using lz assms(3,4) by (simp add: memcpy_def MAX_DATA_SIZE_def)
  have r: "recv_from_app' env g z w = Some (rv r, if rv r \<le> 0 then z else ?b, w1)"
    using m2 by (simp add: recv_from_app'_def s)
  have lb: "length (if rv r \<le> 0 then z else ?b) = 1024" using lz assms(3,4) by (simp add: MAX_DATA_SIZE_def nat_le_iff)
  have eq: "recv_from_app env g buf w = (if rv r < 0 then Some (errno w1, z, w1)
      else map_option (\<lambda>b. (0, b, w1)) (memcpy (if rv r \<le> 0 then z else ?b) (nat (rv r)) [0]))"
    using m1 r by (simp add: recv_from_app_def map_conv_bind_option comp_def)
  obtain b0 where b0: "b0 = (if rv r \<le> 0 then z else ?b)" by simp
  have l0: "length b0 = 1024" using lb unfolding b0 .
  have fit: "take (Suc (length (rdata r))) b' = rdata r @ [0] \<and> length b' = 1024"
    if "memcpy b0 (nat (rv r)) [0] = Some b'" for b'
  proof -
    have "take (nat (rv r)) b0 = rdata r" using assms(4) by (auto simp: b0)
    then show ?thesis using that l0 assms(4) by (auto simp: memcpy_Some_iff)
  qed
  have none: "memcpy b0 (nat (rv r)) [0] = None \<longleftrightarrow> rv r = 1024" if "0 \<le> rv r"
    using l0 assms(3) that by (auto simp: memcpy_def MAX_DATA_SIZE_def)
  show ?thesis
  proof (cases "rv r < 0")
    case True
    then show ?thesis using eq s(2) by auto
  next
    case False
    then have e: "recv_from_app env g buf w = map_option (\<lambda>b. (0, b, w1)) (memcpy b0 (nat (rv r)) [0])"
      using eq b0 by simp
    show ?thesis using False none fit unfolding e MAX_DATA_SIZE_def
      by (cases "memcpy b0 (nat (rv r)) [0]") auto
  qed
qed

text \<open>
  Forwarding a payload to the application. The callback sends the bytes up to the first zero
  byte of the memory the payload points to and nothing else: the payload's length plays no part.
  A transmission that succeeds is reported as a failure, since the number of bytes sent is taken
  for an error code.
\<close>

lemma recv_cb_forwards:
  assumes "0 \<in> set data"
  shows "\<exists>ret w'. let s = takeWhile (\<lambda>b. b \<noteq> 0) data; r = answer env (trace w) (Sock (Send (sock_redir g) s)) in
     hooker__recv_cb env g w data n = Some (ret, w') \<and> calls w' = calls w @ [Sock (Send (sock_redir g) s)] \<and>
     (0 < rv r \<longrightarrow> ret = Some (-1)) \<and> (rv r = 0 \<longrightarrow> ret = None)"
  using assms
  by (auto simp: hooker__recv_cb_def send_to_app_def send_to_app'_def c_string_def call_def sys_def Let_def calls_def)

section \<open>The sending thread never sends\<close>

text \<open>
  The sending thread cannot forward a single message. \<open>vtl_sock\<close> is declared and never
  assigned, and it is passed where a context is expected; whatever comes in, a turn of the loop
  that gets past the reception is undefined.
\<close>

lemma hooker_send_undefined:
  assumes "recv_from_app env g hk_buf w = Some (n, hk_buf', w1)" and "0 \<le> n"
  shows "hooker_send_turn env g 0 loc rem io_addr hk_buf skey w = None \<and>
     hooker__send env g 0 loc rem io_addr hk_buf skey w = None"
proof -
  have v: "vtl_send env 0 ch d k w = None" for ch d k and w :: api_world
    by (auto simp: vtl_send_def get_def Let_def bind_eq_None_conv split: option.splits)
  have "hooker_send_turn env g 0 loc rem io_addr hk_buf skey w = None"
    using assms by (auto simp: hooker_send_turn_def v Let_def case_prod_unfold bind_eq_None_conv split: option.splits)
  then show ?thesis by (simp add: hooker__send.simps)
qed

section \<open>Finding the control group\<close>

text \<open>
  \<open>getmntent\<close> as documented: successive calls give the successive entries of the table, then a
  null pointer. The position is the number of calls made since the table was opened.
\<close>

fun mounts_read :: "sys_call list \<Rightarrow> nat" where
  "mounts_read [] = 0"
| "mounts_read (Sock (Fopen f) # cs) = 0"
| "mounts_read (Sock Getmntent # cs) = Suc (mounts_read cs)"
| "mounts_read (_ # cs) = mounts_read cs"

definition mount_reply :: "(string \<times> string) list \<Rightarrow> nat \<Rightarrow> reply" where
  "mount_reply ms k =
     (if k < length ms
      then \<lparr>rv = 1, rerr = 0, rdata = map (\<lambda>c. of_nat (of_char c)) (snd (ms ! k)), rtext = fst (ms ! k)\<rparr>
      else good_reply 0)"

definition mount_table :: "env \<Rightarrow> (string \<times> string) list \<Rightarrow> bool" where
  "mount_table env ms \<longleftrightarrow> (\<forall>t. answer env t (Sock Getmntent) = mount_reply ms (mounts_read (rev (map fst t))))"

lemma string_bytes: "map (\<lambda>x. char_of (unat x)) (map (\<lambda>c. of_nat (of_char c) :: byte) s) = s"
proof -
  have "char_of (unat (of_nat (of_char c) :: byte)) = c" for c :: char
  proof -
    have "of_char c < (256 :: nat)" by simp
    then show ?thesis by (simp add: unat_of_nat)
  qed
  then show ?thesis by (simp add: comp_def)
qed

lemma scan_finds:
  assumes "mount_table env ms" and "mounts_read (rev (calls w)) = k" and "k \<le> length ms"
  shows "\<exists>w'. scan_mounts env w = Some (map_option snd (List.find (\<lambda>m. fst m = ''cgroup2'') (drop k ms)), w')"
  using assms(2,3)
proof (induction "length ms - k" arbitrary: k w)
  case 0
  then have "answer env (trace w) (Sock Getmntent) = good_reply 0"
    using assms(1) by (simp add: mount_table_def mount_reply_def calls_def)
  then show ?case using 0 by (subst scan_mounts.simps) (simp add: sys_def good_reply_def Let_def)
next
  case (Suc n)
  then have k: "k < length ms" by simp
  let ?r = "mount_reply ms k"
  have a: "answer env (trace w) (Sock Getmntent) = ?r"
    using assms(1) Suc.prems(1) by (simp add: mount_table_def calls_def)
  let ?w = "w\<lparr>trace := trace w @ [(Sock Getmntent, ?r)]\<rparr>"
  have s: "sys env (Sock Getmntent) w = (?r, ?w)"
    using k by (simp add: sys_def a Let_def mount_reply_def)
  have d: "drop k ms = ms ! k # drop (Suc k) ms" using k by (simp add: Cons_nth_drop_Suc)
  show ?case
  proof (cases "fst (ms ! k) = ''cgroup2''")
    case True
    then show ?thesis using k s string_bytes
      by (subst scan_mounts.simps) (simp add: d mount_reply_def comp_def)
  next
    case False
    have "mounts_read (rev (calls ?w)) = Suc k" using Suc.prems(1) by (simp add: calls_def)
    then obtain w' where "scan_mounts env ?w =
        Some (map_option snd (List.find (\<lambda>m. fst m = ''cgroup2'') (drop (Suc k) ms)), w')"
      using Suc.hyps(1) [of "Suc k" ?w] Suc.hyps(2) k by (metis Suc_diff_Suc Suc_leI diff_Suc_Suc nat.inject)
    then show ?thesis using k s False by (subst scan_mounts.simps) (simp add: d mount_reply_def)
  qed
qed


definition mount_env :: env where
  "mount_env = good_env\<lparr>answer := (\<lambda>t c. case c of
      Sock Getmntent \<Rightarrow> mount_reply [(''proc'', ''/proc''), (''cgroup2'', ''/sys/fs/cgroup'')] (mounts_read (rev (map fst t)))
    | _ \<Rightarrow> good_reply 1)\<rparr>"


end
