(* ===== verification/Dashboard.thy ===== *)
theory Dashboard
  imports Launcher
begin

text \<open>
  The two dashboards, \<^verbatim>\<open>src/dashboard/dashboard.c\<close> (ncurses) and
  \<^verbatim>\<open>src/dashboard/dashboard_simple.c\<close> (standard input): menus, the choice of a device, and
  the calls of the launcher they lead to. What is drawn on the screen is not modelled; what is
  read is. \<open>None\<close> is undefined behaviour, or waiting for input that does not come; an
  uninitialised variable is \<open>None\<close> inside the state, and using it is undefined.
\<close>

section \<open>Transport functions\<close>

definition BASIC_TF :: int where "BASIC_TF = 1"
definition ARQ_TF :: int where "ARQ_TF = 2"
definition INPUT_MODE :: int where "INPUT_MODE = 1"
definition OUTPUT_MODE :: int where "OUTPUT_MODE = 2"
definition BPF_TC_FILENAME :: string where "BPF_TC_FILENAME = ''../src/bpf/bpf_tc.o''"
definition BPF_XDP_FILENAME :: string where "BPF_XDP_FILENAME = ''../src/bpf/bpf_xdp.o''"

record tr_function =
  tf_index :: "int option"
  tf_mode :: "int option"
  tf_interface :: "string option"

record cursor =
  posy :: int
  posx :: int

definition zero_xdp_cfg :: xdp_config where
  "zero_xdp_cfg = \<lparr>cfg_filename = [], cfg_progsec = [], cfg_pin_dir = [], cfg_do_unload = False, cfg_reuse_maps = False,
     cfg_xdp_flags = 0, cfg_ifindex = 0, cfg_ifname = [], cfg_ifname_buf = [], cfg_err_buf = []\<rparr>"

definition zero_tc_cfg :: tc_config where
  "zero_tc_cfg = \<lparr>tc_filename = [], tc_dev = [], tc_err_buf = []\<rparr>"

section \<open>Menus of the ncurses dashboard\<close>

definition KEY_DOWN :: int where "KEY_DOWN = 258"
definition KEY_UP :: int where "KEY_UP = 259"

datatype dash_input =
    Key int        \<comment> \<open>what \<open>wgetch\<close> returns\<close>
  | Line string    \<comment> \<open>the line \<open>wscanw\<close> works on\<close>

definition menu_key :: "int \<Rightarrow> int \<Rightarrow> int \<Rightarrow> int" where
  "menu_key n_choices key cur_row =
     (if key = KEY_UP then (if cur_row = 1 then n_choices else cur_row - 1)
      else if key = KEY_DOWN then (if cur_row = n_choices then 1 else cur_row + 1)
      else cur_row)"

fun menu_loop :: "int \<Rightarrow> int \<Rightarrow> dash_input list \<Rightarrow> (int \<times> dash_input list) option" where
  "menu_loop n_choices cur_row (Key key # ks) =
     (let cur_row = menu_key n_choices key cur_row
      in if key \<noteq> 10 \<and> key \<noteq> 13 \<and> key \<noteq> 459 then menu_loop n_choices cur_row ks
         else Some (cur_row, ks))"
| "menu_loop n_choices cur_row _ = None"

definition print_menu :: "int \<Rightarrow> dash_input list \<Rightarrow> (int \<times> dash_input list) option" where
  "print_menu n_choices ks = menu_loop n_choices 1 ks"

definition start_choices :: "string list" where
  "start_choices = [''1 - Deploy a Transport Function'', ''2 - Remove a Transport Function'', ''3 - Exit'']"
definition tf_choices :: "string list" where
  "tf_choices = [''1 - Basic TF'', ''2 - ARQ TF'']"
definition mode_choices :: "string list" where
  "mode_choices = [''1 - Input mode (reception ~~ XDP)'', ''2 - Output mode (emission ~~ TC)'']"

definition dashboard__start :: "dash_input list \<Rightarrow> (int \<times> dash_input list) option" where
  "dashboard__start ks = print_menu (int (length start_choices)) ks"

definition dashboard__list_tf :: "dash_input list \<Rightarrow> (int \<times> dash_input list) option" where
  "dashboard__list_tf ks = print_menu (int (length tf_choices)) ks"

definition dashboard__mode :: "dash_input list \<Rightarrow> (int \<times> dash_input list) option" where
  "dashboard__mode ks = print_menu (int (length mode_choices)) ks"

section \<open>Choosing a device\<close>

text \<open>
  \<open>scanf("%d")\<close> on a text: white space is skipped, then an optional sign and digits are taken. A
  mismatch stores nothing and consumes nothing more; a value beyond an \<open>int\<close> is undefined, and so
  is not known either.
\<close>

definition is_space :: "char \<Rightarrow> bool" where
  "is_space c \<longleftrightarrow> c = CHR 0x20 \<or> (9 \<le> (of_char c :: nat) \<and> (of_char c :: nat) \<le> 13)"

definition is_digit :: "char \<Rightarrow> bool" where
  "is_digit c \<longleftrightarrow> 48 \<le> (of_char c :: nat) \<and> (of_char c :: nat) \<le> 57"

definition digits_value :: "string \<Rightarrow> int" where
  "digits_value ds = foldl (\<lambda>n c. 10 * n + (of_char c - 48)) 0 ds"

definition scan_sign :: "string \<Rightarrow> int \<times> string" where
  "scan_sign s = (case s of c # r \<Rightarrow> if c = CHR ''-'' then (-1, r) else if c = CHR ''+'' then (1, r) else (1, s) | [] \<Rightarrow> (1, s))"

definition scanf_d :: "string \<Rightarrow> int option \<times> string" where
  "scanf_d s =
     (let s = dropWhile is_space s; (sg, s) = scan_sign s;
          ds = takeWhile is_digit s; v = sg * digits_value ds
      in if ds = [] then (None, s)
         else (if - 2147483648 \<le> v \<and> v < 2147483648 then Some v else None, dropWhile is_digit s))"

text \<open>
  The table of device names has 100 rows of 100 bytes and is filled from row 1. A device without
  a name leaves its row uninitialised.
\<close>

fun fill_devs :: "nat \<Rightarrow> string option list \<Rightarrow> (nat \<rightharpoonup> string) \<Rightarrow> (nat \<rightharpoonup> string) option" where
  "fill_devs count [] devs = Some devs"
| "fill_devs count (None # ds) devs = fill_devs (Suc count) ds devs"
| "fill_devs count (Some name # ds) devs =
     (if count < 100 \<and> length name < 100 then fill_devs (Suc count) ds (devs(count \<mapsto> name)) else None)"

definition pick_dev :: "(nat \<rightharpoonup> string) \<Rightarrow> int option \<Rightarrow> string option" where
  "pick_dev devs n = do {
     n \<leftarrow> n;
     name \<leftarrow> (if 0 \<le> n then devs (nat n) else None);
     strcpy 20 name
   }"

text \<open>
  \<open>found t\<close> is the list of devices that \<open>pcap_findalldevs\<close> delivers after the calls \<open>t\<close>. When it
  fails the program ends with status 1: the interface is \<open>Inl 1\<close>. The cursor ends two lines below
  the list; a device without a name takes no line.
\<close>

definition named :: "string option list \<Rightarrow> nat" where
  "named ds = length (filter (\<lambda>d. d \<noteq> None) ds)"

definition dashboard_interface' ::
    "env \<Rightarrow> ((sys_call \<times> reply) list \<Rightarrow> string option list) \<Rightarrow> cursor \<Rightarrow> int \<Rightarrow> int \<Rightarrow> dash_input list \<Rightarrow> 'a world_scheme \<Rightarrow>
     ((int + string) \<times> cursor \<times> dash_input list \<times> 'a world_scheme) option" where
  "dashboard_interface' env found curs y x ks w =
     (let alldevs = found (trace w); (ret, w) = call env (Sock Findalldevs) w
      in if ret \<noteq> 0 then Some (Inl 1, curs, ks, w)
         else do {
           devs \<leftarrow> fill_devs 1 alldevs Map.empty;
           (l, ks) \<leftarrow> (case ks of Line l # ks \<Rightarrow> Some (l, ks) | _ \<Rightarrow> None);
           interface \<leftarrow> pick_dev devs (fst (scanf_d l));
           Some (Inr interface, curs\<lparr>posy := y + 2 + int (named alldevs) + 1, posx := x\<rparr>, ks, w)
         })"

definition dashboard__interface ::
    "env \<Rightarrow> ((sys_call \<times> reply) list \<Rightarrow> string option list) \<Rightarrow> cursor \<Rightarrow> dash_input list \<Rightarrow> 'a world_scheme \<Rightarrow>
     ((int + string) \<times> cursor \<times> dash_input list \<times> 'a world_scheme) option" where
  "dashboard__interface env found curs ks w = dashboard_interface' env found curs 3 2 ks w"

section \<open>Deploying and removing\<close>

definition SKB_FLAGS :: u32 where
  "SKB_FLAGS = ((0 AND NOT XDP_FLAGS_MODES) OR XDP_FLAGS_SKB_MODE)"

definition deploy_basic :: "env \<Rightarrow> cursor \<Rightarrow> int \<Rightarrow> string \<Rightarrow> 'a world_scheme \<Rightarrow> (int \<times> cursor \<times> 'a world_scheme) option" where
  "deploy_basic env curs mode interface w =
     (let y = posy curs + 1
      in if mode = INPUT_MODE then do {
           (ret, _, w) \<leftarrow> launcher__deploy_xdp_xsk env zero_xdp_cfg BPF_XDP_FILENAME interface SKB_FLAGS w;
           if ret < 0 then Some (-1, curs, w) else Some (0, curs\<lparr>posy := y\<rparr>, w)
         }
         else if mode = OUTPUT_MODE then do {
           (ret, _, w) \<leftarrow> launcher__deploy_tc env zero_tc_cfg BPF_TC_FILENAME interface TC_EGRESS_ATTACH w;
           if ret < 0 then Some (-1, curs, w) else Some (0, curs\<lparr>posy := y\<rparr>, w)
         }
         else Some (-1, curs, w))"

definition dashboard__deploy :: "env \<Rightarrow> cursor \<Rightarrow> tr_function \<Rightarrow> 'a world_scheme \<Rightarrow> (int \<times> cursor \<times> 'a world_scheme) option" where
  "dashboard__deploy env curs tf w = do {
     i \<leftarrow> tf_index tf;
     if i = BASIC_TF then do {
       m \<leftarrow> tf_mode tf;
       f \<leftarrow> tf_interface tf;
       deploy_basic env curs m f w
     }
     else Some (-1, curs, w)
   }"

definition remove_basic :: "env \<Rightarrow> cursor \<Rightarrow> int \<Rightarrow> string \<Rightarrow> 'a world_scheme \<Rightarrow> (int \<times> cursor \<times> 'a world_scheme) option" where
  "remove_basic env curs mode interface w =
     (let y = posy curs + 1
      in if mode = INPUT_MODE then
           (let (ret, w) = launcher__remove_xdp env interface SKB_FLAGS w
            in if ret < 0 then Some (-1, curs, w) else Some (0, curs\<lparr>posy := y\<rparr>, w))
         else if mode = OUTPUT_MODE then do {
           (ret, _, w) \<leftarrow> launcher__remove_tc env zero_tc_cfg interface TC_EGRESS_ATTACH w;
           if ret < 0 then Some (-1, curs, w) else Some (0, curs\<lparr>posy := y\<rparr>, w)
         }
         else Some (-1, curs, w))"

definition dashboard__remove :: "env \<Rightarrow> cursor \<Rightarrow> tr_function \<Rightarrow> 'a world_scheme \<Rightarrow> (int \<times> cursor \<times> 'a world_scheme) option" where
  "dashboard__remove env curs tf w = do {
     i \<leftarrow> tf_index tf;
     if i = BASIC_TF then do {
       m \<leftarrow> tf_mode tf;
       f \<leftarrow> tf_interface tf;
       remove_basic env curs m f w
     }
     else Some (-1, curs, w)
   }"
section \<open>The main loop\<close>

record dash_state =
  dash_keys :: "dash_input list"
  dash_curs :: cursor
  dash_tf :: tr_function

definition wgetch :: "dash_state \<Rightarrow> dash_state option" where
  "wgetch s = (case dash_keys s of Key k # ks \<Rightarrow> Some (s\<lparr>dash_keys := ks\<rparr>) | _ \<Rightarrow> None)"

text \<open>
  One turn: the result is \<open>Inl\<close> the exit status when the program ends inside, else the value of
  \<open>menu_choice\<close> at the test of the loop.
\<close>

definition dash_deploy ::
    "env \<Rightarrow> ((sys_call \<times> reply) list \<Rightarrow> string option list) \<Rightarrow> dash_state \<Rightarrow> 'a world_scheme \<Rightarrow>
     ((int + int) \<times> dash_state \<times> 'a world_scheme) option" where
  "dash_deploy env found s w = do {
     (i, ks) \<leftarrow> dashboard__list_tf (dash_keys s);
     (m, ks) \<leftarrow> dashboard__mode ks;
     (f, c, ks, w) \<leftarrow> dashboard__interface env found (dash_curs s) ks w;
     case f of
       Inl code \<Rightarrow> Some (Inl code, s, w)
     | Inr f \<Rightarrow> do {
         let tf = \<lparr>tf_index = Some i, tf_mode = Some m, tf_interface = Some f\<rparr>;
         (ret, c, w) \<leftarrow> dashboard__deploy env c tf w;
         let s = \<lparr>dash_keys = ks, dash_curs = c, dash_tf = tf\<rparr>;
         if ret < 0 then Some (Inr 3, s, w)
         else do { s \<leftarrow> wgetch s; Some (Inr 1, s, w) }
       }
   }"

definition dash_remove ::
    "env \<Rightarrow> ((sys_call \<times> reply) list \<Rightarrow> string option list) \<Rightarrow> dash_state \<Rightarrow> 'a world_scheme \<Rightarrow>
     ((int + int) \<times> dash_state \<times> 'a world_scheme) option" where
  "dash_remove env found s w = do {
     (m, ks) \<leftarrow> dashboard__mode (dash_keys s);
     (f, c, ks, w) \<leftarrow> dashboard__interface env found (dash_curs s) ks w;
     case f of
       Inl code \<Rightarrow> Some (Inl code, s, w)
     | Inr f \<Rightarrow> do {
         let tf = (dash_tf s)\<lparr>tf_mode := Some m, tf_interface := Some f\<rparr>;
         (ret, c, w) \<leftarrow> dashboard__remove env c tf w;
         let s = \<lparr>dash_keys = ks, dash_curs = c, dash_tf = tf\<rparr>;
         if ret < 0 then Some (Inr 3, s, w)
         else do { s \<leftarrow> wgetch s; Some (Inr 2, s, w) }
       }
   }"

definition dash_turn ::
    "env \<Rightarrow> ((sys_call \<times> reply) list \<Rightarrow> string option list) \<Rightarrow> dash_state \<Rightarrow> 'a world_scheme \<Rightarrow>
     ((int + int) \<times> dash_state \<times> 'a world_scheme) option" where
  "dash_turn env found s w = do {
     (menu_choice, ks) \<leftarrow> dashboard__start (dash_keys s);
     let s = s\<lparr>dash_keys := ks\<rparr>;
     if menu_choice = 1 then dash_deploy env found s w
     else if menu_choice = 2 then dash_remove env found s w
     else Some (Inr menu_choice, s, w)
   }"

partial_function (option) dash_loop ::
    "env \<Rightarrow> ((sys_call \<times> reply) list \<Rightarrow> string option list) \<Rightarrow> dash_state \<Rightarrow> 'a world_scheme \<Rightarrow> (int \<times> 'a world_scheme) option" where
  "dash_loop env found s w =
     Option.bind (dash_turn env found s w)
       (\<lambda>(r, s, w). case r of Inl code \<Rightarrow> Some (code, w)
          | Inr menu_choice \<Rightarrow> if menu_choice \<noteq> 3 then dash_loop env found s w else Some (0, w))"

text \<open>\<open>has_colors\<close> decides whether the program goes on; the locals of \<open>main\<close> are uninitialised.\<close>

definition dash_init :: "dash_input list \<Rightarrow> dash_state" where
  "dash_init ks = \<lparr>dash_keys = ks, dash_curs = \<lparr>posy = 0, posx = 0\<rparr>,
     dash_tf = \<lparr>tf_index = None, tf_mode = None, tf_interface = None\<rparr>\<rparr>"

definition dashboard_main ::
    "env \<Rightarrow> ((sys_call \<times> reply) list \<Rightarrow> string option list) \<Rightarrow> bool \<Rightarrow> dash_input list \<Rightarrow> 'a world_scheme \<Rightarrow> (int \<times> 'a world_scheme) option" where
  "dashboard_main env found has_colors ks w =
     (if \<not> has_colors then Some (1, w) else dash_loop env found (dash_init ks) w)"

section \<open>The dashboard on standard input\<close>

definition simple_start :: "string \<Rightarrow> int option \<times> string" where "simple_start inp = scanf_d inp"
definition simple_list_tf :: "string \<Rightarrow> int option \<times> string" where "simple_list_tf inp = scanf_d inp"
definition simple_mode :: "string \<Rightarrow> int option \<times> string" where "simple_mode inp = scanf_d inp"

definition simple_interface ::
    "env \<Rightarrow> ((sys_call \<times> reply) list \<Rightarrow> string option list) \<Rightarrow> string \<Rightarrow> 'a world_scheme \<Rightarrow>
     ((int + string) \<times> string \<times> 'a world_scheme) option" where
  "simple_interface env found inp w =
     (let alldevs = found (trace w); (ret, w) = call env (Sock Findalldevs) w
      in if ret \<noteq> 0 then Some (Inl 1, inp, w)
         else do {
           devs \<leftarrow> fill_devs 1 alldevs Map.empty;
           let (n, inp) = scanf_d inp;
           interface \<leftarrow> pick_dev devs n;
           Some (Inr interface, inp, w)
         })"

definition simple_deploy_basic :: "env \<Rightarrow> int \<Rightarrow> string \<Rightarrow> 'a world_scheme \<Rightarrow> (int \<times> 'a world_scheme) option" where
  "simple_deploy_basic env mode interface w =
     (if mode = INPUT_MODE then do {
        (ret, _, w) \<leftarrow> launcher__deploy_xdp_xsk env zero_xdp_cfg BPF_XDP_FILENAME interface SKB_FLAGS w;
        if ret < 0 then Some (-1, w) else Some (0, w)
      }
      else if mode = OUTPUT_MODE then do {
        (ret, _, w) \<leftarrow> launcher__deploy_tc env zero_tc_cfg BPF_TC_FILENAME interface TC_EGRESS_ATTACH w;
        if ret < 0 then Some (-1, w) else Some (0, w)
      }
      else Some (-1, w))"

definition simple_deploy :: "env \<Rightarrow> tr_function \<Rightarrow> 'a world_scheme \<Rightarrow> (int \<times> 'a world_scheme) option" where
  "simple_deploy env tf w = do {
     i \<leftarrow> tf_index tf;
     if i = BASIC_TF then do { m \<leftarrow> tf_mode tf; f \<leftarrow> tf_interface tf; simple_deploy_basic env m f w }
     else Some (-1, w)
   }"

definition simple_remove_basic :: "env \<Rightarrow> int \<Rightarrow> string \<Rightarrow> 'a world_scheme \<Rightarrow> (int \<times> 'a world_scheme) option" where
  "simple_remove_basic env mode interface w =
     (if mode = INPUT_MODE then
        (let (ret, w) = launcher__remove_xdp env interface SKB_FLAGS w
         in if ret < 0 then Some (-1, w) else Some (0, w))
      else if mode = OUTPUT_MODE then do {
        (ret, _, w) \<leftarrow> launcher__remove_tc env zero_tc_cfg interface TC_EGRESS_ATTACH w;
        if ret < 0 then Some (-1, w) else Some (0, w)
      }
      else Some (-1, w))"

definition simple_remove :: "env \<Rightarrow> tr_function \<Rightarrow> 'a world_scheme \<Rightarrow> (int \<times> 'a world_scheme) option" where
  "simple_remove env tf w = do {
     i \<leftarrow> tf_index tf;
     if i = BASIC_TF then do { m \<leftarrow> tf_mode tf; f \<leftarrow> tf_interface tf; simple_remove_basic env m f w }
     else Some (-1, w)
   }"

text \<open>
  After a successful operation one character is read with \<open>scanf("%c")\<close>, which skips nothing; at
  the end of the input the variable keeps its value, and \<open>c\<close> starts uninitialised.
\<close>

definition clear_screen :: "env \<Rightarrow> 'a world_scheme \<Rightarrow> 'a world_scheme" where
  "clear_screen env w = snd (call env (Sock (System ''clear'')) w)"

definition ask_return :: "env \<Rightarrow> int \<Rightarrow> tr_function \<Rightarrow> char option \<Rightarrow> string \<Rightarrow> 'a world_scheme \<Rightarrow>
    ((int + int) \<times> tr_function \<times> char option \<times> string \<times> 'a world_scheme) option" where
  "ask_return env menu_choice tf c inp w =
     (let (c, inp) = (case inp of [] \<Rightarrow> (c, inp) | x # r \<Rightarrow> (Some x, r))
      in do {
        x \<leftarrow> c;
        let menu_choice = (if x = CHR ''E'' then 3 else menu_choice);
        Some (Inr menu_choice, tf, c, inp, clear_screen env w)
      })"

definition simple_turn ::
    "env \<Rightarrow> ((sys_call \<times> reply) list \<Rightarrow> string option list) \<Rightarrow> tr_function \<Rightarrow> char option \<Rightarrow> string \<Rightarrow> 'a world_scheme \<Rightarrow>
     ((int + int) \<times> tr_function \<times> char option \<times> string \<times> 'a world_scheme) option" where
  "simple_turn env found tf c inp w =
     (let (menu_choice, inp) = simple_start inp
      in do {
        menu_choice \<leftarrow> menu_choice;
        let w = clear_screen env w;
        if menu_choice = 1 then
          (let (i, inp) = simple_list_tf inp; (m, inp) = simple_mode inp
           in do {
             (f, inp, w) \<leftarrow> simple_interface env found inp w;
             case f of
               Inl code \<Rightarrow> Some (Inl code, tf, c, inp, w)
             | Inr f \<Rightarrow> do {
                 let tf = \<lparr>tf_index = i, tf_mode = m, tf_interface = Some f\<rparr>;
                 (ret, w) \<leftarrow> simple_deploy env tf w;
                 if ret < 0 then Some (Inr 3, tf, c, inp, w) else ask_return env menu_choice tf c inp w
               }
           })
        else if menu_choice = 2 then
          (let (m, inp) = simple_mode inp
           in do {
             (f, inp, w) \<leftarrow> simple_interface env found inp w;
             case f of
               Inl code \<Rightarrow> Some (Inl code, tf, c, inp, w)
             | Inr f \<Rightarrow> do {
                 let tf = tf\<lparr>tf_mode := m, tf_interface := Some f\<rparr>;
                 (ret, w) \<leftarrow> simple_remove env tf w;
                 if ret < 0 then Some (Inr 3, tf, c, inp, w) else ask_return env menu_choice tf c inp w
               }
           })
        else Some (Inr menu_choice, tf, c, inp, w)
      })"

partial_function (option) simple_loop ::
    "env \<Rightarrow> ((sys_call \<times> reply) list \<Rightarrow> string option list) \<Rightarrow> tr_function \<Rightarrow> char option \<Rightarrow> string \<Rightarrow> 'a world_scheme \<Rightarrow>
     (int \<times> 'a world_scheme) option" where
  "simple_loop env found tf c inp w =
     Option.bind (simple_turn env found tf c inp w)
       (\<lambda>(r, tf, c, inp, w). case r of Inl code \<Rightarrow> Some (code, w)
          | Inr menu_choice \<Rightarrow> if menu_choice \<noteq> 3 then simple_loop env found tf c inp w else Some (0, w))"

definition simple_main ::
    "env \<Rightarrow> ((sys_call \<times> reply) list \<Rightarrow> string option list) \<Rightarrow> string \<Rightarrow> 'a world_scheme \<Rightarrow> (int \<times> 'a world_scheme) option" where
  "simple_main env found inp w =
     simple_loop env found \<lparr>tf_index = None, tf_mode = None, tf_interface = None\<rparr> None inp (clear_screen env w)"

section \<open>The menus\<close>

definition moves :: "int list \<Rightarrow> int" where
  "moves js = int (count_list js KEY_DOWN) - int (count_list js KEY_UP)"

lemma menu_key_row:
  assumes "0 < n" and "1 \<le> row" and "row \<le> n"
  shows "menu_key n k row = 1 + (row - 1 + moves [k]) mod n"
proof -
  have up: "(row - 2) mod n = (if row = 1 then n - 1 else row - 2)"
    using assms mod_pos_pos_trivial [of "row - 2" n] by (cases "n = 1") (auto simp: zmod_minus1)
  have down: "row mod n = (if row = n then 0 else row)" and stay: "(row - 1) mod n = row - 1"
    using assms mod_pos_pos_trivial [of row n] mod_pos_pos_trivial [of "row - 1" n] by auto
  consider "k = KEY_UP" | "k = KEY_DOWN" | "k \<noteq> KEY_UP" "k \<noteq> KEY_DOWN" by blast
  then show ?thesis
    by cases (simp_all add: menu_key_def moves_def KEY_UP_def KEY_DOWN_def up down stay)
qed

lemma moves_Cons: "moves (k # js) = moves [k] + moves js"
  by (simp add: moves_def)

lemma menu_loop_row:
  assumes "menu_loop n row ks = Some (r, ks')" and "0 < n" and "1 \<le> row" and "row \<le> n"
  shows "\<exists>js. ks = map Key js @ ks' \<and> js \<noteq> [] \<and> r = 1 + (row - 1 + moves js) mod n"
  using assms
proof (induction n row ks rule: menu_loop.induct)
  case (1 n row key ks)
  let ?row = "menu_key n key row"
  have row: "?row = 1 + (row - 1 + moves [key]) mod n" using menu_key_row 1(3-5) by blast
  have b: "1 \<le> ?row" "?row \<le> n" using row pos_mod_bound [OF \<open>0 < n\<close>, of "row - 1 + moves [key]"] pos_mod_sign [OF \<open>0 < n\<close>, of "row - 1 + moves [key]"] by linarith+
  show ?case
  proof (cases "key \<noteq> 10 \<and> key \<noteq> 13 \<and> key \<noteq> 459")
    case True
    then have "menu_loop n ?row ks = Some (r, ks')" using 1(2) by (simp add: Let_def)
    then obtain js where js: "ks = map Key js @ ks'" "r = 1 + (?row - 1 + moves js) mod n"
      using 1(1) True b \<open>0 < n\<close> by blast
    have "r = 1 + (row - 1 + moves (key # js)) mod n"
      using js(2) row moves_Cons [of key js] by (simp add: mod_simps algebra_simps)
    then show ?thesis using js(1) by (intro exI [of _ "key # js"]) simp
  next
    case False
    then have "r = ?row" "ks' = ks" using 1(2) by (auto simp: Let_def)
    then show ?thesis using row by (intro exI [of _ "[key]"]) simp
  qed
qed simp_all

text \<open>
  A menu returns one of its rows, and the one the keys point to: the arrow keys move the mark
  around the rows as on a circle, so that the answer is the difference of the numbers of down and
  up keys, counted from the first row modulo the number of rows. The keys used up are exactly
  those pressed up to and including the confirming one.
\<close>

lemma print_menu_row:
  assumes "print_menu n ks = Some (row, ks')" and "0 < n"
  shows "1 \<le> row \<and> row \<le> n \<and>
     (\<exists>js. ks = map Key js @ ks' \<and> js \<noteq> [] \<and>
        row = 1 + (int (count_list js KEY_DOWN) - int (count_list js KEY_UP)) mod n)"
proof -
  obtain js where "ks = map Key js @ ks'" "js \<noteq> []" "row = 1 + moves js mod n"
    using menu_loop_row [of n 1 ks row ks'] assms by (auto simp: print_menu_def)
  then show ?thesis using assms(2) pos_mod_bound [OF assms(2), of "moves js"] pos_mod_sign [OF assms(2), of "moves js"]
    unfolding moves_def by (intro conjI exI [of _ js]) simp_all
qed

section \<open>The device\<close>

lemma fill_devs_result:
  "fill_devs k ds devs = Some devs' \<Longrightarrow>
     devs' i = (if k \<le> i \<and> i < k + length ds \<and> ds ! (i - k) \<noteq> None then ds ! (i - k) else devs i)"
proof (induction k ds devs rule: fill_devs.induct)
  case (2 k ds devs)
  show ?case using 2(1) 2(2) by (cases "i = k") (auto simp: nth_Cons' Suc_diff_Suc)
next
  case (3 k n ds devs)
  then have f: "fill_devs (Suc k) ds (devs(k \<mapsto> n)) = Some devs'" and l: "k < 100 \<and> length n < 100" by (auto split: if_splits)
  show ?case using 3(1) [OF l f] by (cases "i = k") (auto simp: nth_Cons' Suc_diff_Suc)
qed auto

lemma fill_devs_ok:
  "k + length ds \<le> 100 \<Longrightarrow> \<forall>d \<in> set ds. \<forall>n. d = Some n \<longrightarrow> length n < 100 \<Longrightarrow> fill_devs k ds devs \<noteq> None"
  by (induction k ds devs rule: fill_devs.induct) auto

lemma pick_dev_iff:
  assumes "\<And>i. devs i = (if 1 \<le> i \<and> i \<le> length ds then ds ! (i - 1) else None)"
  shows "pick_dev devs v = Some name \<longleftrightarrow>
     (\<exists>n. v = Some n \<and> 1 \<le> n \<and> n \<le> int (length ds) \<and> ds ! (nat n - 1) = Some name \<and> length name < 20)"
proof (cases v)
  case (Some n)
  have "(1 \<le> nat n \<and> nat n \<le> length ds) = (1 \<le> n \<and> n \<le> int (length ds))" by linarith
  then show ?thesis using Some assms [of "nat n"]
    by (auto simp: pick_dev_def bind_eq_Some_conv strcpy_Some_iff split: if_splits)
qed (simp add: pick_dev_def)

text \<open>
  The choice of a device is not checked. With a table of at most 99 devices, a number that
  was typed selects a device exactly when it is the number of a listed device that has a name of
  fewer than 20 characters; on every other number, and on a line that is not a number, the program
  copies from outside the table or past the end of the interface name.
\<close>

lemma device_choice:
  assumes "ds = found (trace w)" and "length ds < 100" and "\<forall>n. Some n \<in> set ds \<longrightarrow> length n < 100"
    and "rv (answer env (trace w) (Sock Findalldevs)) = 0"
  shows "(\<exists>inp' w'. simple_interface env found inp w = Some (Inr name, inp', w')) \<longleftrightarrow>
     (\<exists>n. fst (scanf_d inp) = Some n \<and> 1 \<le> n \<and> n \<le> int (length ds) \<and> ds ! (nat n - 1) = Some name \<and> length name < 20)"
proof -
  obtain devs where d: "fill_devs 1 ds Map.empty = Some devs"
    using fill_devs_ok [of 1 ds Map.empty] assms(2,3) by fastforce
  have devs: "devs i = (if 1 \<le> i \<and> i \<le> length ds then ds ! (i - 1) else None)" for i
    using fill_devs_result [OF d, of i] by auto
  have c: "fst (call env (Sock Findalldevs) w) = 0"
    using assms(4) by (simp add: call_def sys_def Let_def)
  have "simple_interface env found inp w = Some (Inr name, inp', w') \<longleftrightarrow>
      pick_dev devs (fst (scanf_d inp)) = Some name \<and> inp' = snd (scanf_d inp) \<and> w' = snd (call env (Sock Findalldevs) w)"
    for inp' w'
    using c d assms(1) by (auto simp: simple_interface_def bind_eq_Some_conv case_prod_unfold Let_def simp del: One_nat_def)
  then have "(\<exists>inp' w'. simple_interface env found inp w = Some (Inr name, inp', w')) \<longleftrightarrow>
      pick_dev devs (fst (scanf_d inp)) = Some name" by simp
  also have "\<dots> \<longleftrightarrow> (\<exists>n. fst (scanf_d inp) = Some n \<and> 1 \<le> n \<and> n \<le> int (length ds) \<and>
      ds ! (nat n - 1) = Some name \<and> length name < 20)"
    by (rule pick_dev_iff [OF devs])
  finally show ?thesis .
qed

section \<open>Deploying and removing\<close>

lemma skb_flags: "SKB_FLAGS = XDP_FLAGS_SKB_MODE" "SKB_FLAGS AND XDP_FLAGS_UPDATE_IF_NOEXIST = 0"
  by (simp_all add: SKB_FLAGS_def XDP_FLAGS_SKB_MODE_def XDP_FLAGS_UPDATE_IF_NOEXIST_def)


definition tf_basic_in :: tr_function where
  "tf_basic_in = \<lparr>tf_index = Some BASIC_TF, tf_mode = Some INPUT_MODE, tf_interface = Some ''eth0''\<rparr>"


lemma interface_exit:
  "dashboard__interface env found c ks w = Some (Inl code, r) \<Longrightarrow> code = 1 \<and> rv (answer env (trace w) (Sock Findalldevs)) \<noteq> 0"
  by (auto simp: dashboard__interface_def dashboard_interface'_def Let_def call_def sys_def bind_eq_Some_conv split: if_splits)

text \<open>
  Removing before deploying is undefined. The menu for a removal never asks which function to
  remove, and the variable is set by a deployment only: if the first thing the user chooses is a
  removal, the program either ends because the devices cannot be listed, or uses the
  uninitialised index.
\<close>

lemma remove_first_undefined:
  assumes "dashboard__start ks = Some (2, ks1)"
  shows "dashboard_main env found True ks w = None \<or>
     rv (answer env (trace w) (Sock Findalldevs)) \<noteq> 0 \<and> (\<exists>w'. dashboard_main env found True ks w = Some (1, w'))"
proof -
  let ?s = "(dash_init ks)\<lparr>dash_keys := ks1\<rparr>"
  have rem: "dashboard__remove env c ((dash_tf ?s)\<lparr>tf_mode := m, tf_interface := f\<rparr>) w = None" for c m f and w :: "'a world_scheme"
    by (simp add: dashboard__remove_def dash_init_def)
  have t: "dash_turn env found (dash_init ks) w = dash_remove env found ?s w"
    using assms by (simp add: dash_turn_def dash_init_def)
  have l: "dashboard_main env found True ks w = Option.bind (dash_remove env found ?s w)
       (\<lambda>(r, s, w). case r of Inl code \<Rightarrow> Some (code, w)
          | Inr menu_choice \<Rightarrow> if menu_choice \<noteq> 3 then dash_loop env found s w else Some (0, w))"
    unfolding dashboard_main_def by (simp add: dash_loop.simps [of env found "dash_init ks"] t)
  consider "dash_remove env found ?s w = None" |
    s' w' where "dash_remove env found ?s w = Some (Inl 1, s', w')" "rv (answer env (trace w) (Sock Findalldevs)) \<noteq> 0"
  proof (cases "dashboard__mode ks1")
    case None
    then show ?thesis using that(1) by (simp add: dash_remove_def)
  next
    case (Some mk)
    then obtain m k where mk: "dashboard__mode ks1 = Some (m, k)" by (cases mk) simp
    show ?thesis
    proof (cases "dashboard__interface env found (dash_curs ?s) k w")
      case None
      then show ?thesis using that(1) mk by (simp add: dash_remove_def)
    next
      case (Some r)
      obtain f c k2 w2 where r: "r = (f, c, k2, w2)" by (cases r)
      show ?thesis
      proof (cases f)
        case (Inl code)
        then have i: "dashboard__interface env found (dash_curs ?s) k w = Some (Inl code, c, k2, w2)" using Some r by simp
        then have "dash_remove env found ?s w = Some (Inl code, ?s, w2)" using mk by (simp add: dash_remove_def)
        then show ?thesis using that(2) interface_exit [OF i] by blast
      next
        case (Inr x)
        then have "dash_remove env found ?s w = None" using mk Some r rem by (simp add: dash_remove_def dash_init_def)
        then show ?thesis by (rule that(1))
      qed
    qed
  qed
  then show ?thesis by cases (auto simp: l)
qed

section \<open>The question at the end\<close>

lemma scanf_d_digits:
  assumes "list_all is_digit ds" and "ds \<noteq> []" and "\<not> is_digit c"
  shows "snd (scanf_d (ds @ c # rest)) = c # rest"
proof -
  obtain d r where d: "ds = d # r" "is_digit d" using assms(1,2) by (cases ds) auto
  have ns: "\<not> is_space d" "d \<noteq> CHR ''-''" "d \<noteq> CHR ''+''" using d(2) by (auto simp: is_digit_def is_space_def)
  have tw: "takeWhile is_digit (ds @ c # rest) = ds" "dropWhile is_digit (ds @ c # rest) = c # rest"
    using assms(1,3) by (simp_all add: list_all_iff takeWhile_append2 dropWhile_append2)
  have sk: "dropWhile is_space (ds @ c # rest) = ds @ c # rest" "scan_sign (ds @ c # rest) = (1, ds @ c # rest)"
    using ns by (simp_all add: d(1) scan_sign_def)
  show ?thesis using assms(2) by (simp add: scanf_d_def sk tw Let_def)
qed

text \<open>
  Typing \<open>E\<close> to leave never works: the number of the device was read with \<open>%d\<close>, which leaves the
  end of its line in the input, and that is the character the question reads.
\<close>

lemma exit_answer_ignored:
  assumes "list_all is_digit ds" and "ds \<noteq> []"
    and "simple_interface env found (ds @ CHR 0x0A # rest) w = Some (Inr f, inp, w1)"
  shows "ask_return env menu_choice tf c inp w2 = Some (Inr menu_choice, tf, Some (CHR 0x0A), rest, clear_screen env w2)"
proof -
  have "\<not> is_digit (CHR 0x0A)" by (simp add: is_digit_def)
  then have "snd (scanf_d (ds @ CHR 0x0A # rest)) = CHR 0x0A # rest" by (rule scanf_d_digits [OF assms(1,2)])
  then have "inp = CHR 0x0A # rest"
    using assms(3) by (auto simp: simple_interface_def bind_eq_Some_conv case_prod_unfold Let_def split: if_splits)
  then show ?thesis by (simp add: ask_return_def)
qed

end
