(* ===== verification/Xsk_Prog.thy ===== *)
theory Xsk_Prog
  imports Prelude
begin

unbundle bit_operations_syntax

text \<open>
  The XDP program that libbpf installs for an AF\_XDP socket. \<^verbatim>\<open>xsk_load_xdp_prog\<close> of
  \<^verbatim>\<open>lib/libbpf/src/xsk.c\<close> assembles it instruction by instruction with the macros of
  \<^verbatim>\<open>include/linux/filter.h\<close>, and gives the C program it stands for in a comment. Here are the
  macros, the assembled program, a machine for the instructions it uses, and the proof that the
  machine computes what the comment says.
\<close>

section \<open>The instruction macros\<close>

definition BPF_LD :: u8 where "BPF_LD = 0x00"
definition BPF_LDX :: u8 where "BPF_LDX = 0x01"
definition BPF_ST :: u8 where "BPF_ST = 0x02"
definition BPF_STX :: u8 where "BPF_STX = 0x03"
definition BPF_ALU :: u8 where "BPF_ALU = 0x04"
definition BPF_JMP :: u8 where "BPF_JMP = 0x05"
definition BPF_ALU64 :: u8 where "BPF_ALU64 = 0x07"
definition BPF_W :: u8 where "BPF_W = 0x00"
definition BPF_DW :: u8 where "BPF_DW = 0x18"
definition BPF_IMM :: u8 where "BPF_IMM = 0x00"
definition BPF_MEM :: u8 where "BPF_MEM = 0x60"
definition BPF_ADD :: u8 where "BPF_ADD = 0x00"
definition BPF_MOV :: u8 where "BPF_MOV = 0xb0"
definition BPF_JEQ :: u8 where "BPF_JEQ = 0x10"
definition BPF_CALL :: u8 where "BPF_CALL = 0x80"
definition BPF_EXIT :: u8 where "BPF_EXIT = 0x90"
definition BPF_K :: u8 where "BPF_K = 0x00"
definition BPF_X :: u8 where "BPF_X = 0x08"
definition BPF_PSEUDO_MAP_FD :: nat where "BPF_PSEUDO_MAP_FD = 1"
definition BPF_PSEUDO_MAP_VALUE :: nat where "BPF_PSEUDO_MAP_VALUE = 2"
definition BPF_FUNC_map_lookup_elem :: int where "BPF_FUNC_map_lookup_elem = 1"
definition BPF_FUNC_redirect_map :: int where "BPF_FUNC_redirect_map = 51"

lemmas bpf_consts = BPF_LD_def BPF_LDX_def BPF_ST_def BPF_STX_def BPF_ALU_def BPF_JMP_def BPF_ALU64_def BPF_W_def
  BPF_DW_def BPF_IMM_def BPF_MEM_def BPF_ADD_def BPF_MOV_def BPF_JEQ_def BPF_CALL_def BPF_EXIT_def BPF_K_def BPF_X_def
  BPF_PSEUDO_MAP_FD_def BPF_PSEUDO_MAP_VALUE_def BPF_FUNC_map_lookup_elem_def BPF_FUNC_redirect_map_def

definition BPF_SIZE :: "u8 \<Rightarrow> u8" where "BPF_SIZE code = code AND 0x18"
definition BPF_OP :: "u8 \<Rightarrow> u8" where "BPF_OP code = code AND 0xf0"

definition BPF_ALU64_IMM :: "u8 \<Rightarrow> nat \<Rightarrow> int \<Rightarrow> bpf_insn" where
  "BPF_ALU64_IMM opc dst immv =
     \<lparr>bi_code = BPF_ALU64 OR BPF_OP opc OR BPF_K, bi_dst = dst, bi_src = 0, bi_off = 0, bi_imm = immv\<rparr>"

definition BPF_MOV64_IMM :: "nat \<Rightarrow> int \<Rightarrow> bpf_insn" where
  "BPF_MOV64_IMM dst immv =
     \<lparr>bi_code = BPF_ALU64 OR BPF_MOV OR BPF_K, bi_dst = dst, bi_src = 0, bi_off = 0, bi_imm = immv\<rparr>"

definition BPF_EXIT_INSN :: bpf_insn where
  "BPF_EXIT_INSN = \<lparr>bi_code = BPF_JMP OR BPF_EXIT, bi_dst = 0, bi_src = 0, bi_off = 0, bi_imm = 0\<rparr>"

definition BPF_EMIT_CALL :: "int \<Rightarrow> bpf_insn" where
  "BPF_EMIT_CALL func = \<lparr>bi_code = BPF_JMP OR BPF_CALL, bi_dst = 0, bi_src = 0, bi_off = 0, bi_imm = func - 0\<rparr>"

definition BPF_LDX_MEM :: "u8 \<Rightarrow> nat \<Rightarrow> nat \<Rightarrow> int \<Rightarrow> bpf_insn" where
  "BPF_LDX_MEM sz dst src off =
     \<lparr>bi_code = BPF_LDX OR BPF_SIZE sz OR BPF_MEM, bi_dst = dst, bi_src = src, bi_off = off, bi_imm = 0\<rparr>"

definition BPF_STX_MEM :: "u8 \<Rightarrow> nat \<Rightarrow> nat \<Rightarrow> int \<Rightarrow> bpf_insn" where
  "BPF_STX_MEM sz dst src off =
     \<lparr>bi_code = BPF_STX OR BPF_SIZE sz OR BPF_MEM, bi_dst = dst, bi_src = src, bi_off = off, bi_imm = 0\<rparr>"

definition BPF_ST_MEM :: "u8 \<Rightarrow> nat \<Rightarrow> int \<Rightarrow> int \<Rightarrow> bpf_insn" where
  "BPF_ST_MEM sz dst off immv =
     \<lparr>bi_code = BPF_ST OR BPF_SIZE sz OR BPF_MEM, bi_dst = dst, bi_src = 0, bi_off = off, bi_imm = immv\<rparr>"

definition BPF_MOV64_REG :: "nat \<Rightarrow> nat \<Rightarrow> bpf_insn" where
  "BPF_MOV64_REG dst src =
     \<lparr>bi_code = BPF_ALU64 OR BPF_MOV OR BPF_X, bi_dst = dst, bi_src = src, bi_off = 0, bi_imm = 0\<rparr>"

definition BPF_MOV32_IMM :: "nat \<Rightarrow> int \<Rightarrow> bpf_insn" where
  "BPF_MOV32_IMM dst immv =
     \<lparr>bi_code = BPF_ALU OR BPF_MOV OR BPF_K, bi_dst = dst, bi_src = 0, bi_off = 0, bi_imm = immv\<rparr>"

text \<open>Two instructions: the second one carries the high half of the constant.\<close>

definition BPF_LD_IMM64_RAW_FULL :: "nat \<Rightarrow> nat \<Rightarrow> int \<Rightarrow> int \<Rightarrow> int \<Rightarrow> int \<Rightarrow> bpf_insn list" where
  "BPF_LD_IMM64_RAW_FULL dst src off1 off2 imm1 imm2 =
     [\<lparr>bi_code = BPF_LD OR BPF_DW OR BPF_IMM, bi_dst = dst, bi_src = src, bi_off = off1, bi_imm = imm1\<rparr>,
      \<lparr>bi_code = 0, bi_dst = 0, bi_src = 0, bi_off = off2, bi_imm = imm2\<rparr>]"

definition BPF_LD_MAP_FD :: "nat \<Rightarrow> int \<Rightarrow> bpf_insn list" where
  "BPF_LD_MAP_FD dst map_fd = BPF_LD_IMM64_RAW_FULL dst BPF_PSEUDO_MAP_FD 0 0 map_fd 0"

definition BPF_LD_MAP_VALUE :: "nat \<Rightarrow> int \<Rightarrow> int \<Rightarrow> bpf_insn list" where
  "BPF_LD_MAP_VALUE dst map_fd value_off = BPF_LD_IMM64_RAW_FULL dst BPF_PSEUDO_MAP_VALUE 0 0 map_fd value_off"

definition BPF_JMP_IMM :: "u8 \<Rightarrow> nat \<Rightarrow> int \<Rightarrow> int \<Rightarrow> bpf_insn" where
  "BPF_JMP_IMM opc dst immv off =
     \<lparr>bi_code = BPF_JMP OR BPF_OP opc OR BPF_K, bi_dst = dst, bi_src = 0, bi_off = off, bi_imm = immv\<rparr>"

lemmas bpf_macros = BPF_SIZE_def BPF_OP_def BPF_ALU64_IMM_def BPF_MOV64_IMM_def BPF_EXIT_INSN_def BPF_EMIT_CALL_def
  BPF_LDX_MEM_def BPF_STX_MEM_def BPF_ST_MEM_def BPF_MOV64_REG_def BPF_MOV32_IMM_def BPF_LD_IMM64_RAW_FULL_def
  BPF_LD_MAP_FD_def BPF_LD_MAP_VALUE_def BPF_JMP_IMM_def

section \<open>The program\<close>

text \<open>The array \<open>prog\<close> of \<open>xsk_load_xdp_prog\<close>, for a map descriptor.\<close>

definition xsk_prog :: "int \<Rightarrow> bpf_insn list" where
  "xsk_prog fd =
     [BPF_LDX_MEM BPF_W 1 1 16,
      BPF_STX_MEM BPF_W 10 1 (-4),
      BPF_MOV64_REG 2 10,
      BPF_ALU64_IMM BPF_ADD 2 (-4)] @
     BPF_LD_MAP_FD 1 fd @
     [BPF_EMIT_CALL BPF_FUNC_map_lookup_elem,
      BPF_MOV64_REG 1 0,
      BPF_MOV32_IMM 0 2,
      BPF_JMP_IMM BPF_JEQ 1 0 5] @
     BPF_LD_MAP_FD 1 fd @
     [BPF_LDX_MEM BPF_W 2 10 (-4),
      BPF_MOV32_IMM 3 0,
      BPF_EMIT_CALL BPF_FUNC_redirect_map,
      BPF_EXIT_INSN]"

section \<open>A machine for it\<close>

text \<open>
  A register holds a number or a pointer: into the context, relative to the top of the stack, to
  a map, or to an element of a map. The program sees the context as 32-bit words, and the kernel
  answers the two helper functions: whether an element of a map exists, and the verdict of a
  redirection. What the verifier would refuse is \<^term>\<open>None\<close>: the use of an undefined register
  (a call leaves the registers 1 to 5 undefined), an access outside the context or the stack, a
  backward jump, running off the end.
\<close>

datatype bval = Num u64 | Ctx int | Stack int | Map_ptr int | Elem

record bpf_kernel =
  ctx_word :: "int \<Rightarrow> u32 option"
  map_has :: "int \<Rightarrow> u32 \<Rightarrow> bool"
  redirect_verdict :: "int \<Rightarrow> u32 \<Rightarrow> u64 \<Rightarrow> u64"

record bpf_state =
  pc :: nat
  regs :: "nat \<Rightarrow> bval option"
  stack_words :: "int \<Rightarrow> u32 option"

definition in_stack :: "int \<Rightarrow> bool" where
  "in_stack a \<longleftrightarrow> - 512 \<le> a \<and> a \<le> - 4 \<and> a mod 4 = 0"

definition load_word :: "bpf_kernel \<Rightarrow> bpf_state \<Rightarrow> bval \<Rightarrow> int \<Rightarrow> u32 option" where
  "load_word k s p off =
     (case p of
        Ctx a \<Rightarrow> ctx_word k (a + off)
      | Stack a \<Rightarrow> if in_stack (a + off) then stack_words s (a + off) else None
      | _ \<Rightarrow> None)"

definition helper_call :: "bpf_kernel \<Rightarrow> bpf_state \<Rightarrow> int \<Rightarrow> bval option" where
  "helper_call k s f =
     (if f = BPF_FUNC_map_lookup_elem then
        (case (regs s 1, regs s 2) of
           (Some (Map_ptr m), Some p) \<Rightarrow>
             map_option (\<lambda>key. if map_has k m key then Elem else Num 0) (load_word k s p 0)
         | _ \<Rightarrow> None)
      else if f = BPF_FUNC_redirect_map then
        (case (regs s 1, regs s 2, regs s 3) of
           (Some (Map_ptr m), Some (Num key), Some (Num fl)) \<Rightarrow> Some (Num (redirect_verdict k m (ucast key) fl))
         | _ \<Rightarrow> None)
      else None)"

definition clobber :: "(nat \<Rightarrow> bval option) \<Rightarrow> nat \<Rightarrow> bval option" where
  "clobber rs = (\<lambda>r. if r \<in> {1..5} then None else rs r)"

definition set_reg :: "nat \<Rightarrow> bval \<Rightarrow> bpf_state \<Rightarrow> bpf_state" where
  "set_reg r v s = s\<lparr>regs := (regs s)(r \<mapsto> v)\<rparr>"

text \<open>One instruction other than \<open>exit\<close>: the new state and how many instructions to advance.\<close>

definition bpf_step :: "bpf_kernel \<Rightarrow> bpf_insn \<Rightarrow> bpf_state \<Rightarrow> (nat \<times> bpf_state) option" where
  "bpf_step k i s =
     (if bi_code i = 0x61 then do {
        p \<leftarrow> regs s (bi_src i); v \<leftarrow> load_word k s p (bi_off i);
        Some (1, set_reg (bi_dst i) (Num (ucast v)) s)
      }
      else if bi_code i = 0x63 then
        (case (regs s (bi_dst i), regs s (bi_src i)) of
           (Some (Stack a), Some (Num v)) \<Rightarrow>
             if in_stack (a + bi_off i)
             then Some (1, s\<lparr>stack_words := (stack_words s)(a + bi_off i \<mapsto> ucast v)\<rparr>) else None
         | _ \<Rightarrow> None)
      else if bi_code i = 0xbf then do { v \<leftarrow> regs s (bi_src i); Some (1, set_reg (bi_dst i) v s) }
      else if bi_code i = 0x07 then
        (case regs s (bi_dst i) of
           Some (Num v) \<Rightarrow> Some (1, set_reg (bi_dst i) (Num (v + of_int (bi_imm i))) s)
         | Some (Stack a) \<Rightarrow> Some (1, set_reg (bi_dst i) (Stack (a + bi_imm i)) s)
         | _ \<Rightarrow> None)
      else if bi_code i = 0x18 then
        (if bi_src i = BPF_PSEUDO_MAP_FD then Some (2, set_reg (bi_dst i) (Map_ptr (bi_imm i)) s) else None)
      else if bi_code i = 0xb4 then Some (1, set_reg (bi_dst i) (Num (ucast (of_int (bi_imm i) :: u32))) s)
      else if bi_code i = 0x85 then do {
        v \<leftarrow> helper_call k s (bi_imm i);
        Some (1, s\<lparr>regs := (clobber (regs s))(0 \<mapsto> v)\<rparr>)
      }
      else if bi_code i = 0x15 then
        (case regs s (bi_dst i) of
           Some (Num v) \<Rightarrow> if bi_off i < 0 then None
                           else Some (if v = of_int (bi_imm i) then 1 + nat (bi_off i) else 1, s)
         | Some Elem \<Rightarrow> if bi_imm i = 0 then Some (1, s) else None
         | _ \<Rightarrow> None)
      else None)"

text \<open>A program runs from its start; every instruction advances, so that it ends.\<close>

function bpf_run :: "bpf_kernel \<Rightarrow> bpf_insn list \<Rightarrow> bpf_state \<Rightarrow> u64 option" where
  "bpf_run k prog s =
     (if length prog \<le> pc s then None
      else if bi_code (prog ! pc s) = 0x95 then
        (case regs s 0 of Some (Num v) \<Rightarrow> Some v | _ \<Rightarrow> None)
      else case bpf_step k (prog ! pc s) s of
             None \<Rightarrow> None
           | Some (n, s') \<Rightarrow> if n = 0 then None else bpf_run k prog (s'\<lparr>pc := pc s + n\<rparr>))"
  by pat_completeness auto
termination
  by (relation "measure (\<lambda>(k, prog, s). length prog - pc s)") auto

declare bpf_run.simps [simp del]

definition bpf_start :: bpf_state where
  "bpf_start = \<lparr>pc = 0, regs = [1 \<mapsto> Ctx 0, 10 \<mapsto> Stack 0], stack_words = Map.empty\<rparr>"

section \<open>The C program of the comment\<close>

definition XDP_PASS_verdict :: u64 where "XDP_PASS_verdict = 2"

definition xdp_sock_prog_comment :: "bpf_kernel \<Rightarrow> int \<Rightarrow> u32 \<Rightarrow> u64" where
  "xdp_sock_prog_comment k xsks_map index =
     (if map_has k xsks_map index then redirect_verdict k xsks_map index 0 else XDP_PASS_verdict)"

lemma xsk_prog_insns:
  "length (xsk_prog fd) = 16"
  "xsk_prog fd ! 0 = \<lparr>bi_code = 0x61, bi_dst = 1, bi_src = 1, bi_off = 16, bi_imm = 0\<rparr>"
  "xsk_prog fd ! 1 = \<lparr>bi_code = 0x63, bi_dst = 10, bi_src = 1, bi_off = -4, bi_imm = 0\<rparr>"
  "xsk_prog fd ! 2 = \<lparr>bi_code = 0xbf, bi_dst = 2, bi_src = 10, bi_off = 0, bi_imm = 0\<rparr>"
  "xsk_prog fd ! 3 = \<lparr>bi_code = 0x07, bi_dst = 2, bi_src = 0, bi_off = 0, bi_imm = -4\<rparr>"
  "xsk_prog fd ! 4 = \<lparr>bi_code = 0x18, bi_dst = 1, bi_src = 1, bi_off = 0, bi_imm = fd\<rparr>"
  "xsk_prog fd ! 6 = \<lparr>bi_code = 0x85, bi_dst = 0, bi_src = 0, bi_off = 0, bi_imm = 1\<rparr>"
  "xsk_prog fd ! 7 = \<lparr>bi_code = 0xbf, bi_dst = 1, bi_src = 0, bi_off = 0, bi_imm = 0\<rparr>"
  "xsk_prog fd ! 8 = \<lparr>bi_code = 0xb4, bi_dst = 0, bi_src = 0, bi_off = 0, bi_imm = 2\<rparr>"
  "xsk_prog fd ! 9 = \<lparr>bi_code = 0x15, bi_dst = 1, bi_src = 0, bi_off = 5, bi_imm = 0\<rparr>"
  "xsk_prog fd ! 10 = \<lparr>bi_code = 0x18, bi_dst = 1, bi_src = 1, bi_off = 0, bi_imm = fd\<rparr>"
  "xsk_prog fd ! 12 = \<lparr>bi_code = 0x61, bi_dst = 2, bi_src = 10, bi_off = -4, bi_imm = 0\<rparr>"
  "xsk_prog fd ! 13 = \<lparr>bi_code = 0xb4, bi_dst = 3, bi_src = 0, bi_off = 0, bi_imm = 0\<rparr>"
  "xsk_prog fd ! 14 = \<lparr>bi_code = 0x85, bi_dst = 0, bi_src = 0, bi_off = 0, bi_imm = 51\<rparr>"
  "xsk_prog fd ! 15 = \<lparr>bi_code = 0x95, bi_dst = 0, bi_src = 0, bi_off = 0, bi_imm = 0\<rparr>"
  by (simp_all add: xsk_prog_def bpf_macros bpf_consts)



lemma bpf_step_simps:
  "bpf_step k \<lparr>bi_code = 0x61, bi_dst = d, bi_src = r, bi_off = off, bi_imm = i\<rparr> s =
     do { p \<leftarrow> regs s r; v \<leftarrow> load_word k s p off; Some (1, set_reg d (Num (ucast v)) s) }"
  "bpf_step k \<lparr>bi_code = 0xbf, bi_dst = d, bi_src = r, bi_off = off, bi_imm = i\<rparr> s =
     do { v \<leftarrow> regs s r; Some (1, set_reg d v s) }"
  "bpf_step k \<lparr>bi_code = 0x18, bi_dst = d, bi_src = 1, bi_off = off, bi_imm = i\<rparr> s = Some (2, set_reg d (Map_ptr i) s)"
  "bpf_step k \<lparr>bi_code = 0xb4, bi_dst = d, bi_src = r, bi_off = off, bi_imm = i\<rparr> s =
     Some (1, set_reg d (Num (ucast (of_int i :: u32))) s)"
  "bpf_step k \<lparr>bi_code = 0x85, bi_dst = d, bi_src = r, bi_off = off, bi_imm = i\<rparr> s =
     do { v \<leftarrow> helper_call k s i; Some (1, s\<lparr>regs := (clobber (regs s))(0 \<mapsto> v)\<rparr>) }"
  by (simp_all add: bpf_step_def BPF_PSEUDO_MAP_FD_def del: One_nat_def)

lemma bpf_step_store:
  "bpf_step k \<lparr>bi_code = 0x63, bi_dst = d, bi_src = r, bi_off = off, bi_imm = i\<rparr> s =
     (case (regs s d, regs s r) of
        (Some (Stack a), Some (Num v)) \<Rightarrow>
          if in_stack (a + off) then Some (1, s\<lparr>stack_words := (stack_words s)(a + off \<mapsto> ucast v)\<rparr>) else None
      | _ \<Rightarrow> None)"
  by (simp add: bpf_step_def split: option.split bval.split)

lemma bpf_step_add:
  "regs s d = Some (Stack a) \<Longrightarrow>
   bpf_step k \<lparr>bi_code = 0x07, bi_dst = d, bi_src = r, bi_off = off, bi_imm = i\<rparr> s = Some (1, set_reg d (Stack (a + i)) s)"
  by (simp add: bpf_step_def)

lemma bpf_step_jeq0:
  "regs s d = Some (if b then Elem else Num 0) \<Longrightarrow> 0 \<le> off \<Longrightarrow>
   bpf_step k \<lparr>bi_code = 0x15, bi_dst = d, bi_src = r, bi_off = off, bi_imm = 0\<rparr> s =
     Some (if b then 1 else 1 + nat off, s)"
  by (simp add: bpf_step_def)

lemma bpf_run_at:
  assumes "prog ! n = i" and "n < length prog" and "bi_code i \<noteq> 0x95"
    and "case bpf_step k i \<lparr>pc = n, regs = rs, stack_words = st\<rparr> of
       None \<Rightarrow> False | Some (m, s') \<Rightarrow> m \<noteq> 0 \<and> s'\<lparr>pc := n + m\<rparr> = t"
  shows "bpf_run k prog \<lparr>pc = n, regs = rs, stack_words = st\<rparr> = bpf_run k prog t"
  using assms by (subst bpf_run.simps) (simp split: option.splits prod.splits)

text \<open>Up to the jump: the index is in the stack, and register 1 says whether the queue has a socket.\<close>

lemma xsk_prog_lookup:
  assumes "ctx_word k 16 = Some index"
  shows "\<exists>rs. bpf_run k (xsk_prog fd) bpf_start =
       bpf_run k (xsk_prog fd) \<lparr>pc = 9, regs = rs, stack_words = [-4 \<mapsto> index]\<rparr> \<and>
     rs 0 = Some (Num 2) \<and> rs 1 = Some (if map_has k fd index then Elem else Num 0) \<and> rs 10 = Some (Stack 0)"
proof -
  let ?P = "xsk_prog fd" and ?R0 = "[1 \<mapsto> Ctx 0, 10 \<mapsto> Stack 0]" and ?S = "[-4 \<mapsto> index]"
  let ?E = "if map_has k fd index then Elem else Num 0"
  let ?R3 = "?R0(1 \<mapsto> Num (ucast index), 2 \<mapsto> Stack 0)"
  let ?R6 = "?R3(2 \<mapsto> Stack (-4), 1 \<mapsto> Map_ptr fd)"
  let ?R7 = "(clobber ?R6)(0 \<mapsto> ?E)"
  note D = bpf_step_simps bpf_step_store load_word_def in_stack_def set_reg_def assms
  have "bpf_run k ?P bpf_start = bpf_run k ?P \<lparr>pc = 1, regs = ?R0(1 \<mapsto> Num (ucast index)), stack_words = Map.empty\<rparr>"
    unfolding bpf_start_def by (rule bpf_run_at [OF xsk_prog_insns(2)]) (simp_all add: xsk_prog_insns(1) D del: One_nat_def)
  also have "\<dots> = bpf_run k ?P \<lparr>pc = 2, regs = ?R0(1 \<mapsto> Num (ucast index)), stack_words = ?S\<rparr>"
    by (rule bpf_run_at [OF xsk_prog_insns(3)]) (simp_all add: xsk_prog_insns(1) D del: One_nat_def)
  also have "\<dots> = bpf_run k ?P \<lparr>pc = 3, regs = ?R3, stack_words = ?S\<rparr>"
    by (rule bpf_run_at [OF xsk_prog_insns(4)]) (simp_all add: xsk_prog_insns(1) D del: One_nat_def)
  also have "\<dots> = bpf_run k ?P \<lparr>pc = 4, regs = ?R3(2 \<mapsto> Stack (-4)), stack_words = ?S\<rparr>"
    by (rule bpf_run_at [OF xsk_prog_insns(5)]) (simp_all add: xsk_prog_insns(1) bpf_step_add set_reg_def del: One_nat_def)
  also have "\<dots> = bpf_run k ?P \<lparr>pc = 6, regs = ?R6, stack_words = ?S\<rparr>"
    by (rule bpf_run_at [OF xsk_prog_insns(6)]) (simp_all add: xsk_prog_insns(1) D del: One_nat_def)
  also have "\<dots> = bpf_run k ?P \<lparr>pc = 7, regs = ?R7, stack_words = ?S\<rparr>"
    by (rule bpf_run_at [OF xsk_prog_insns(7)])
      (simp_all add: xsk_prog_insns(1) D helper_call_def BPF_FUNC_map_lookup_elem_def del: One_nat_def)
  also have "\<dots> = bpf_run k ?P \<lparr>pc = 8, regs = ?R7(1 \<mapsto> ?E), stack_words = ?S\<rparr>"
    by (rule bpf_run_at [OF xsk_prog_insns(8)]) (simp_all add: xsk_prog_insns(1) D del: One_nat_def)
  also have "\<dots> = bpf_run k ?P \<lparr>pc = 9, regs = ?R7(1 \<mapsto> ?E, 0 \<mapsto> Num 2), stack_words = ?S\<rparr>"
    by (rule bpf_run_at [OF xsk_prog_insns(9)]) (simp_all add: xsk_prog_insns(1) D del: One_nat_def)
  finally show ?thesis by (intro exI conjI) (assumption, simp_all add: clobber_def)
qed

lemma xsk_prog_exit:
  "rs 0 = Some (Num v) \<Longrightarrow> bpf_run k (xsk_prog fd) \<lparr>pc = 15, regs = rs, stack_words = st\<rparr> = Some v"
  by (subst bpf_run.simps) (simp add: xsk_prog_insns)

lemma xsk_prog_redirect:
  assumes "rs 10 = Some (Stack 0)"
  shows "bpf_run k (xsk_prog fd) \<lparr>pc = 10, regs = rs, stack_words = [-4 \<mapsto> index]\<rparr> = Some (redirect_verdict k fd index 0)"
proof -
  let ?P = "xsk_prog fd" and ?S = "[-4 \<mapsto> index]"
  let ?R2 = "rs(1 \<mapsto> Map_ptr fd, 2 \<mapsto> Num (ucast index))"
  note D = bpf_step_simps load_word_def in_stack_def set_reg_def assms
  have "bpf_run k ?P \<lparr>pc = 10, regs = rs, stack_words = ?S\<rparr> = bpf_run k ?P \<lparr>pc = 12, regs = rs(1 \<mapsto> Map_ptr fd), stack_words = ?S\<rparr>"
    by (rule bpf_run_at [OF xsk_prog_insns(11)]) (simp_all add: xsk_prog_insns(1) D del: One_nat_def)
  also have "\<dots> = bpf_run k ?P \<lparr>pc = 13, regs = ?R2, stack_words = ?S\<rparr>"
    by (rule bpf_run_at [OF xsk_prog_insns(12)]) (simp_all add: xsk_prog_insns(1) D del: One_nat_def)
  also have "\<dots> = bpf_run k ?P \<lparr>pc = 14, regs = ?R2(3 \<mapsto> Num 0), stack_words = ?S\<rparr>"
    by (rule bpf_run_at [OF xsk_prog_insns(13)]) (simp_all add: xsk_prog_insns(1) D del: One_nat_def)
  also have "\<dots> = bpf_run k ?P \<lparr>pc = 15, regs = (clobber (?R2(3 \<mapsto> Num 0)))(0 \<mapsto> Num (redirect_verdict k fd index 0)),
       stack_words = ?S\<rparr>"
    by (rule bpf_run_at [OF xsk_prog_insns(14)])
      (simp_all add: xsk_prog_insns(1) D helper_call_def BPF_FUNC_map_lookup_elem_def BPF_FUNC_redirect_map_def del: One_nat_def)
  also have "\<dots> = Some (redirect_verdict k fd index 0)" by (simp add: xsk_prog_exit)
  finally show ?thesis .
qed

text \<open>
  C21. The sixteen instructions that libbpf assembles compute the C program given in the comment
  above them: on every packet, a queue that has a socket in the map is redirected to it, any other
  packet is passed on, and the program never does anything the verifier would refuse (the result is
  a \<open>Some\<close>).
\<close>

theorem xsk_prog_is_comment:
  assumes "ctx_word k 16 = Some index"
  shows "bpf_run k (xsk_prog fd) bpf_start = Some (xdp_sock_prog_comment k fd index)"
proof -
  obtain rs where run: "bpf_run k (xsk_prog fd) bpf_start =
       bpf_run k (xsk_prog fd) \<lparr>pc = 9, regs = rs, stack_words = [-4 \<mapsto> index]\<rparr>"
    and rs: "rs 0 = Some (Num 2)" "rs 1 = Some (if map_has k fd index then Elem else Num 0)" "rs 10 = Some (Stack 0)"
    using xsk_prog_lookup [OF assms] by blast
  have "bpf_run k (xsk_prog fd) \<lparr>pc = 9, regs = rs, stack_words = [-4 \<mapsto> index]\<rparr> =
      bpf_run k (xsk_prog fd) \<lparr>pc = (if map_has k fd index then 10 else 15), regs = rs, stack_words = [-4 \<mapsto> index]\<rparr>"
    by (rule bpf_run_at [OF xsk_prog_insns(10)])
      (simp_all add: xsk_prog_insns(1) rs(2) [simplified] bpf_step_jeq0 [where b = "map_has k fd index"])
  then show ?thesis
    using run rs by (simp add: xdp_sock_prog_comment_def XDP_PASS_verdict_def xsk_prog_redirect xsk_prog_exit)
qed

theorem xsk_prog_is_comment_witness:
  "bpf_run \<lparr>ctx_word = (\<lambda>a. if a = 16 then Some 3 else None), map_has = (\<lambda>m q. q = 3), redirect_verdict = (\<lambda>m q f. 4)\<rparr>
     (xsk_prog 7) bpf_start = Some 4"
  using xsk_prog_is_comment [of "\<lparr>ctx_word = (\<lambda>a. if a = 16 then Some 3 else None), map_has = (\<lambda>m q. q = 3),
      redirect_verdict = (\<lambda>m q f. 4)\<rparr>" 3 7]
  by (simp add: xdp_sock_prog_comment_def)

end
