(* ===== verification/Xsk_Lib.thy ===== *)
theory Xsk_Lib
  imports Xsk_Helpers Xsk_Prog "HOL-Library.Multiset"
begin

unbundle bit_operations_syntax

text \<open>
  The AF\_XDP socket layer of libbpf, \<^verbatim>\<open>lib/libbpf/src/xsk.c\<close>: registering the packet memory,
  mapping the rings, binding a socket to a queue, and the default XDP program with its map.
  \<open>Xsk_Helpers\<close> calls it; here it is modelled down to the system calls. A ring structure holds
  addresses inside the mapped memory.
\<close>

section \<open>Data\<close>

record xsk_umem_config =
  fill_size :: u32
  comp_size :: u32
  frame_size :: u32
  frame_headroom :: u32

record xsk_socket_config =
  rx_size :: u32
  tx_size :: u32
  libbpf_flags :: u32
  sc_xdp_flags :: u32
  bind_flags :: u16

text \<open>\<open>struct xsk_ring_prod\<close> and \<open>struct xsk_ring_cons\<close>, with their pointers.\<close>

record ring_ptrs =
  rp_cached_prod :: u32
  rp_cached_cons :: u32
  rp_mask :: u32
  rp_size :: u32
  rp_producer :: u64
  rp_consumer :: u64
  rp_ring :: u64
  rp_flags :: u64

text \<open>
  A pointer to a structure is its index in one of the stores of the world below; 0 is the null
  pointer. The ring structures and the variables that receive a result are the caller's.
\<close>

record xsk_umem =
  um_fill :: nat
  um_comp :: nat
  um_area :: nat
  um_config :: xsk_umem_config
  um_fd :: int
  um_refcount :: int

record xsk_socket =
  xs_rx :: nat
  xs_tx :: nat
  xs_outstanding_tx :: u64
  xs_umem :: nat
  xs_config :: xsk_socket_config
  xs_fd :: int
  xs_ifindex :: int
  xs_prog_fd :: int
  xs_xsks_map_fd :: int
  xs_queue_id :: u32
  xs_ifname :: string
  xs_zc :: bool

record xsk_world = world +
  lib_rings :: "nat \<rightharpoonup> ring_ptrs"
  lib_umems :: "nat \<rightharpoonup> xsk_umem"
  lib_xsks :: "nat \<rightharpoonup> xsk_socket"
  lib_slots :: "nat \<Rightarrow> nat"

definition SOL_XDP :: int where "SOL_XDP = 283"
definition AF_XDP :: int where "AF_XDP = 44"
definition XDP_MMAP_OFFSETS :: int where "XDP_MMAP_OFFSETS = 1"
definition XDP_RX_RING :: int where "XDP_RX_RING = 2"
definition XDP_TX_RING :: int where "XDP_TX_RING = 3"
definition XDP_UMEM_REG :: int where "XDP_UMEM_REG = 4"
definition XDP_UMEM_FILL_RING :: int where "XDP_UMEM_FILL_RING = 5"
definition XDP_UMEM_COMPLETION_RING :: int where "XDP_UMEM_COMPLETION_RING = 6"
definition XDP_OPTIONS :: int where "XDP_OPTIONS = 8"
definition XDP_OPTIONS_ZEROCOPY :: u32 where "XDP_OPTIONS_ZEROCOPY = 1"
definition XDP_PGOFF_RX_RING :: int where "XDP_PGOFF_RX_RING = 0"
definition XDP_PGOFF_TX_RING :: int where "XDP_PGOFF_TX_RING = 0x80000000"
definition XDP_UMEM_PGOFF_FILL_RING :: int where "XDP_UMEM_PGOFF_FILL_RING = 0x100000000"
definition XDP_UMEM_PGOFF_COMPLETION_RING :: int where "XDP_UMEM_PGOFF_COMPLETION_RING = 0x180000000"
definition MAP_FAILED :: u64 where "MAP_FAILED = -1"
definition XSK_LIBBPF_FLAGS__INHIBIT_PROG_LOAD :: u32 where "XSK_LIBBPF_FLAGS__INHIBIT_PROG_LOAD = 1"
definition LIB_EINVAL :: int where "LIB_EINVAL = 22"
definition LIB_EFAULT :: int where "LIB_EFAULT = 14"
definition LIB_ENOMEM :: int where "LIB_ENOMEM = 12"
definition LIB_EBUSY :: int where "LIB_EBUSY = 16"
definition LIB_ENOENT :: int where "LIB_ENOENT = 2"
definition EOPNOTSUPP :: int where "EOPNOTSUPP = 95"

text \<open>
  \<open>struct xdp_mmap_offsets\<close>: for each of the rings \<open>rx\<close>, \<open>tx\<close>, \<open>fr\<close> and \<open>cr\<close> the offsets of the
  producer, the consumer, the descriptors and the flags, 64 bits each.
\<close>

record ring_offset =
  o_producer :: u64
  o_consumer :: u64
  o_desc :: u64
  o_flags :: u64

definition ring_off :: "reply \<Rightarrow> nat \<Rightarrow> ring_offset" where
  "ring_off r k =
     \<lparr>o_producer = get64 (rdata r) (32 * k), o_consumer = get64 (rdata r) (32 * k + 8),
      o_desc = get64 (rdata r) (32 * k + 16), o_flags = get64 (rdata r) (32 * k + 24)\<rparr>"

section \<open>Accessors and configuration\<close>

definition xsk_umem__fd :: "xsk_umem option \<Rightarrow> int" where
  "xsk_umem__fd u = (case u of Some u \<Rightarrow> um_fd u | None \<Rightarrow> - LIB_EINVAL)"

definition xsk_socket__fd :: "xsk_socket option \<Rightarrow> int" where
  "xsk_socket__fd x = (case x of Some x \<Rightarrow> xs_fd x | None \<Rightarrow> - LIB_EINVAL)"

definition xsk_page_aligned :: "nat \<Rightarrow> bool" where
  "xsk_page_aligned p \<longleftrightarrow> p mod 4096 = 0"

definition xsk_set_umem_config :: "xsk_umem_config option \<Rightarrow> xsk_umem_config" where
  "xsk_set_umem_config usr =
     (case usr of
        None \<Rightarrow> \<lparr>fill_size = of_nat XSK_RING_PROD__DEFAULT_NUM_DESCS, comp_size = of_nat XSK_RING_CONS__DEFAULT_NUM_DESCS,
                 frame_size = of_nat FRAME_SIZE, frame_headroom = 0\<rparr>
      | Some c \<Rightarrow> \<lparr>fill_size = fill_size c, comp_size = comp_size c, frame_size = frame_size c,
                    frame_headroom = frame_headroom c\<rparr>)"

text \<open>\<open>Inl\<close> is the error.\<close>

definition xsk_set_xdp_socket_config :: "xsk_socket_config option \<Rightarrow> int + xsk_socket_config" where
  "xsk_set_xdp_socket_config usr =
     (case usr of
        None \<Rightarrow> Inr \<lparr>rx_size = of_nat XSK_RING_CONS__DEFAULT_NUM_DESCS, tx_size = of_nat XSK_RING_PROD__DEFAULT_NUM_DESCS,
                     libbpf_flags = 0, sc_xdp_flags = 0, bind_flags = 0\<rparr>
      | Some c \<Rightarrow>
          if libbpf_flags c AND NOT XSK_LIBBPF_FLAGS__INHIBIT_PROG_LOAD \<noteq> 0 then Inl (- LIB_EINVAL)
          else Inr \<lparr>rx_size = rx_size c, tx_size = tx_size c, libbpf_flags = libbpf_flags c,
                    sc_xdp_flags = sc_xdp_flags c, bind_flags = bind_flags c\<rparr>)"

text \<open>The assignments to a ring structure after its memory has been mapped at \<open>m\<close>.\<close>

definition set_ring :: "u32 \<Rightarrow> u64 \<Rightarrow> ring_offset \<Rightarrow> ring_ptrs \<Rightarrow> ring_ptrs" where
  "set_ring n m off r =
     r\<lparr>rp_mask := n - 1, rp_size := n, rp_producer := m + o_producer off, rp_consumer := m + o_consumer off,
       rp_flags := m + o_flags off, rp_ring := m + o_desc off\<rparr>"

definition put_ring :: "nat \<Rightarrow> (ring_ptrs \<Rightarrow> ring_ptrs) \<Rightarrow> xsk_world \<Rightarrow> xsk_world option" where
  "put_ring p f w = map_option (\<lambda>r. w\<lparr>lib_rings := (lib_rings w)(p \<mapsto> f r)\<rparr>) (lib_rings w p)"

section \<open>Registering packet memory\<close>

text \<open>A run of \<open>setsockopt\<close> calls, each followed by the test for failure.\<close>

fun setopts :: "env \<Rightarrow> sys_call list \<Rightarrow> xsk_world \<Rightarrow> int option \<times> xsk_world" where
  "setopts env [] w = (None, w)"
| "setopts env (c # cs) w =
     (let (err, w) = call env c w
      in if err \<noteq> 0 then (Some (- errno w), w) else setopts env cs w)"

definition mmap :: "env \<Rightarrow> u64 \<Rightarrow> int \<Rightarrow> int \<Rightarrow> xsk_world \<Rightarrow> u64 \<times> xsk_world" where
  "mmap env len fd off w = (let (m, w) = call env (Sock (Mmap len fd off)) w in (of_int m, w))"

definition munmap :: "env \<Rightarrow> u64 \<Rightarrow> u64 \<Rightarrow> xsk_world \<Rightarrow> xsk_world" where
  "munmap env a len w = snd (call env (Sock (Munmap a len)) w)"

definition close_fd :: "env \<Rightarrow> int \<Rightarrow> xsk_world \<Rightarrow> xsk_world" where
  "close_fd env fd w = snd (call env (Sock (Close fd)) w)"

text \<open>The clean-up labels of \<open>xsk_umem__create\<close>, each of which falls through to the next one.\<close>

definition out_umem_alloc :: "nat \<Rightarrow> int \<Rightarrow> xsk_world \<Rightarrow> (int \<times> xsk_world) option" where
  "out_umem_alloc u err w = map_option (\<lambda>w. (err, w)) (c_free u w)"

definition out_umem_socket :: "env \<Rightarrow> int \<Rightarrow> nat \<Rightarrow> int \<Rightarrow> xsk_world \<Rightarrow> (int \<times> xsk_world) option" where
  "out_umem_socket env fd u err w = out_umem_alloc u err (close_fd env fd w)"

definition out_umem_mmap :: "env \<Rightarrow> u64 \<Rightarrow> u64 \<Rightarrow> int \<Rightarrow> nat \<Rightarrow> int \<Rightarrow> xsk_world \<Rightarrow> (int \<times> xsk_world) option" where
  "out_umem_mmap env m len fd u err w = out_umem_socket env fd u err (munmap env m len w)"

definition addr_ring_len :: "ring_offset \<Rightarrow> u32 \<Rightarrow> u64" where
  "addr_ring_len off n = o_desc off + ucast n * 8"

text \<open>From the offsets on: the two rings are mapped, and the result is stored.\<close>

definition umem_map_comp ::
    "env \<Rightarrow> nat \<Rightarrow> nat \<Rightarrow> int \<Rightarrow> xsk_umem_config \<Rightarrow> reply \<Rightarrow> nat \<Rightarrow> nat \<Rightarrow> nat \<Rightarrow> xsk_world \<Rightarrow> (int \<times> xsk_world) option" where
  "umem_map_comp env umem_ptr umem_area fd cfg off u fill cmpl w =
     (let fr = ring_off off 2; cr = ring_off off 3;
          (m, w) = mmap env (addr_ring_len cr (comp_size cfg)) fd XDP_UMEM_PGOFF_COMPLETION_RING w
      in if m = MAP_FAILED
         then out_umem_mmap env m (addr_ring_len fr (fill_size cfg)) fd u (- errno w) w
         else do {
           w \<leftarrow> put_ring cmpl (set_ring (comp_size cfg) m cr) w;
           Some (0, w\<lparr>lib_umems := (lib_umems w)(u \<mapsto> \<lparr>um_fill = fill, um_comp = cmpl, um_area = umem_area, um_config = cfg,
                                                      um_fd = fd, um_refcount = 0\<rparr>),
                     lib_slots := (lib_slots w)(umem_ptr := u)\<rparr>)
         })"

definition umem_map_rings ::
    "env \<Rightarrow> nat \<Rightarrow> nat \<Rightarrow> int \<Rightarrow> xsk_umem_config \<Rightarrow> reply \<Rightarrow> nat \<Rightarrow> nat \<Rightarrow> nat \<Rightarrow> xsk_world \<Rightarrow> (int \<times> xsk_world) option" where
  "umem_map_rings env umem_ptr umem_area fd cfg off u fill cmpl w =
     (let fr = ring_off off 2;
          (m, w) = mmap env (addr_ring_len fr (fill_size cfg)) fd XDP_UMEM_PGOFF_FILL_RING w
      in if m = MAP_FAILED then out_umem_socket env fd u (- errno w) w
         else do {
           w \<leftarrow> put_ring fill (\<lambda>r. (set_ring (fill_size cfg) m fr r)\<lparr>rp_cached_cons := fill_size cfg\<rparr>) w;
           umem_map_comp env umem_ptr umem_area fd cfg off u fill cmpl w
         })"

definition xsk_umem__create ::
    "env \<Rightarrow> nat \<Rightarrow> nat \<Rightarrow> u64 \<Rightarrow> nat \<Rightarrow> nat \<Rightarrow> xsk_umem_config option \<Rightarrow> xsk_world \<Rightarrow> (int \<times> xsk_world) option" where
  "xsk_umem__create env umem_ptr umem_area sz fill cmpl usr_config w =
     (if umem_area = 0 \<or> umem_ptr = 0 \<or> fill = 0 \<or> cmpl = 0 then Some (- LIB_EFAULT, w)
      else if sz = 0 \<and> \<not> xsk_page_aligned umem_area then Some (- LIB_EINVAL, w)
      else let (u, w) = c_calloc env 48 w
      in if u = 0 then Some (- LIB_ENOMEM, w)
      else let (fd, w) = call env (Sock (Socket AF_XDP 3 0)) w
      in if fd < 0 then out_umem_alloc u (- errno w) w
      else let cfg = xsk_set_umem_config usr_config;
               (failed, w) = setopts env
                 [Sock (Umem_reg fd umem_area sz (frame_size cfg) (frame_headroom cfg)),
                  Sock (Setsockopt_int fd SOL_XDP XDP_UMEM_FILL_RING (uint (fill_size cfg))),
                  Sock (Setsockopt_int fd SOL_XDP XDP_UMEM_COMPLETION_RING (uint (comp_size cfg)))] w
      in case failed of
           Some err \<Rightarrow> out_umem_socket env fd u err w
         | None \<Rightarrow>
             (let (off, w) = sys env (Sock (Getsockopt fd SOL_XDP XDP_MMAP_OFFSETS)) w
              in if rv off \<noteq> 0 then out_umem_socket env fd u (- errno w) w
                 else umem_map_rings env umem_ptr umem_area fd cfg off u fill cmpl w))"

definition unmap_umem :: "env \<Rightarrow> xsk_umem \<Rightarrow> reply \<Rightarrow> xsk_world \<Rightarrow> xsk_world option" where
  "unmap_umem env um off w =
     (if rv off = 0 then do {
        f \<leftarrow> lib_rings w (um_fill um);
        c \<leftarrow> lib_rings w (um_comp um);
        let fr = ring_off off 2; let cr = ring_off off 3;
        let w = munmap env (rp_ring f - o_desc fr) (addr_ring_len fr (fill_size (um_config um))) w;
        Some (munmap env (rp_ring c - o_desc cr) (addr_ring_len cr (comp_size (um_config um))) w)
      } else Some w)"

definition drop_umem :: "env \<Rightarrow> nat \<Rightarrow> xsk_umem \<Rightarrow> xsk_world \<Rightarrow> (int \<times> xsk_world) option" where
  "drop_umem env u um w =
     map_option (\<lambda>w. (0, w\<lparr>lib_umems := (lib_umems w)(u := None)\<rparr>)) (c_free u (close_fd env (um_fd um) w))"

definition xsk_umem__delete :: "env \<Rightarrow> nat \<Rightarrow> xsk_world \<Rightarrow> (int \<times> xsk_world) option" where
  "xsk_umem__delete env u w =
     (if u = 0 then Some (0, w)
      else do {
        um \<leftarrow> lib_umems w u;
        if um_refcount um \<noteq> 0 then Some (- LIB_EBUSY, w)
        else do {
          let (off, w) = sys env (Sock (Getsockopt (um_fd um) SOL_XDP XDP_MMAP_OFFSETS)) w;
          w \<leftarrow> unmap_umem env um off w;
          drop_umem env u um w
        }
      })"

section \<open>The default program and its map\<close>

text \<open>These run on the socket structure while it is being set up, and return it changed.\<close>

definition xsk_load_xdp_prog :: "env \<Rightarrow> xsk_socket \<Rightarrow> xsk_world \<Rightarrow> int \<times> xsk_socket \<times> xsk_world" where
  "xsk_load_xdp_prog env x w =
     (let (prog_fd, w) = call env (Bpf (Load_program (xsk_prog (xs_xsks_map_fd x)))) w
      in if prog_fd < 0 then (prog_fd, x, w)
         else let (err, w) = call env (Bpf (Set_link_xdp_fd (xs_ifindex x) prog_fd (sc_xdp_flags (xs_config x)))) w
              in if err \<noteq> 0 then (err, x, close_fd env prog_fd w)
                 else (0, x\<lparr>xs_prog_fd := prog_fd\<rparr>, w))"

text \<open>\<open>max_combined\<close> is the fifth word of \<open>struct ethtool_channels\<close>.\<close>

definition xsk_get_max_queues :: "env \<Rightarrow> xsk_socket \<Rightarrow> xsk_world \<Rightarrow> int \<times> xsk_world" where
  "xsk_get_max_queues env x w =
     (let (fd, w) = call env (Sock (Socket 2 2 0)) w
      in if fd < 0 then (- errno w, w)
         else let (r, w) = sys env (Sock (Ethtool_channels fd (take 15 (xs_ifname x)))) w;
                  max_combined = get32 (rdata r) 16;
                  ret = (if rv r \<noteq> 0 \<and> errno w \<noteq> EOPNOTSUPP then - errno w
                         else if rv r \<noteq> 0 \<or> max_combined = 0 then 1
                         else sint max_combined)
              in (ret, close_fd env fd w))"

definition xsk_create_bpf_maps :: "env \<Rightarrow> xsk_socket \<Rightarrow> xsk_world \<Rightarrow> int \<times> xsk_socket \<times> xsk_world" where
  "xsk_create_bpf_maps env x w =
     (let (max_queues, w) = xsk_get_max_queues env x w
      in if max_queues < 0 then (max_queues, x, w)
         else let (fd, w) = call env (Bpf (Create_map ''xsks_map'' max_queues)) w
              in if fd < 0 then (fd, x, w) else (0, x\<lparr>xs_xsks_map_fd := fd\<rparr>, w))"

definition xsk_delete_bpf_maps :: "env \<Rightarrow> xsk_socket \<Rightarrow> xsk_world \<Rightarrow> xsk_world" where
  "xsk_delete_bpf_maps env x w =
     close_fd env (xs_xsks_map_fd x) (snd (call env (Bpf (Map_delete32 (xs_xsks_map_fd x) (xs_queue_id x))) w))"

text \<open>
  The loop of \<open>xsk_lookup_bpf_maps\<close> over the identifiers of the maps of a program. The current
  value of \<open>xsk->xsks_map_fd\<close> is carried along.
\<close>

fun lookup_maps :: "env \<Rightarrow> u32 list \<Rightarrow> int \<Rightarrow> xsk_world \<Rightarrow> int \<times> xsk_world" where
  "lookup_maps env [] cur w = (cur, w)"
| "lookup_maps env (i # ids) cur w =
     (let (fd, w) = call env (Bpf (Map_fd_by_id i)) w
      in if fd < 0 then lookup_maps env ids cur w
         else let (r, w) = sys env (Bpf (Map_info fd)) w
              in if rv r \<noteq> 0 then lookup_maps env ids cur (close_fd env fd w)
                 else if rtext r = ''xsks_map'' then lookup_maps env ids fd w
                 else lookup_maps env ids cur (close_fd env fd w))"

text \<open>
  \<open>nr_map_ids\<close> is at offset 52 of the 208 bytes of \<open>struct bpf_prog_info\<close>; the array of identifiers
  that the second call fills is what it writes behind them. The array has room for the number of
  identifiers that the first call reported; the loop runs to the number of the second.
\<close>

definition nr_map_ids :: "reply \<Rightarrow> u32" where "nr_map_ids r = get32 (rdata r) 52"

definition map_ids :: "reply \<Rightarrow> u32 list" where
  "map_ids r = map (\<lambda>i. get32 (rdata r) (208 + 4 * i)) [0..<unat (nr_map_ids r)]"

definition xsk_lookup_bpf_maps :: "env \<Rightarrow> xsk_socket \<Rightarrow> xsk_world \<Rightarrow> (int \<times> xsk_socket \<times> xsk_world) option" where
  "xsk_lookup_bpf_maps env x w =
     (let (r, w) = sys env (Bpf (Prog_info (xs_prog_fd x) 0)) w
      in if rv r \<noteq> 0 then Some (rv r, x, w)
         else let num_maps = nr_map_ids r;
                  (p, w) = c_calloc env (unat num_maps * 4) w
         in if p = 0 then Some (- LIB_ENOMEM, x, w)
         else let (r, w) = sys env (Bpf (Prog_info (xs_prog_fd x) num_maps)) w
         in if rv r \<noteq> 0 then map_option (\<lambda>w. (rv r, x, w)) (c_free p w)
         else if num_maps < nr_map_ids r then None
         else let (fd, w) = lookup_maps env (map_ids r) (-1) w
              in map_option (\<lambda>w. (if fd = -1 then - LIB_ENOENT else 0, x\<lparr>xs_xsks_map_fd := fd\<rparr>, w)) (c_free p w))"

definition xsk_set_bpf_maps :: "env \<Rightarrow> xsk_socket \<Rightarrow> xsk_world \<Rightarrow> int \<times> xsk_world" where
  "xsk_set_bpf_maps env x w = call env (Bpf (Map_update32 (xs_xsks_map_fd x) (xs_queue_id x) (xs_fd x))) w"

text \<open>Either branch of \<open>xsk_setup_xdp_prog\<close>: a program of its own, or the one that is attached.\<close>

definition setup_new_prog :: "env \<Rightarrow> xsk_socket \<Rightarrow> xsk_world \<Rightarrow> int \<times> xsk_socket \<times> xsk_world" where
  "setup_new_prog env x w =
     (let (err, x, w) = xsk_create_bpf_maps env x w
      in if err \<noteq> 0 then (err, x, w)
         else let (err, x, w) = xsk_load_xdp_prog env x w
              in if err \<noteq> 0 then (err, x, xsk_delete_bpf_maps env x w) else (0, x, w))"

definition setup_old_prog :: "env \<Rightarrow> u32 \<Rightarrow> xsk_socket \<Rightarrow> xsk_world \<Rightarrow> (int \<times> xsk_socket \<times> xsk_world) option" where
  "setup_old_prog env prog_id x w =
     (let (fd, w) = call env (Bpf (Prog_fd_by_id prog_id)) w;
          x = x\<lparr>xs_prog_fd := fd\<rparr>
      in map_option (\<lambda>(err, x, w). if err \<noteq> 0 then (err, x, close_fd env (xs_prog_fd x) w) else (0, x, w))
           (xsk_lookup_bpf_maps env x w))"

definition setup_prog :: "env \<Rightarrow> u32 \<Rightarrow> xsk_socket \<Rightarrow> xsk_world \<Rightarrow> (int \<times> xsk_socket \<times> xsk_world) option" where
  "setup_prog env prog_id x w =
     (if prog_id = 0 then Some (setup_new_prog env x w) else setup_old_prog env prog_id x w)"

text \<open>The entry for the socket, or everything undone.\<close>

definition set_or_undo :: "env \<Rightarrow> xsk_socket \<Rightarrow> xsk_world \<Rightarrow> int \<times> xsk_socket \<times> xsk_world" where
  "set_or_undo env x w =
     (let (err, w) = xsk_set_bpf_maps env x w
      in if err \<noteq> 0 then (err, x, close_fd env (xs_prog_fd x) (xsk_delete_bpf_maps env x w)) else (0, x, w))"

definition xsk_setup_xdp_prog :: "env \<Rightarrow> xsk_socket \<Rightarrow> xsk_world \<Rightarrow> (int \<times> xsk_socket \<times> xsk_world) option" where
  "xsk_setup_xdp_prog env x w =
     (let (r, w) = sys env (Bpf (Get_link_xdp_id (xs_ifindex x) (sc_xdp_flags (xs_config x)))) w
      in if rv r \<noteq> 0 then Some (rv r, x, w)
         else map_option (\<lambda>(err, x, w). if err \<noteq> 0 then (err, x, w) else set_or_undo env x w)
                (setup_prog env (get32 (rdata r) 0) x w))"

section \<open>Sockets\<close>

definition set_refcount :: "nat \<Rightarrow> int \<Rightarrow> xsk_world \<Rightarrow> xsk_world option" where
  "set_refcount u n w = map_option (\<lambda>um. w\<lparr>lib_umems := (lib_umems w)(u \<mapsto> um\<lparr>um_refcount := n\<rparr>)\<rparr>) (lib_umems w u)"

text \<open>The clean-up labels of \<open>xsk_socket__create\<close>.\<close>

definition out_xsk_socket :: "env \<Rightarrow> int \<Rightarrow> nat \<Rightarrow> nat \<Rightarrow> int \<Rightarrow> xsk_world \<Rightarrow> (int \<times> xsk_world) option" where
  "out_xsk_socket env fd u p err w = do {
     um \<leftarrow> lib_umems w u;
     w \<leftarrow> set_refcount u (um_refcount um - 1) w;
     out_umem_alloc p err (if um_refcount um - 1 \<noteq> 0 then close_fd env fd w else w)
   }"

definition out_xsk_mmap_rx :: "env \<Rightarrow> u64 \<Rightarrow> u64 \<Rightarrow> int \<Rightarrow> nat \<Rightarrow> nat \<Rightarrow> int \<Rightarrow> xsk_world \<Rightarrow> (int \<times> xsk_world) option" where
  "out_xsk_mmap_rx env rx_map rx_len fd u p err w = out_xsk_socket env fd u p err (munmap env rx_map rx_len w)"

definition out_xsk_mmap_tx ::
    "env \<Rightarrow> u64 \<Rightarrow> u64 \<Rightarrow> u64 \<Rightarrow> u64 \<Rightarrow> int \<Rightarrow> nat \<Rightarrow> nat \<Rightarrow> int \<Rightarrow> xsk_world \<Rightarrow> (int \<times> xsk_world) option" where
  "out_xsk_mmap_tx env tx_map tx_len rx_map rx_len fd u p err w =
     out_xsk_mmap_rx env rx_map rx_len fd u p err (munmap env tx_map tx_len w)"

definition desc_ring_len :: "ring_offset \<Rightarrow> u32 \<Rightarrow> u64" where
  "desc_ring_len off n = o_desc off + ucast n * 16"

text \<open>
  After both rings are mapped: \<open>bind\<close>, the options and the program. The result says whether the
  socket is complete.
\<close>

definition xsk_bind_and_setup :: "env \<Rightarrow> xsk_socket \<Rightarrow> xsk_world \<Rightarrow> (int option \<times> xsk_socket \<times> xsk_world) option" where
  "xsk_bind_and_setup env x w =
     (let (err, w) = call env (Sock (Bind_xdp (xs_fd x) (xs_ifindex x) (xs_queue_id x) (bind_flags (xs_config x)))) w
      in if err \<noteq> 0 then Some (Some (- errno w), x, w)
      else let x = x\<lparr>xs_prog_fd := -1\<rparr>;
               (opts, w) = sys env (Sock (Getsockopt (xs_fd x) SOL_XDP XDP_OPTIONS)) w
      in if rv opts \<noteq> 0 then Some (Some (- errno w), x, w)
      else let x = x\<lparr>xs_zc := (get32 (rdata opts) 0 AND XDP_OPTIONS_ZEROCOPY \<noteq> 0)\<rparr>
      in if libbpf_flags (xs_config x) AND XSK_LIBBPF_FLAGS__INHIBIT_PROG_LOAD = 0
         then map_option (\<lambda>(err, x, w). (if err \<noteq> 0 then Some err else None, x, w)) (xsk_setup_xdp_prog env x w)
         else Some (None, x, w))"

definition xsk_finish ::
    "env \<Rightarrow> nat \<Rightarrow> nat \<Rightarrow> u64 \<Rightarrow> u64 \<Rightarrow> u64 \<Rightarrow> u64 \<Rightarrow> xsk_socket \<Rightarrow> xsk_world \<Rightarrow> (int \<times> xsk_world) option" where
  "xsk_finish env xsk_ptr p tx_map tx_len rx_map rx_len x w =
     (case xsk_bind_and_setup env x w of
        None \<Rightarrow> None
      | Some (Some err, _, w) \<Rightarrow> out_xsk_mmap_tx env tx_map tx_len rx_map rx_len (xs_fd x) (xs_umem x) p err w
      | Some (None, x, w) \<Rightarrow> Some (0, w\<lparr>lib_xsks := (lib_xsks w)(p \<mapsto> x), lib_slots := (lib_slots w)(xsk_ptr := p)\<rparr>))"

definition xsk_map_tx ::
    "env \<Rightarrow> nat \<Rightarrow> nat \<Rightarrow> reply \<Rightarrow> xsk_socket \<Rightarrow> nat \<Rightarrow> nat \<Rightarrow> u64 \<Rightarrow> xsk_world \<Rightarrow> (int \<times> xsk_world) option" where
  "xsk_map_tx env xsk_ptr p off x rxp txp rx_map w =
     (let orx = ring_off off 0; otx = ring_off off 1; cfg = xs_config x; fd = xs_fd x;
          rx_len = desc_ring_len orx (rx_size cfg); tx_len = desc_ring_len otx (tx_size cfg);
          (tx_map, w) = mmap env tx_len fd XDP_PGOFF_TX_RING w
      in if tx_map = MAP_FAILED then out_xsk_mmap_rx env rx_map rx_len fd (xs_umem x) p (- errno w) w
         else do {
           w \<leftarrow> put_ring txp (\<lambda>r. (set_ring (tx_size cfg) tx_map otx r)\<lparr>rp_cached_cons := tx_size cfg\<rparr>) w;
           xsk_finish env xsk_ptr p tx_map tx_len rx_map rx_len (x\<lparr>xs_rx := rxp, xs_tx := txp\<rparr>) w
         })"

definition xsk_map_rings ::
    "env \<Rightarrow> nat \<Rightarrow> nat \<Rightarrow> reply \<Rightarrow> xsk_socket \<Rightarrow> nat \<Rightarrow> nat \<Rightarrow> xsk_world \<Rightarrow> (int \<times> xsk_world) option" where
  "xsk_map_rings env xsk_ptr p off x rxp txp w =
     (let orx = ring_off off 0; cfg = xs_config x; fd = xs_fd x;
          (rx_map, w) = mmap env (desc_ring_len orx (rx_size cfg)) fd XDP_PGOFF_RX_RING w
      in if rx_map = MAP_FAILED then out_xsk_socket env fd (xs_umem x) p (- errno w) w
         else do {
           w \<leftarrow> put_ring rxp (set_ring (rx_size cfg) rx_map orx) w;
           xsk_map_tx env xsk_ptr p off x rxp txp rx_map w
         })"

definition zero_xsk :: xsk_socket where
  "zero_xsk = \<lparr>xs_rx = 0, xs_tx = 0, xs_outstanding_tx = 0, xs_umem = 0,
     xs_config = \<lparr>rx_size = 0, tx_size = 0, libbpf_flags = 0, sc_xdp_flags = 0, bind_flags = 0\<rparr>, xs_fd = 0,
     xs_ifindex = 0, xs_prog_fd = 0, xs_xsks_map_fd = 0, xs_queue_id = 0, xs_ifname = [], xs_zc = False\<rparr>"

text \<open>The middle part, with the descriptor in place: interface, configuration and ring sizes.\<close>

definition xsk_configure ::
    "env \<Rightarrow> nat \<Rightarrow> nat \<Rightarrow> string \<Rightarrow> xsk_socket \<Rightarrow> nat \<Rightarrow> nat \<Rightarrow> xsk_socket_config option \<Rightarrow> xsk_world \<Rightarrow>
     (int \<times> xsk_world) option" where
  "xsk_configure env xsk_ptr p ifname x rxp txp usr_config w =
     (let fd = xs_fd x; u = xs_umem x;
          (ifindex, w) = call env (Sock (If_nametoindex ifname)) w
      in if ifindex = 0 then out_xsk_socket env fd u p (- errno w) w
         else case xsk_set_xdp_socket_config usr_config of
           Inl err \<Rightarrow> out_xsk_socket env fd u p err w
         | Inr cfg \<Rightarrow>
             (let x = x\<lparr>xs_ifindex := ifindex, xs_ifname := take 15 ifname, xs_config := cfg\<rparr>;
                  (failed, w) = setopts env
                    [Sock (Setsockopt_int fd SOL_XDP XDP_RX_RING (uint (rx_size cfg))),
                     Sock (Setsockopt_int fd SOL_XDP XDP_TX_RING (uint (tx_size cfg)))] w
              in case failed of
                   Some err \<Rightarrow> out_xsk_socket env fd u p err w
                 | None \<Rightarrow>
                     (let (off, w) = sys env (Sock (Getsockopt fd SOL_XDP XDP_MMAP_OFFSETS)) w
                      in if rv off \<noteq> 0 then out_xsk_socket env fd u p (- errno w) w
                         else xsk_map_rings env xsk_ptr p off x rxp txp w)))"

text \<open>
  The tests \<open>if (rx)\<close> and \<open>if (tx)\<close> of the body succeed, since null pointers have been refused.
\<close>

definition xsk_socket__create ::
    "env \<Rightarrow> nat \<Rightarrow> string \<Rightarrow> u32 \<Rightarrow> nat \<Rightarrow> nat \<Rightarrow> nat \<Rightarrow> xsk_socket_config option \<Rightarrow> xsk_world \<Rightarrow>
     (int \<times> xsk_world) option" where
  "xsk_socket__create env xsk_ptr ifname queue_id u rxp txp usr_config w =
     (if u = 0 \<or> xsk_ptr = 0 \<or> rxp = 0 \<or> txp = 0 then Some (- LIB_EFAULT, w)
      else do {
        um \<leftarrow> lib_umems w u;
        if um_refcount um \<noteq> 0 then Some (- LIB_EBUSY, w)
        else let (p, w) = c_calloc env 96 w
        in if p = 0 then Some (- LIB_ENOMEM, w)
        else do {
          w \<leftarrow> set_refcount u (um_refcount um + 1) w;
          let (fd, w) = (if um_refcount um > 0 then call env (Sock (Socket AF_XDP 3 0)) w else (um_fd um, w));
          if um_refcount um > 0 \<and> fd < 0 then out_umem_alloc p (- errno w) w
          else xsk_configure env xsk_ptr p ifname (zero_xsk\<lparr>xs_fd := fd, xs_queue_id := queue_id, xs_umem := u\<rparr>)
                 rxp txp usr_config w
        }
      })"

definition drop_prog :: "env \<Rightarrow> xsk_socket \<Rightarrow> xsk_world \<Rightarrow> xsk_world" where
  "drop_prog env x w = (if xs_prog_fd x \<noteq> -1 then close_fd env (xs_prog_fd x) (xsk_delete_bpf_maps env x w) else w)"

definition unmap_socket :: "env \<Rightarrow> xsk_socket \<Rightarrow> reply \<Rightarrow> xsk_world \<Rightarrow> xsk_world option" where
  "unmap_socket env x off w =
     (if rv off = 0 then do {
        r \<leftarrow> lib_rings w (xs_rx x);
        t \<leftarrow> lib_rings w (xs_tx x);
        let orx = ring_off off 0; let otx = ring_off off 1;
        let w = munmap env (rp_ring r - o_desc orx) (desc_ring_len orx (rx_size (xs_config x))) w;
        Some (munmap env (rp_ring t - o_desc otx) (desc_ring_len otx (tx_size (xs_config x))) w)
      } else Some w)"

text \<open>The reference is dropped; the descriptor stays open when it is the one of the umem.\<close>

definition drop_socket :: "env \<Rightarrow> nat \<Rightarrow> xsk_socket \<Rightarrow> xsk_world \<Rightarrow> xsk_world option" where
  "drop_socket env p x w = do {
     um \<leftarrow> lib_umems w (xs_umem x);
     w \<leftarrow> set_refcount (xs_umem x) (um_refcount um - 1) w;
     w \<leftarrow> c_free p (if xs_fd x \<noteq> um_fd um then close_fd env (xs_fd x) w else w);
     Some (w\<lparr>lib_xsks := (lib_xsks w)(p := None)\<rparr>)
   }"

definition xsk_socket__delete :: "env \<Rightarrow> nat \<Rightarrow> xsk_world \<Rightarrow> xsk_world option" where
  "xsk_socket__delete env p w =
     (if p = 0 then Some w
      else do {
        x \<leftarrow> lib_xsks w p;
        let (off, w) = sys env (Sock (Getsockopt (xs_fd x) SOL_XDP XDP_MMAP_OFFSETS)) (drop_prog env x w);
        w \<leftarrow> unmap_socket env x off w;
        drop_socket env p x w
      })"

section \<open>What a world holds\<close>

text \<open>
  The descriptors and the mappings that the program has acquired and not given back, read off its
  trace. What counts is the program's side: a call of \<open>close\<close> or \<open>munmap\<close> gives back what it names,
  and one that names nothing the program holds changes nothing.
\<close>

definition opens_fd :: "sys_call \<Rightarrow> bool" where
  "opens_fd c = (case c of
       Sock (Socket _ _ _) \<Rightarrow> True
     | Bpf (Load_program _) \<Rightarrow> True
     | Bpf (Create_map _ _) \<Rightarrow> True
     | Bpf (Prog_fd_by_id _) \<Rightarrow> True
     | Bpf (Map_fd_by_id _) \<Rightarrow> True
     | _ \<Rightarrow> False)"

definition fd_step :: "sys_call \<times> reply \<Rightarrow> int multiset \<Rightarrow> int multiset" where
  "fd_step cr M =
     (if opens_fd (fst cr) \<and> 0 \<le> rv (snd cr) then add_mset (rv (snd cr)) M
      else case fst cr of Sock (Close fd) \<Rightarrow> M - {#fd#} | _ \<Rightarrow> M)"

definition map_step :: "sys_call \<times> reply \<Rightarrow> (u64 \<times> u64) multiset \<Rightarrow> (u64 \<times> u64) multiset" where
  "map_step cr M = (case fst cr of
       Sock (Mmap len _ _) \<Rightarrow> if of_int (rv (snd cr)) = MAP_FAILED then M else add_mset (of_int (rv (snd cr)), len) M
     | Sock (Munmap a len) \<Rightarrow> M - {#(a, len)#}
     | _ \<Rightarrow> M)"

definition live_fds :: "xsk_world \<Rightarrow> int multiset" where
  "live_fds w = fold fd_step (trace w) {#}"

definition live_maps :: "xsk_world \<Rightarrow> (u64 \<times> u64) multiset" where
  "live_maps w = fold map_step (trace w) {#}"

text \<open>Two worlds with the same objects; the allocator may have been used in between.\<close>

definition frame :: "xsk_world \<Rightarrow> xsk_world \<Rightarrow> bool" where
  "frame w w' \<longleftrightarrow> heap w' = heap w \<and> fresh w \<le> fresh w' \<and> lib_rings w' = lib_rings w \<and> lib_umems w' = lib_umems w \<and>
     lib_xsks w' = lib_xsks w \<and> lib_slots w' = lib_slots w \<and> grows w w'"

definition keeps_all :: "xsk_world \<Rightarrow> xsk_world \<Rightarrow> bool" where
  "keeps_all w w' \<longleftrightarrow> frame w w' \<and> live_fds w' = live_fds w \<and> live_maps w' = live_maps w"

lemma live_snoc:
  "trace w' = trace w @ [cr] \<Longrightarrow> live_fds w' = fd_step cr (live_fds w)"
  "trace w' = trace w @ [cr] \<Longrightarrow> live_maps w' = map_step cr (live_maps w)"
  by (simp_all add: live_fds_def live_maps_def)

lemma live_trace_cong:
  "trace w' = trace w \<Longrightarrow> live_fds w' = live_fds w" "trace w' = trace w \<Longrightarrow> live_maps w' = live_maps w"
  by (simp_all add: live_fds_def live_maps_def)

lemma frame_refl [simp]: "frame w w"
  by (simp add: frame_def grows_def)

lemma frame_trans: "frame w w' \<Longrightarrow> frame w' w'' \<Longrightarrow> frame w w''"
  by (auto simp: frame_def grows_def)

lemma keeps_all_refl [simp]: "keeps_all w w"
  by (simp add: keeps_all_def)

lemma keeps_all_trans: "keeps_all w w' \<Longrightarrow> keeps_all w' w'' \<Longrightarrow> keeps_all w w''"
  by (auto simp: keeps_all_def intro: frame_trans)

lemma frame_heap_ok: "frame w w' \<Longrightarrow> heap_ok w \<Longrightarrow> heap_ok w'"
  unfolding frame_def heap_ok_def by (metis le_trans)

lemma sys_frame:
  "sys env c w = (r, w') \<Longrightarrow> frame w w' \<and> trace w' = trace w @ [(c, r)] \<and> live_fds w' = fd_step (c, r) (live_fds w) \<and>
     live_maps w' = map_step (c, r) (live_maps w)"
  by (auto simp: sys_def Let_def frame_def grows_def intro: live_snoc)

lemma call_frame:
  "call env c w = (v, w') \<Longrightarrow> \<exists>r. v = rv r \<and> frame w w' \<and> trace w' = trace w @ [(c, r)] \<and>
     live_fds w' = fd_step (c, r) (live_fds w) \<and> live_maps w' = map_step (c, r) (live_maps w)"
  using sys_frame by (auto simp: call_def split: prod.splits)

text \<open>A call that neither opens, closes, maps nor unmaps.\<close>

definition plain_call :: "sys_call \<Rightarrow> bool" where
  "plain_call c \<longleftrightarrow> \<not> opens_fd c \<and>
     (case c of Sock (Close _) \<Rightarrow> False | Sock (Mmap _ _ _) \<Rightarrow> False | Sock (Munmap _ _) \<Rightarrow> False | _ \<Rightarrow> True)"

lemma plain_steps:
  assumes "plain_call c" shows "fd_step (c, r) M = M" "map_step (c, r) N = N"
  using assms by (auto simp: plain_call_def fd_step_def map_step_def split: sys_call.splits sock_call.splits)

lemma sys_plain: "sys env c w = (r, w') \<Longrightarrow> plain_call c \<Longrightarrow> keeps_all w w'"
  using sys_frame [of env c w r w'] by (simp add: keeps_all_def plain_steps)

lemma call_plain: "call env c w = (v, w') \<Longrightarrow> plain_call c \<Longrightarrow> keeps_all w w'"
  using call_frame [of env c w v w'] by (auto simp: keeps_all_def plain_steps)

lemma close_fd_effect:
  "frame w (close_fd env fd w)" "live_fds (close_fd env fd w) = live_fds w - {#fd#}"
  "live_maps (close_fd env fd w) = live_maps w"
  using call_frame [of env "Sock (Close fd)" w "fst (call env (Sock (Close fd)) w)" "snd (call env (Sock (Close fd)) w)"]
  by (auto simp: close_fd_def fd_step_def map_step_def opens_fd_def)

lemma munmap_effect:
  "frame w (munmap env a len w)" "live_fds (munmap env a len w) = live_fds w"
  "live_maps (munmap env a len w) = live_maps w - {#(a, len)#}"
  using call_frame [of env "Sock (Munmap a len)" w "fst (call env (Sock (Munmap a len)) w)"
      "snd (call env (Sock (Munmap a len)) w)"]
  by (auto simp: munmap_def fd_step_def map_step_def opens_fd_def)

lemma mmap_effect:
  "mmap env len fd off w = (m, w') \<Longrightarrow> frame w w' \<and> live_fds w' = live_fds w \<and>
     live_maps w' = (if m = MAP_FAILED then live_maps w else add_mset (m, len) (live_maps w)) \<and>
     (\<exists>r. trace w' = trace w @ [(Sock (Mmap len fd off), r)])"
  using call_frame [of env "Sock (Mmap len fd off)" w]
  by (auto simp: mmap_def fd_step_def map_step_def opens_fd_def split: prod.splits)

lemma open_fd_effect:
  assumes "call env c w = (fd, w')" and "opens_fd c"
  shows "frame w w'" "live_fds w' = (if 0 \<le> fd then add_mset fd (live_fds w) else live_fds w)" "live_maps w' = live_maps w"
  using call_frame [OF assms(1)] assms(2)
  by (auto simp: fd_step_def map_step_def opens_fd_def split: sys_call.splits sock_call.splits)

lemma failed_not_mapped: "(MAP_FAILED, len) \<notin># live_maps w"
proof -
  have "(MAP_FAILED, len) \<notin># M \<Longrightarrow> (MAP_FAILED, len) \<notin># fold map_step t M" for t M
  proof (induction t arbitrary: M)
    case (Cons cr t)
    then have "(MAP_FAILED, len) \<notin># map_step cr M"
      by (auto simp: map_step_def split: sys_call.splits sock_call.splits dest: in_diffD)
    then show ?case using Cons.IH by simp
  qed simp
  then show ?thesis by (simp add: live_maps_def)
qed

lemma negative_not_open: "fd < 0 \<Longrightarrow> fd \<notin># live_fds w"
proof -
  assume neg: "fd < 0"
  have "fd \<notin># M \<Longrightarrow> fd \<notin># fold fd_step t M" for t M
  proof (induction t arbitrary: M)
    case (Cons cr t)
    then have "fd \<notin># fd_step cr M"
      using neg by (auto simp: fd_step_def split: sys_call.splits sock_call.splits dest: in_diffD)
    then show ?case using Cons.IH by simp
  qed simp
  then show ?thesis by (simp add: live_fds_def)
qed

lemma c_free_effect:
  assumes "p \<noteq> 0" and "heap w p \<noteq> None"
  obtains w' where "c_free p w = Some w'" "heap w' = (heap w)(p := None)" "fresh w' = fresh w" "lib_rings w' = lib_rings w"
    "lib_umems w' = lib_umems w" "lib_xsks w' = lib_xsks w" "lib_slots w' = lib_slots w" "live_fds w' = live_fds w" "live_maps w' = live_maps w"
    "trace w' = trace w"
proof -
  let ?w' = "w\<lparr>heap := (heap w)(p := None)\<rparr>"
  have "c_free p w = Some ?w'" using assms by (auto simp: c_free_def)
  then show ?thesis by (rule that) (simp_all add: live_trace_cong [of ?w' w])
qed

lemma c_calloc_lib:
  assumes "c_calloc env n w = (p, w')"
  shows "lib_rings w' = lib_rings w" "lib_umems w' = lib_umems w" "lib_xsks w' = lib_xsks w" "lib_slots w' = lib_slots w" "live_fds w' = live_fds w"
    "live_maps w' = live_maps w" "fresh w \<le> fresh w'" "grows w w'"
    "p = 0 \<Longrightarrow> heap w' = heap w"
    "p \<noteq> 0 \<Longrightarrow> p = Suc (fresh w) \<and> heap w' = (heap w)(p \<mapsto> replicate n 0) \<and> fresh w' = p"
proof -
  obtain r w1 where s: "sys env (Calloc n) w = (r, w1)" by fastforce
  have k: "keeps_all w w1" using sys_plain [OF s] by (simp add: plain_call_def opens_fd_def)
  have w': "p = 0 \<and> w' = w1 \<or> p = Suc (fresh w1) \<and> w' = w1\<lparr>heap := (heap w1)(p \<mapsto> replicate n 0), fresh := p\<rparr>"
    using assms by (auto simp: c_calloc_def s new_block_def split: if_splits)
  have f: "fresh w1 = fresh w" using sys_effect [OF s] by simp
  have "trace w' = trace w1" using w' by auto
  then show "live_fds w' = live_fds w" "live_maps w' = live_maps w" 
    using k live_trace_cong [of w' w1] by (simp_all add: keeps_all_def)
  show "lib_rings w' = lib_rings w" "lib_umems w' = lib_umems w" "lib_xsks w' = lib_xsks w" "lib_slots w' = lib_slots w" "fresh w \<le> fresh w'" "grows w w'"
    "p = 0 \<Longrightarrow> heap w' = heap w"
    "p \<noteq> 0 \<Longrightarrow> p = Suc (fresh w) \<and> heap w' = (heap w)(p \<mapsto> replicate n 0) \<and> fresh w' = p"
    using w' k f by (auto simp: keeps_all_def frame_def grows_def)
qed

section \<open>Creating and deleting packet memory\<close>

text \<open>The C library's contract: a call that fails stores its reason in \<open>errno\<close>.\<close>

definition failed_call :: "sys_call \<Rightarrow> reply \<Rightarrow> bool" where
  "failed_call c r = (case c of
       Sock (Socket _ _ _) \<Rightarrow> rv r < 0
     | Sock (Mmap _ _ _) \<Rightarrow> of_int (rv r) = MAP_FAILED
     | Sock (If_nametoindex _) \<Rightarrow> rv r = 0
     | Sock _ \<Rightarrow> rv r \<noteq> 0
     | _ \<Rightarrow> False)"

definition reports_errors :: "env \<Rightarrow> bool" where
  "reports_errors env \<longleftrightarrow> (\<forall>t c. failed_call c (answer env t c) \<longrightarrow> rerr (answer env t c) \<noteq> 0)"

definition released :: "nat \<Rightarrow> xsk_world \<Rightarrow> xsk_world \<Rightarrow> bool" where
  "released p w w' \<longleftrightarrow> heap w' = (heap w)(p := None) \<and> fresh w \<le> fresh w' \<and> lib_rings w' = lib_rings w \<and>
     lib_umems w' = lib_umems w \<and> lib_xsks w' = lib_xsks w \<and> lib_slots w' = lib_slots w"

lemma sys_reports:
  "reports_errors env \<Longrightarrow> sys env c w = (r, w') \<Longrightarrow> failed_call c r \<Longrightarrow> errno w' \<noteq> 0"
  by (auto simp: reports_errors_def sys_def Let_def)

lemma call_reports:
  "reports_errors env \<Longrightarrow> call env c w = (v, w') \<Longrightarrow> (\<And>r. rv r = v \<Longrightarrow> failed_call c r) \<Longrightarrow> errno w' \<noteq> 0"
  using sys_reports by (fastforce simp: call_def split: prod.splits)

lemma mmap_reports:
  assumes "reports_errors env" "mmap env len fd off w = (MAP_FAILED, w')" shows "errno w' \<noteq> 0"
proof -
  obtain v where c: "call env (Sock (Mmap len fd off)) w = (v, w')" and v: "of_int v = MAP_FAILED"
    using assms(2) by (auto simp: mmap_def split: prod.splits)
  show ?thesis by (rule call_reports [OF assms(1) c]) (simp add: failed_call_def v)
qed

lemma setopts_effect:
  assumes "setopts env cs w = (f, w')" and "\<forall>c \<in> set cs. plain_call c"
  shows "keeps_all w w'"
  using assms
proof (induction cs arbitrary: w)
  case (Cons c cs)
  obtain e w1 where c: "call env c w = (e, w1)" by fastforce
  have "keeps_all w w1" using call_plain [OF c] Cons.prems by simp
  then show ?case using Cons c by (auto split: if_splits intro: keeps_all_trans)
qed simp

lemma setopts_reports:
  assumes "reports_errors env" and "setopts env cs w = (Some err, w')"
    and "\<forall>c \<in> set cs. \<forall>r. rv r \<noteq> 0 \<longrightarrow> failed_call c r"
  shows "err \<noteq> 0"
  using assms(2,3)
proof (induction cs arbitrary: w)
  case (Cons c cs)
  obtain e w1 where c: "call env c w = (e, w1)" by fastforce
  show ?case
  proof (cases "e = 0")
    case False
    then have "errno w1 \<noteq> 0" using call_reports [OF assms(1) c] Cons.prems(2) by auto
    then show ?thesis using Cons.prems(1) c False by auto
  next
    case True then show ?thesis using Cons c by auto
  qed
qed simp

lemma out_umem_alloc_effect:
  assumes "p \<noteq> 0" and "heap w p \<noteq> None"
  shows "\<exists>w'. out_umem_alloc p err w = Some (err, w') \<and> released p w w' \<and> live_fds w' = live_fds w \<and>
     live_maps w' = live_maps w \<and> trace w' = trace w"
proof -
  obtain w' where "c_free p w = Some w'" "released p w w'" "live_fds w' = live_fds w" "live_maps w' = live_maps w"
    "trace w' = trace w"
    by (rule c_free_effect [OF assms]) (rule that, assumption, simp add: released_def)
  then show ?thesis by (simp add: out_umem_alloc_def)
qed

lemma released_frame: "frame w w1 \<Longrightarrow> released p w1 w' \<Longrightarrow> released p w w'"
  by (simp add: released_def frame_def)

lemma out_umem_socket_effect:
  assumes "p \<noteq> 0" and "heap w p \<noteq> None"
  shows "\<exists>w'. out_umem_socket env fd p err w = Some (err, w') \<and> released p w w' \<and> live_fds w' = live_fds w - {#fd#} \<and>
     live_maps w' = live_maps w \<and> (\<exists>r. trace w' = trace w @ [(Sock (Close fd), r)])"
proof -
  let ?w1 = "close_fd env fd w"
  have f: "frame w ?w1" by (rule close_fd_effect)
  then have h: "heap ?w1 p \<noteq> None" using assms(2) by (simp add: frame_def)
  have t: "\<exists>r. trace ?w1 = trace w @ [(Sock (Close fd), r)]"
    by (simp add: close_fd_def call_def sys_def Let_def)
  show ?thesis
    using out_umem_alloc_effect [OF assms(1) h, of err] released_frame [OF f] t
    by (auto simp: out_umem_socket_def close_fd_effect)
qed

lemma out_umem_mmap_effect:
  assumes "p \<noteq> 0" and "heap w p \<noteq> None"
  shows "\<exists>w'. out_umem_mmap env m len fd p err w = Some (err, w') \<and> released p w w' \<and>
     live_fds w' = live_fds w - {#fd#} \<and> live_maps w' = live_maps w - {#(m, len)#} \<and>
     (\<exists>r1 r2. trace w' = trace w @ [(Sock (Munmap m len), r1), (Sock (Close fd), r2)])"
proof -
  let ?w1 = "munmap env m len w"
  have f: "frame w ?w1" by (rule munmap_effect)
  then have h: "heap ?w1 p \<noteq> None" using assms(2) by (simp add: frame_def)
  have t: "\<exists>r. trace ?w1 = trace w @ [(Sock (Munmap m len), r)]"
    by (simp add: munmap_def call_def sys_def Let_def)
  show ?thesis
    using out_umem_socket_effect [OF assms(1) h, of env fd err] released_frame [OF f] t
    by (auto simp: out_umem_mmap_def munmap_effect)
qed

lemma put_ring_effect:
  assumes "lib_rings w p = Some r"
  obtains w' where "put_ring p f w = Some w'" "w' = w\<lparr>lib_rings := (lib_rings w)(p \<mapsto> f r)\<rparr>" "live_fds w' = live_fds w"
    "live_maps w' = live_maps w"
  using assms live_trace_cong [of "w\<lparr>lib_rings := (lib_rings w)(p \<mapsto> f r)\<rparr>" w] by (simp add: put_ring_def)

text \<open>The two rings after a successful creation, and the whole effect of one.\<close>

definition umem_rings ::
    "reply \<Rightarrow> xsk_umem_config \<Rightarrow> u64 \<Rightarrow> u64 \<Rightarrow> nat \<Rightarrow> nat \<Rightarrow> (nat \<rightharpoonup> ring_ptrs) \<Rightarrow> (nat \<rightharpoonup> ring_ptrs)" where
  "umem_rings off cfg m1 m2 fill cmpl R =
     R(fill \<mapsto> (set_ring (fill_size cfg) m1 (ring_off off 2) (the (R fill)))\<lparr>rp_cached_cons := fill_size cfg\<rparr>,
       cmpl \<mapsto> set_ring (comp_size cfg) m2 (ring_off off 3) (the (R cmpl)))"

definition new_umem :: "nat \<Rightarrow> nat \<Rightarrow> nat \<Rightarrow> xsk_umem_config \<Rightarrow> int \<Rightarrow> xsk_umem" where
  "new_umem fill cmpl area cfg fd =
     \<lparr>um_fill = fill, um_comp = cmpl, um_area = area, um_config = cfg, um_fd = fd, um_refcount = 0\<rparr>"

definition umem_mappings :: "reply \<Rightarrow> xsk_umem_config \<Rightarrow> u64 \<Rightarrow> u64 \<Rightarrow> (u64 \<times> u64) multiset" where
  "umem_mappings off cfg m1 m2 =
     {#(m1, addr_ring_len (ring_off off 2) (fill_size cfg)), (m2, addr_ring_len (ring_off off 3) (comp_size cfg))#}"

text \<open>The mapping of the fill ring stays behind: \<open>munmap\<close> was given the failed address.\<close>

definition bad_unmap :: "int \<Rightarrow> reply \<Rightarrow> xsk_umem_config \<Rightarrow> (sys_call \<times> reply) list \<Rightarrow> bool" where
  "bad_unmap fd off cfg t \<longleftrightarrow>
     (\<exists>r1 r2 r3. t = [(Sock (Mmap (addr_ring_len (ring_off off 3) (comp_size cfg)) fd XDP_UMEM_PGOFF_COMPLETION_RING), r1),
        (Sock (Munmap MAP_FAILED (addr_ring_len (ring_off off 2) (fill_size cfg))), r2), (Sock (Close fd), r3)])"

definition fill_leaked :: "int \<Rightarrow> reply \<Rightarrow> xsk_umem_config \<Rightarrow> xsk_world \<Rightarrow> xsk_world \<Rightarrow> bool" where
  "fill_leaked fd off cfg w w' \<longleftrightarrow>
     (let len = addr_ring_len (ring_off off 2) (fill_size cfg)
      in \<exists>t0 r t. trace w' = trace w @ t0 @ (Sock (Mmap len fd XDP_UMEM_PGOFF_FILL_RING), r) # t \<and> bad_unmap fd off cfg t \<and>
          live_maps w' = add_mset (of_int (rv r), len) (live_maps w))"

definition umem_made ::
    "nat \<Rightarrow> nat \<Rightarrow> int \<Rightarrow> xsk_umem_config \<Rightarrow> reply \<Rightarrow> nat \<Rightarrow> nat \<Rightarrow> nat \<Rightarrow> u64 \<Rightarrow> u64 \<Rightarrow> xsk_world \<Rightarrow> xsk_world \<Rightarrow> bool" where
  "umem_made ptr area fd cfg off u fill cmpl m1 m2 w w' \<longleftrightarrow>
     lib_umems w' = (lib_umems w)(u \<mapsto> new_umem fill cmpl area cfg fd) \<and> lib_slots w' = (lib_slots w)(ptr := u) \<and>
     lib_rings w' = umem_rings off cfg m1 m2 fill cmpl (lib_rings w) \<and> lib_xsks w' = lib_xsks w \<and>
     live_maps w' = live_maps w + umem_mappings off cfg m1 m2"

definition dropped :: "nat \<Rightarrow> xsk_world \<Rightarrow> xsk_world \<Rightarrow> bool" where
  "dropped p w w' \<longleftrightarrow> heap w' = (heap w)(p := None) \<and> fresh w \<le> fresh w' \<and> lib_umems w' = lib_umems w \<and>
     lib_xsks w' = lib_xsks w \<and> lib_slots w' = lib_slots w"

lemma released_dropped: "released p w w' \<Longrightarrow> dropped p w w'"
  by (simp add: released_def dropped_def)

lemma umem_map_comp_cases:
  assumes "lib_rings w cmpl \<noteq> None" "u \<noteq> 0" "heap w u \<noteq> None"
  shows "\<exists>err w'. umem_map_comp env ptr area fd cfg off u fill cmpl w = Some (err, w') \<and>
     (err = 0 \<and> heap w' = heap w \<and> fresh w \<le> fresh w' \<and> live_fds w' = live_fds w \<and> lib_xsks w' = lib_xsks w \<and>
        lib_umems w' = (lib_umems w)(u \<mapsto> new_umem fill cmpl area cfg fd) \<and> lib_slots w' = (lib_slots w)(ptr := u) \<and>
        (\<exists>m. lib_rings w' = (lib_rings w)(cmpl \<mapsto> set_ring (comp_size cfg) m (ring_off off 3) (the (lib_rings w cmpl))) \<and>
             live_maps w' = add_mset (m, addr_ring_len (ring_off off 3) (comp_size cfg)) (live_maps w)) \<or>
      (reports_errors env \<longrightarrow> err \<noteq> 0) \<and> dropped u w w' \<and> live_fds w' = live_fds w - {#fd#} \<and> live_maps w' = live_maps w \<and>
        (\<exists>t. trace w' = trace w @ t \<and> bad_unmap fd off cfg t))"
proof -
  let ?cr = "ring_off off 3"
  let ?len = "addr_ring_len (ring_off off 2) (fill_size cfg)" and ?len2 = "addr_ring_len ?cr (comp_size cfg)"
  obtain m w1 where c: "mmap env ?len2 fd XDP_UMEM_PGOFF_COMPLETION_RING w = (m, w1)" by fastforce
  note e = mmap_effect [OF c]
  show ?thesis
  proof (cases "m = MAP_FAILED")
    case True
    have h: "heap w1 u \<noteq> None" using e assms(3) by (simp add: frame_def)
    obtain w' r2 r3 where o: "out_umem_mmap env MAP_FAILED ?len fd u (- errno w1) w1 = Some (- errno w1, w')"
      and d: "released u w1 w'" and l: "live_fds w' = live_fds w1 - {#fd#}" "live_maps w' = live_maps w1 - {#(MAP_FAILED, ?len)#}"
      and t: "trace w' = trace w1 @ [(Sock (Munmap MAP_FAILED ?len), r2), (Sock (Close fd), r3)]"
      using out_umem_mmap_effect [OF assms(2) h] by blast
    have "live_maps w' = live_maps w" using l(2) e True failed_not_mapped [of ?len w] by (simp add: diff_single_trivial)
    moreover have "\<exists>t. trace w' = trace w @ t \<and> bad_unmap fd off cfg t" using t e by (auto simp: bad_unmap_def)
    moreover have "dropped u w w'" using released_frame [OF _ d] e by (blast intro: released_dropped)
    moreover have "reports_errors env \<Longrightarrow> errno w1 \<noteq> 0" using mmap_reports c True by blast
    ultimately show ?thesis using True c o l(1) e by (simp add: umem_map_comp_def)
  next
    case False
    have "lib_rings w1 cmpl \<noteq> None" using e assms(1) by (simp add: frame_def)
    then obtain rc where rc: "lib_rings w1 cmpl = Some rc" by blast
    obtain w2 where p2: "put_ring cmpl (set_ring (comp_size cfg) m ?cr) w1 = Some w2"
      and w2: "w2 = w1\<lparr>lib_rings := (lib_rings w1)(cmpl \<mapsto> set_ring (comp_size cfg) m ?cr rc)\<rparr>"
      and l2: "live_fds w2 = live_fds w1" "live_maps w2 = live_maps w1"
      by (rule put_ring_effect [OF rc])
    let ?w3 = "w2\<lparr>lib_umems := (lib_umems w2)(u \<mapsto> new_umem fill cmpl area cfg fd), lib_slots := (lib_slots w2)(ptr := u)\<rparr>"
    have l3: "live_fds ?w3 = live_fds w2" "live_maps ?w3 = live_maps w2" by (simp_all add: live_fds_def live_maps_def)
    have "umem_map_comp env ptr area fd cfg off u fill cmpl w = Some (0, ?w3)"
      using False c p2 by (simp add: umem_map_comp_def new_umem_def)
    then show ?thesis using w2 l2 l3 e rc False by (simp add: frame_def)
  qed
qed

lemma umem_map_rings_cases:
  assumes "lib_rings w fill \<noteq> None" "lib_rings w cmpl \<noteq> None" "fill \<noteq> cmpl" "u \<noteq> 0" "heap w u \<noteq> None"
  shows "\<exists>err w'. umem_map_rings env ptr area fd cfg off u fill cmpl w = Some (err, w') \<and>
     (err = 0 \<and> heap w' = heap w \<and> fresh w \<le> fresh w' \<and> live_fds w' = live_fds w \<and>
        (\<exists>m1 m2. umem_made ptr area fd cfg off u fill cmpl m1 m2 w w') \<or>
      (reports_errors env \<longrightarrow> err \<noteq> 0) \<and> dropped u w w' \<and> live_fds w' = live_fds w - {#fd#} \<and>
        (live_maps w' = live_maps w \<or> fill_leaked fd off cfg w w'))"
proof -
  let ?fr = "ring_off off 2" and ?len = "addr_ring_len (ring_off off 2) (fill_size cfg)"
  obtain m1 w1 where c1: "mmap env ?len fd XDP_UMEM_PGOFF_FILL_RING w = (m1, w1)" by fastforce
  note e1 = mmap_effect [OF c1]
  have h1: "heap w1 u \<noteq> None" and R1: "lib_rings w1 = lib_rings w" using e1 assms(5) by (simp_all add: frame_def)
  show ?thesis
  proof (cases "m1 = MAP_FAILED")
    case True
    obtain w' where o: "out_umem_socket env fd u (- errno w1) w1 = Some (- errno w1, w')" and d: "released u w1 w'"
      and l: "live_fds w' = live_fds w1 - {#fd#}" "live_maps w' = live_maps w1"
      using out_umem_socket_effect [OF assms(4) h1] by blast
    have "dropped u w w'" using released_frame [OF _ d] e1 by (blast intro: released_dropped)
    moreover have "reports_errors env \<Longrightarrow> errno w1 \<noteq> 0" using mmap_reports c1 True by blast
    ultimately show ?thesis using True c1 o l e1 by (simp add: umem_map_rings_def)
  next
    case False
    obtain rf where rf: "lib_rings w1 fill = Some rf" using assms(1) R1 by auto
    let ?g = "\<lambda>r. (set_ring (fill_size cfg) m1 ?fr r)\<lparr>rp_cached_cons := fill_size cfg\<rparr>"
    obtain w2 where p2: "put_ring fill ?g w1 = Some w2" and w2: "w2 = w1\<lparr>lib_rings := (lib_rings w1)(fill \<mapsto> ?g rf)\<rparr>"
      and l2: "live_fds w2 = live_fds w1" "live_maps w2 = live_maps w1"
      by (rule put_ring_effect [OF rf])
    have f2: "heap w2 = heap w" "fresh w \<le> fresh w2" "lib_umems w2 = lib_umems w" "lib_xsks w2 = lib_xsks w"
      "lib_slots w2 = lib_slots w" "lib_rings w2 = (lib_rings w)(fill \<mapsto> ?g rf)" "live_fds w2 = live_fds w"
      "live_maps w2 = add_mset (m1, ?len) (live_maps w)" "lib_rings w fill = Some rf"
      using w2 l2 e1 False rf R1 by (simp_all add: frame_def)
    obtain r1 where t1: "trace w2 = trace w @ [(Sock (Mmap ?len fd XDP_UMEM_PGOFF_FILL_RING), r1)]" "of_int (rv r1) = m1"
      using c1 w2 by (auto simp: mmap_def call_def sys_def Let_def)
    have run: "umem_map_rings env ptr area fd cfg off u fill cmpl w = umem_map_comp env ptr area fd cfg off u fill cmpl w2"
      using False c1 p2 by (simp add: umem_map_rings_def)
    have pre: "lib_rings w2 cmpl \<noteq> None" "heap w2 u \<noteq> None" using f2 assms(2,5) by auto
    show ?thesis unfolding run
      using umem_map_comp_cases [OF pre(1) assms(4) pre(2), of env ptr area fd cfg off fill]
    proof (elim exE conjE disjE, goal_cases)
      case (1 err w' m2)
      then have "umem_made ptr area fd cfg off u fill cmpl m1 m2 w w'"
        using f2 assms(3) by (simp add: umem_made_def umem_rings_def umem_mappings_def)
      then show ?case using 1 f2 by auto
    next
      case (2 err w' t)
      then have "trace w' = trace w @ [] @ (Sock (Mmap ?len fd XDP_UMEM_PGOFF_FILL_RING), r1) # t"
        "live_maps w' = add_mset (of_int (rv r1), ?len) (live_maps w)"
        using t1 f2 by simp_all
      then have "fill_leaked fd off cfg w w'" using 2 unfolding fill_leaked_def Let_def by blast
      then show ?case using 2 f2 by (auto simp: dropped_def)
    qed
  qed
qed

lemma fill_leaked_grows:
  "grows w0 w \<Longrightarrow> live_maps w = live_maps w0 \<Longrightarrow> fill_leaked fd off cfg w w' \<Longrightarrow> fill_leaked fd off cfg w0 w'"
  unfolding fill_leaked_def Let_def grows_def by (metis append_assoc)

definition untouched :: "xsk_world \<Rightarrow> xsk_world \<Rightarrow> bool" where
  "untouched w w' \<longleftrightarrow> heap w' = heap w \<and> fresh w \<le> fresh w' \<and> lib_umems w' = lib_umems w \<and> lib_xsks w' = lib_xsks w \<and> lib_slots w' = lib_slots w"

text \<open>What \<open>xsk_umem__create\<close> can end in: a complete umem, or a failure.\<close>

definition umem_success ::
    "env \<Rightarrow> nat \<Rightarrow> nat \<Rightarrow> xsk_umem_config \<Rightarrow> nat \<Rightarrow> nat \<Rightarrow> nat \<Rightarrow> int \<Rightarrow> reply \<Rightarrow> u64 \<Rightarrow> u64 \<Rightarrow> xsk_world \<Rightarrow> xsk_world \<Rightarrow> bool" where
  "umem_success env ptr area cfg fill cmpl u fd off m1 m2 w w' \<longleftrightarrow>
     heap w u = None \<and> u \<noteq> 0 \<and> heap w' = (heap w)(u \<mapsto> replicate 48 0) \<and> u \<le> fresh w' \<and> fresh w \<le> fresh w' \<and>
     live_fds w' = add_mset fd (live_fds w) \<and> umem_made ptr area fd cfg off u fill cmpl m1 m2 w w' \<and>
     (\<exists>t. off = answer env t (Sock (Getsockopt fd SOL_XDP XDP_MMAP_OFFSETS)))"

definition umem_failure :: "xsk_umem_config \<Rightarrow> xsk_world \<Rightarrow> xsk_world \<Rightarrow> bool" where
  "umem_failure cfg w w' \<longleftrightarrow> untouched w w' \<and> live_fds w' = live_fds w \<and>
     (live_maps w' = live_maps w \<or> (\<exists>fd off. fill_leaked fd off cfg w w'))"

text \<open>The part after the block has been allocated and the socket opened.\<close>

lemma lib_heap_fresh: "heap_ok w \<Longrightarrow> heap w (Suc (fresh w)) = None"
  using not_less_eq_eq unfolding heap_ok_def by blast

lemma dropped_new:
  assumes "dropped u w2 w'" and "heap w2 = (heap w)(u \<mapsto> b)" "fresh w \<le> fresh w2" "heap w u = None" "lib_umems w2 = lib_umems w"
    "lib_xsks w2 = lib_xsks w" "lib_slots w2 = lib_slots w"
  shows "untouched w w'"
  using assms by (auto simp: dropped_def untouched_def)

text \<open>The world in the middle of the creation: the new block, and the open socket.\<close>

definition umem_midway :: "nat \<Rightarrow> int multiset \<Rightarrow> xsk_world \<Rightarrow> xsk_world \<Rightarrow> bool" where
  "umem_midway u F w ws \<longleftrightarrow> u \<noteq> 0 \<and> heap w u = None \<and> heap ws = (heap w)(u \<mapsto> replicate 48 0) \<and> u \<le> fresh ws \<and> fresh w \<le> fresh ws \<and>
     lib_rings ws = lib_rings w \<and> lib_umems ws = lib_umems w \<and> lib_xsks ws = lib_xsks w \<and> lib_slots ws = lib_slots w \<and>
     grows w ws \<and> live_fds ws = live_fds w + F \<and> live_maps ws = live_maps w"

lemma umem_midway_keeps: "umem_midway u F w ws \<Longrightarrow> keeps_all ws ws' \<Longrightarrow> umem_midway u F w ws'"
  by (auto simp: umem_midway_def keeps_all_def frame_def grows_def)

lemma umem_midway_out:
  assumes "umem_midway u {#fd#} w ws"
  shows "\<exists>w'. out_umem_socket env fd u err ws = Some (err, w') \<and> umem_failure cfg w w'"
proof -
  obtain w' where "out_umem_socket env fd u err ws = Some (err, w')" "released u ws w'" "live_fds w' = live_fds ws - {#fd#}"
    "live_maps w' = live_maps ws"
    using out_umem_socket_effect [of u ws env fd err] assms by (auto simp: umem_midway_def)
  moreover from this have "untouched w w'"
    using assms by (intro dropped_new [of u ws]) (auto simp: umem_midway_def intro: released_dropped)
  ultimately show ?thesis using assms by (simp add: umem_midway_def umem_failure_def)
qed

lemma umem_midway_alloc:
  assumes "umem_midway u {#} w ws"
  shows "\<exists>w'. out_umem_alloc u err ws = Some (err, w') \<and> umem_failure cfg w w'"
proof -
  obtain w' where "out_umem_alloc u err ws = Some (err, w')" "released u ws w'" "live_fds w' = live_fds ws"
    "live_maps w' = live_maps ws"
    using out_umem_alloc_effect [of u ws err] assms by (auto simp: umem_midway_def)
  moreover from this have "untouched w w'"
    using assms by (intro dropped_new [of u ws]) (auto simp: umem_midway_def intro: released_dropped)
  ultimately show ?thesis using assms by (simp add: umem_midway_def umem_failure_def)
qed

lemma umem_midway_rings:
  assumes "umem_midway u {#fd#} w ws" and R: "lib_rings w fill \<noteq> None" "lib_rings w cmpl \<noteq> None" "fill \<noteq> cmpl"
    and off: "off = answer env t (Sock (Getsockopt fd SOL_XDP XDP_MMAP_OFFSETS))"
  shows "\<exists>err w'. umem_map_rings env ptr area fd cfg off u fill cmpl ws = Some (err, w') \<and>
     (err = 0 \<and> (\<exists>m1 m2. umem_success env ptr area cfg fill cmpl u fd off m1 m2 w w') \<or>
      (reports_errors env \<longrightarrow> err \<noteq> 0) \<and> umem_failure cfg w w')"
proof -
  note m = assms(1) [unfolded umem_midway_def]
  have pre: "lib_rings ws fill \<noteq> None" "lib_rings ws cmpl \<noteq> None" "u \<noteq> 0" "heap ws u \<noteq> None" using m R by simp_all
  show ?thesis
    using umem_map_rings_cases [OF pre(1,2) R(3) pre(3,4), of env ptr area fd cfg off]
  proof (elim exE conjE disjE, goal_cases)
    case (1 err w' m1 m2)
    then have "umem_success env ptr area cfg fill cmpl u fd off m1 m2 w w'"
      using m off by (auto simp: umem_success_def umem_made_def)
    then show ?case using 1 by blast
  next
    case (2 err w')
    then have "untouched w w'" using m by (intro dropped_new [of u ws]) auto
    then show ?case using 2 m by (auto simp: umem_failure_def)
  next
    case (3 err w')
    then have "untouched w w'" using m by (intro dropped_new [of u ws]) auto
    moreover have "fill_leaked fd off cfg w w'" using fill_leaked_grows 3 m by blast
    ultimately show ?case using 3 m by (auto simp: umem_failure_def)
  qed
qed

lemma umem_create_cases:
  assumes "heap_ok w" "ptr \<noteq> 0" "area \<noteq> 0" "fill \<noteq> 0" "cmpl \<noteq> 0" "fill \<noteq> cmpl"
    and R: "lib_rings w fill \<noteq> None" "lib_rings w cmpl \<noteq> None" and cfg: "cfg = xsk_set_umem_config usr"
  shows "\<exists>err w'. xsk_umem__create env ptr area sz fill cmpl usr w = Some (err, w') \<and>
     (err = 0 \<and> (\<exists>u fd off m1 m2. umem_success env ptr area cfg fill cmpl u fd off m1 m2 w w') \<or>
      (reports_errors env \<longrightarrow> err \<noteq> 0) \<and> umem_failure cfg w w')"
proof (cases "sz = 0 \<and> \<not> xsk_page_aligned area")
  case True
  then show ?thesis
    using assms by (simp add: xsk_umem__create_def umem_failure_def untouched_def LIB_EINVAL_def)
next
  case ok: False
  obtain u w1 where c1: "c_calloc env 48 w = (u, w1)" by fastforce
  note e1 = c_calloc_lib [OF c1]
  obtain fd w2 where c2: "call env (Sock (Socket AF_XDP 3 0)) w1 = (fd, w2)" by fastforce
  note e2 = open_fd_effect [OF c2, unfolded opens_fd_def, simplified]
  let ?cs = "[Sock (Umem_reg fd area sz (frame_size cfg) (frame_headroom cfg)),
    Sock (Setsockopt_int fd SOL_XDP XDP_UMEM_FILL_RING (uint (fill_size cfg))),
    Sock (Setsockopt_int fd SOL_XDP XDP_UMEM_COMPLETION_RING (uint (comp_size cfg)))]"
  obtain f w3 where c3: "setopts env ?cs w2 = (f, w3)" by fastforce
  have k3: "keeps_all w2 w3" by (rule setopts_effect [OF c3]) (simp add: plain_call_def opens_fd_def)
  let ?g = "Sock (Getsockopt fd SOL_XDP XDP_MMAP_OFFSETS)"
  obtain off w4 where c4: "sys env ?g w3 = (off, w4)" by fastforce
  have k4: "keeps_all w3 w4" by (rule sys_plain [OF c4]) (simp add: plain_call_def opens_fd_def)
  have hu: "heap w (Suc (fresh w)) = None" using assms(1) by (rule lib_heap_fresh)
  have run: "xsk_umem__create env ptr area sz fill cmpl usr w =
    (if u = 0 then Some (- LIB_ENOMEM, w1) else if fd < 0 then out_umem_alloc u (- errno w2) w2
     else case f of Some err \<Rightarrow> out_umem_socket env fd u err w3
          | None \<Rightarrow> if rv off \<noteq> 0 then out_umem_socket env fd u (- errno w4) w4
                    else umem_map_rings env ptr area fd cfg off u fill cmpl w4)"
    using assms(2-5) c1 c2 c3 c4 unfolding xsk_umem__create_def if_not_P [OF ok] cfg
    by (simp add: Let_def split: option.split)
  show ?thesis
  proof (cases "u = 0")
    case True
    then show ?thesis unfolding run using e1 by (simp add: umem_failure_def untouched_def LIB_ENOMEM_def)
  next
    case u: False
    then have m1: "umem_midway u {#} w w1" using e1 hu by (auto simp: umem_midway_def)
    have m2: "umem_midway u (if 0 \<le> fd then {#fd#} else {#}) w w2"
      using m1 e2 by (auto simp: umem_midway_def frame_def grows_def)
    show ?thesis
    proof (cases "fd < 0")
      case True
      then have "umem_midway u {#} w w2" using m2 by simp
      then show ?thesis unfolding run using umem_midway_alloc call_reports [OF _ c2] u True by (fastforce simp: failed_call_def)
    next
      case fd: False
      then have m3: "umem_midway u {#fd#} w w3" using umem_midway_keeps [OF m2 k3] by simp
      note m4 = umem_midway_keeps [OF m3 k4]
      have rep: "reports_errors env \<Longrightarrow> f = Some err \<Longrightarrow> err \<noteq> 0" for err
        using setopts_reports [of env ?cs w2 err w3] c3 by (simp add: failed_call_def del: setopts.simps)
      have rep4: "reports_errors env \<Longrightarrow> rv off \<noteq> 0 \<Longrightarrow> errno w4 \<noteq> 0"
        using sys_reports [OF _ c4] by (simp add: failed_call_def)
      have off: "off = answer env (trace w3) ?g" using c4 by (simp add: sys_def Let_def)
      consider err where "f = Some err" | "f = None" "rv off \<noteq> 0" | "f = None" "rv off = 0" by fastforce
      then show ?thesis
      proof cases
        case 1
        then show ?thesis unfolding run using u fd umem_midway_out [OF m3, of env err cfg] rep by auto
      next
        case 2
        then show ?thesis unfolding run using u fd umem_midway_out [OF m4, of env "- errno w4" cfg] rep4 by auto
      next
        case 3
        then show ?thesis unfolding run using u fd umem_midway_rings [OF m4 R assms(6) off, of ptr area cfg] by simp blast
      qed
    qed
  qed
qed

text \<open>Deletion: the mappings are found again from the ring pointers.\<close>

lemma umem_delete_effect:
  assumes "u \<noteq> 0" "lib_umems w u = Some U" "um_refcount U = 0" "heap w u \<noteq> None"
    and "lib_rings w (um_fill U) = Some f" "lib_rings w (um_comp U) = Some c"
    and "\<And>t. answer env t (Sock (Getsockopt (um_fd U) SOL_XDP XDP_MMAP_OFFSETS)) = off" "rv off = 0"
  shows "\<exists>w'. xsk_umem__delete env u w = Some (0, w') \<and> heap w' = (heap w)(u := None) \<and> fresh w \<le> fresh w' \<and>
     lib_umems w' = (lib_umems w)(u := None) \<and> lib_xsks w' = lib_xsks w \<and> lib_rings w' = lib_rings w \<and>
     live_fds w' = live_fds w - {#um_fd U#} \<and>
     live_maps w' = live_maps w - umem_mappings off (um_config U) (rp_ring f - o_desc (ring_off off 2)) (rp_ring c - o_desc (ring_off off 3))"
proof -
  let ?fr = "ring_off off 2" and ?cr = "ring_off off 3" and ?cfg = "um_config U"
  obtain r w1 where c1: "sys env (Sock (Getsockopt (um_fd U) SOL_XDP XDP_MMAP_OFFSETS)) w = (r, w1)" by fastforce
  have r: "r = off" using c1 assms(7) by (simp add: sys_def Let_def)
  have k1: "keeps_all w w1" by (rule sys_plain [OF c1]) (simp add: plain_call_def opens_fd_def)
  let ?w2 = "munmap env (rp_ring f - o_desc ?fr) (addr_ring_len ?fr (fill_size ?cfg)) w1"
  let ?w3 = "munmap env (rp_ring c - o_desc ?cr) (addr_ring_len ?cr (comp_size ?cfg)) ?w2"
  let ?w4 = "close_fd env (um_fd U) ?w3"
  have "frame w1 ?w4" by (blast intro: frame_trans munmap_effect close_fd_effect)
  then have f: "frame w ?w4" using k1 frame_trans by (auto simp: keeps_all_def)
  then have "heap ?w4 u \<noteq> None" using assms(4) by (simp add: frame_def)
  then have "c_free u ?w4 = Some (?w4\<lparr>heap := (heap ?w4)(u := None)\<rparr>)" using assms(1) by (auto simp: c_free_def)
  then obtain w5 where p: "c_free u ?w4 = Some w5" and w5: "w5 = ?w4\<lparr>heap := (heap ?w4)(u := None)\<rparr>" by blast
  have h: "heap w5 = (heap ?w4)(u := None)" "fresh w5 = fresh ?w4"
    and s: "lib_rings w5 = lib_rings ?w4" "lib_umems w5 = lib_umems ?w4" "lib_xsks w5 = lib_xsks ?w4"
      "live_fds w5 = live_fds ?w4" "live_maps w5 = live_maps ?w4"
    unfolding w5 by (simp_all add: live_fds_def live_maps_def)
  let ?w6 = "w5\<lparr>lib_umems := (lib_umems w5)(u := None)\<rparr>"
  have l: "live_fds ?w6 = live_fds w5" "live_maps ?w6 = live_maps w5" by (simp_all add: live_fds_def live_maps_def)
  have R: "lib_rings w1 = lib_rings w" using k1 by (simp add: keeps_all_def frame_def)
  have "xsk_umem__delete env u w = Some (0, ?w6)"
    using assms(1,2,3,5,6,8) c1 p unfolding r xsk_umem__delete_def by (simp add: R Let_def unmap_umem_def drop_umem_def)
  moreover have "live_fds ?w6 = live_fds w - {#um_fd U#}"
    using l s k1 by (simp add: close_fd_effect munmap_effect keeps_all_def)
  moreover have "live_maps ?w6 = live_maps w - umem_mappings off ?cfg (rp_ring f - o_desc ?fr) (rp_ring c - o_desc ?cr)"
    using l s k1 by (simp add: close_fd_effect munmap_effect keeps_all_def umem_mappings_def add_mset_commute)
  ultimately show ?thesis using h s f by (simp add: frame_def)
qed

text \<open>The kernel's side of the contract: the layout of the rings does not change.\<close>

definition const_offsets :: "env \<Rightarrow> bool" where
  "const_offsets env \<longleftrightarrow>
     (\<exists>off. rv off = 0 \<and> (\<forall>t fd. answer env t (Sock (Getsockopt fd SOL_XDP XDP_MMAP_OFFSETS)) = off))"

text \<open>The caller's side: valid arguments, and a store in which every object has its block.\<close>

definition lib_ok :: "xsk_world \<Rightarrow> bool" where
  "lib_ok w \<longleftrightarrow> heap_ok w \<and> dom (lib_umems w) \<union> dom (lib_xsks w) \<subseteq> dom (heap w) \<and> dom (lib_umems w) \<inter> dom (lib_xsks w) = {}"

definition umem_args :: "nat \<Rightarrow> nat \<Rightarrow> nat \<Rightarrow> nat \<Rightarrow> xsk_world \<Rightarrow> bool" where
  "umem_args ptr area fill cmpl w \<longleftrightarrow> lib_ok w \<and> ptr \<noteq> 0 \<and> area \<noteq> 0 \<and> fill \<noteq> 0 \<and> cmpl \<noteq> 0 \<and> fill \<noteq> cmpl \<and>
     lib_rings w fill \<noteq> None \<and> lib_rings w cmpl \<noteq> None"

lemma umem_create_outcome_aux:
  assumes "umem_args ptr area fill cmpl w" and "reports_errors env"
  shows "\<exists>err w'. xsk_umem__create env ptr area sz fill cmpl usr w = Some (err, w') \<and>
     (if err = 0
      then \<exists>u fd off m1 m2. umem_success env ptr area (xsk_set_umem_config usr) fill cmpl u fd off m1 m2 w w'
      else umem_failure (xsk_set_umem_config usr) w w')"
  using umem_create_cases [of w ptr area fill cmpl "xsk_set_umem_config usr" usr env sz] assms
  by (fastforce simp: umem_args_def lib_ok_def)

section \<open>Setting up the default program\<close>

definition same_xsk :: "xsk_socket \<Rightarrow> xsk_socket \<Rightarrow> bool" where
  "same_xsk x x' \<longleftrightarrow> xs_rx x' = xs_rx x \<and> xs_tx x' = xs_tx x \<and> xs_umem x' = xs_umem x \<and> xs_config x' = xs_config x \<and>
     xs_fd x' = xs_fd x \<and> xs_ifindex x' = xs_ifindex x \<and> xs_queue_id x' = xs_queue_id x"

text \<open>The descriptors a socket structure owns besides its own.\<close>

definition prog_fds :: "xsk_socket \<Rightarrow> int multiset" where
  "prog_fds x = (if xs_prog_fd x = -1 then {#} else {#xs_prog_fd x, xs_xsks_map_fd x#})"

lemma get_max_queues_effect: "xsk_get_max_queues env x w = (v, w') \<Longrightarrow> keeps_all w w'"
proof -
  assume g: "xsk_get_max_queues env x w = (v, w')"
  obtain fd w1 where c1: "call env (Sock (Socket 2 2 0)) w = (fd, w1)" by fastforce
  note e1 = open_fd_effect [OF c1, unfolded opens_fd_def, simplified]
  obtain r w2 where c2: "sys env (Sock (Ethtool_channels fd (take 15 (xs_ifname x)))) w1 = (r, w2)" by fastforce
  have k2: "keeps_all w1 w2" by (rule sys_plain [OF c2]) (simp add: plain_call_def opens_fd_def)
  have "w' = (if fd < 0 then w1 else close_fd env fd w2)"
    using g c1 c2 by (auto simp: xsk_get_max_queues_def Let_def split: if_splits)
  moreover have "keeps_all w w1" if "fd < 0" using e1 that by (simp add: keeps_all_def)
  moreover have "frame w (close_fd env fd w2)"
    using frame_trans [OF frame_trans [OF e1(1)] close_fd_effect(1)] k2 by (simp add: keeps_all_def)
  ultimately show ?thesis using e1 k2 by (simp add: keeps_all_def close_fd_effect)
qed

lemma delete_bpf_maps_effect:
  "frame w (xsk_delete_bpf_maps env x w)" "live_fds (xsk_delete_bpf_maps env x w) = live_fds w - {#xs_xsks_map_fd x#}"
  "live_maps (xsk_delete_bpf_maps env x w) = live_maps w"
proof -
  obtain v w1 where c: "call env (Bpf (Map_delete32 (xs_xsks_map_fd x) (xs_queue_id x))) w = (v, w1)" by fastforce
  have "keeps_all w w1" by (rule call_plain [OF c]) (simp add: plain_call_def opens_fd_def)
  then show "frame w (xsk_delete_bpf_maps env x w)" "live_fds (xsk_delete_bpf_maps env x w) = live_fds w - {#xs_xsks_map_fd x#}"
    "live_maps (xsk_delete_bpf_maps env x w) = live_maps w"
    using close_fd_effect [where w = w1 and fd = "xs_xsks_map_fd x"] by (auto simp: xsk_delete_bpf_maps_def c keeps_all_def intro: frame_trans)
qed

lemma create_bpf_maps_effect:
  assumes "xsk_create_bpf_maps env x w = (err, x', w')"
  shows "frame w w'" "same_xsk x x'" "live_maps w' = live_maps w" "xs_prog_fd x' = xs_prog_fd x"
    "live_fds w' = live_fds w + (if err = 0 then {#xs_xsks_map_fd x'#} else {#})"
proof -
  obtain q w1 where c1: "xsk_get_max_queues env x w = (q, w1)" by fastforce
  have k1: "keeps_all w w1" by (rule get_max_queues_effect [OF c1])
  obtain fd w2 where c2: "call env (Bpf (Create_map ''xsks_map'' q)) w1 = (fd, w2)" by fastforce
  note e2 = open_fd_effect [OF c2, unfolded opens_fd_def, simplified]
  have r: "err = (if q < 0 then q else if fd < 0 then fd else 0) \<and> w' = (if q < 0 then w1 else w2) \<and>
     x' = (if q < 0 \<or> fd < 0 then x else x\<lparr>xs_xsks_map_fd := fd\<rparr>)"
    using assms c1 c2 by (auto simp: xsk_create_bpf_maps_def split: if_splits)
  show "frame w w'" "same_xsk x x'" "live_maps w' = live_maps w" "xs_prog_fd x' = xs_prog_fd x"
    "live_fds w' = live_fds w + (if err = 0 then {#xs_xsks_map_fd x'#} else {#})"
    using r k1 e2 by (auto simp: keeps_all_def same_xsk_def split: if_splits intro: frame_trans)
qed

lemma load_xdp_prog_effect:
  assumes "xsk_load_xdp_prog env x w = (err, x', w')"
  shows "frame w w'" "same_xsk x x'" "live_maps w' = live_maps w" "xs_xsks_map_fd x' = xs_xsks_map_fd x"
    "live_fds w' = live_fds w + (if err = 0 then {#xs_prog_fd x'#} else {#})" "err = 0 \<Longrightarrow> 0 \<le> xs_prog_fd x'"
proof -
  obtain fd w1 where c1: "call env (Bpf (Load_program (xsk_prog (xs_xsks_map_fd x)))) w = (fd, w1)" by fastforce
  note e1 = open_fd_effect [OF c1, unfolded opens_fd_def, simplified]
  let ?c = "Bpf (Set_link_xdp_fd (xs_ifindex x) fd (sc_xdp_flags (xs_config x)))"
  obtain e w2 where c2: "call env ?c w1 = (e, w2)" by fastforce
  have k2: "keeps_all w1 w2" by (rule call_plain [OF c2]) (simp add: plain_call_def opens_fd_def)
  have r: "err = (if fd < 0 then fd else e) \<and> w' = (if fd < 0 then w1 else if e \<noteq> 0 then close_fd env fd w2 else w2) \<and>
     x' = (if fd < 0 \<or> e \<noteq> 0 then x else x\<lparr>xs_prog_fd := fd\<rparr>)"
    using assms c1 c2 by (auto simp: xsk_load_xdp_prog_def split: if_splits)
  have "frame w w2" using e1 k2 by (auto simp: keeps_all_def intro: frame_trans)
  then show "frame w w'" using r e1 close_fd_effect(1) [of w2 env fd] by (auto intro: frame_trans split: if_splits)
  show "same_xsk x x'" "live_maps w' = live_maps w" "xs_xsks_map_fd x' = xs_xsks_map_fd x"
    "live_fds w' = live_fds w + (if err = 0 then {#xs_prog_fd x'#} else {#})" "err = 0 \<Longrightarrow> 0 \<le> xs_prog_fd x'"
    using r k2 e1 close_fd_effect [where w = w2 and fd = fd] by (auto simp: keeps_all_def same_xsk_def split: if_splits)
qed

lemma setup_new_prog_effect:
  assumes "setup_new_prog env x w = (err, x', w')"
  shows "frame w w'" "same_xsk x x'" "live_maps w' = live_maps w"
    "live_fds w' = live_fds w + (if err = 0 then {#xs_prog_fd x', xs_xsks_map_fd x'#} else {#})"
    "err = 0 \<Longrightarrow> 0 \<le> xs_prog_fd x'"
proof -
  obtain e1 x1 w1 where c1: "xsk_create_bpf_maps env x w = (e1, x1, w1)" by (metis prod_cases3)
  note f1 = create_bpf_maps_effect [OF c1]
  obtain e2 x2 w2 where c2: "xsk_load_xdp_prog env x1 w1 = (e2, x2, w2)" by (metis prod_cases3)
  note f2 = load_xdp_prog_effect [OF c2]
  let ?d = "xsk_delete_bpf_maps env x2 w2"
  have r: "err = (if e1 \<noteq> 0 then e1 else e2) \<and> x' = (if e1 \<noteq> 0 then x1 else x2) \<and>
     w' = (if e1 \<noteq> 0 then w1 else if e2 \<noteq> 0 then ?d else w2)"
    using assms c1 c2 by (auto simp: setup_new_prog_def split: if_splits)
  have f12: "frame w w2" "frame w ?d"
    using frame_trans [OF f1(1) f2(1)] delete_bpf_maps_effect(1) by (blast intro: frame_trans)+
  then show "frame w w'" using r f1(1) by auto
  show "same_xsk x x'" "live_maps w' = live_maps w"
    "live_fds w' = live_fds w + (if err = 0 then {#xs_prog_fd x', xs_xsks_map_fd x'#} else {#})" "err = 0 \<Longrightarrow> 0 \<le> xs_prog_fd x'"
    using r f1 f2 delete_bpf_maps_effect(2,3) [of env x2 w2] by (auto simp: same_xsk_def split: if_splits)
qed

text \<open>The path over an attached program: nothing but descriptors can change.\<close>

definition lib_quiet :: "xsk_world \<Rightarrow> xsk_world \<Rightarrow> bool" where
  "lib_quiet w w' \<longleftrightarrow> frame w w' \<and> live_maps w' = live_maps w"

lemma lib_quiet_refl [simp]: "lib_quiet w w"
  by (simp add: lib_quiet_def)

lemma lib_quiet_trans: "lib_quiet w w' \<Longrightarrow> lib_quiet w' w'' \<Longrightarrow> lib_quiet w w''"
  by (auto simp: lib_quiet_def intro: frame_trans)

lemma lib_quiet_close: "lib_quiet w w' \<Longrightarrow> lib_quiet w (close_fd env fd w')"
  using close_fd_effect(1,3) frame_trans by (simp add: lib_quiet_def) blast

lemma keeps_all_quiet: "keeps_all w w' \<Longrightarrow> lib_quiet w w'"
  by (simp add: lib_quiet_def keeps_all_def)

lemma lookup_maps_quiet: "lookup_maps env ids cur w = (fd, w') \<Longrightarrow> lib_quiet w w'"
proof (induction ids arbitrary: cur w)
  case (Cons i ids)
  obtain m w1 where c1: "call env (Bpf (Map_fd_by_id i)) w = (m, w1)" by fastforce
  have q1: "lib_quiet w w1" using open_fd_effect [OF c1] by (simp add: opens_fd_def lib_quiet_def)
  obtain r w2 where c2: "sys env (Bpf (Map_info m)) w1 = (r, w2)" by fastforce
  have q2: "lib_quiet w1 w2"
    using sys_plain [OF c2] by (simp add: plain_call_def opens_fd_def keeps_all_quiet)
  consider cur' where "lookup_maps env ids cur' w1 = (fd, w')" | cur' where "lookup_maps env ids cur' w2 = (fd, w')"
    | cur' where "lookup_maps env ids cur' (close_fd env m w2) = (fd, w')"
    using Cons.prems c1 c2 by (auto split: if_splits)
  then show ?case using q1 q2 lib_quiet_close [OF lib_quiet_refl] by cases (blast dest: Cons.IH intro: lib_quiet_trans)+
qed simp

lemma calloc_free_quiet:
  assumes "heap_ok w" "c_calloc env n w = (p, w1)" "p \<noteq> 0" "lib_quiet w1 w2"
  shows "\<exists>w3. c_free p w2 = Some w3 \<and> lib_quiet w w3"
proof -
  note e = c_calloc_lib [OF assms(2)]
  have h: "heap w2 = (heap w)(p \<mapsto> replicate n 0)" "heap w p = None"
    using e assms lib_heap_fresh by (auto simp: lib_quiet_def frame_def)
  let ?w3 = "w2\<lparr>heap := (heap w2)(p := None)\<rparr>"
  have "c_free p w2 = Some ?w3" using h assms(3) by (simp add: c_free_def)
  moreover have "live_maps ?w3 = live_maps w2" by (simp add: live_maps_def)
  ultimately show ?thesis using e h assms(4) by (auto simp: lib_quiet_def frame_def grows_def)
qed

lemma lookup_bpf_maps_quiet:
  assumes "xsk_lookup_bpf_maps env x w = Some (err, x', w')" and "heap_ok w"
  shows "lib_quiet w w'" "same_xsk x x'"
proof -
  obtain r1 w1 where c1: "sys env (Bpf (Prog_info (xs_prog_fd x) 0)) w = (r1, w1)" by fastforce
  have q1: "lib_quiet w w1" using sys_plain [OF c1] by (simp add: plain_call_def opens_fd_def keeps_all_quiet)
  obtain p w2 where c2: "c_calloc env (unat (nr_map_ids r1) * 4) w1 = (p, w2)" by fastforce
  obtain r3 w3 where c3: "sys env (Bpf (Prog_info (xs_prog_fd x) (nr_map_ids r1))) w2 = (r3, w3)" by fastforce
  have q3: "lib_quiet w2 w3" using sys_plain [OF c3] by (simp add: plain_call_def opens_fd_def keeps_all_quiet)
  obtain fd w4 where c4: "lookup_maps env (map_ids r3) (-1) w3 = (fd, w4)" by fastforce
  have q4: "lib_quiet w2 w4" using lib_quiet_trans [OF q3] lookup_maps_quiet [OF c4] by blast
  have h1: "heap_ok w1" using frame_heap_ok [OF _ assms(2)] q1 by (simp add: lib_quiet_def)
  have q2: "lib_quiet w w2" if "p = 0"
    using lib_quiet_trans [OF q1] c_calloc_lib [OF c2] that by (simp add: lib_quiet_def frame_def)
  note fr3 = calloc_free_quiet [OF h1 c2 _ q3] and fr4 = calloc_free_quiet [OF h1 c2 _ q4]
  show "lib_quiet w w'"
    using assms(1) c1 c2 c3 c4 q1 q2 fr3 fr4 lib_quiet_trans [OF q1]
    by (auto simp: xsk_lookup_bpf_maps_def Let_def split: if_splits)
  show "same_xsk x x'"
    using assms(1) c1 c2 c3 c4
    by (auto simp: xsk_lookup_bpf_maps_def Let_def same_xsk_def split: if_splits)
qed

lemma setup_old_prog_quiet:
  assumes "setup_old_prog env i x w = Some (err, x', w')" and "heap_ok w"
  shows "lib_quiet w w'" "same_xsk x x'"
proof -
  obtain fd w1 where c1: "call env (Bpf (Prog_fd_by_id i)) w = (fd, w1)" by fastforce
  have q1: "lib_quiet w w1" using open_fd_effect [OF c1] by (simp add: opens_fd_def lib_quiet_def)
  then have h1: "heap_ok w1" using frame_heap_ok assms(2) by (auto simp: lib_quiet_def)
  obtain e x2 w2 where c2: "xsk_lookup_bpf_maps env (x\<lparr>xs_prog_fd := fd\<rparr>) w1 = Some (e, x2, w2)"
    and r: "x' = x2" "w' = (if e \<noteq> 0 then close_fd env (xs_prog_fd x2) w2 else w2)"
    using assms(1) c1 by (auto simp: setup_old_prog_def split: if_splits)
  note q2 = lookup_bpf_maps_quiet [OF c2 h1]
  show "lib_quiet w w'" using lib_quiet_trans [OF q1 q2(1)] r by (auto intro: lib_quiet_close)
  show "same_xsk x x'" using q2(2) r by (simp add: same_xsk_def)
qed

text \<open>No XDP program is attached to any interface beforehand.\<close>

definition no_prog :: "env \<Rightarrow> bool" where
  "no_prog env \<longleftrightarrow> (\<forall>t i fl. get32 (rdata (answer env t (Bpf (Get_link_xdp_id i fl)))) 0 = 0)"

lemma setup_prog_effect:
  assumes "setup_prog env i x w = Some (err, x', w')" and "heap_ok w"
  shows "lib_quiet w w'" "same_xsk x x'"
    "i = 0 \<Longrightarrow> live_fds w' = live_fds w + (if err = 0 then {#xs_prog_fd x', xs_xsks_map_fd x'#} else {#})"
    "i = 0 \<Longrightarrow> err = 0 \<Longrightarrow> 0 \<le> xs_prog_fd x'"
proof -
  have new: "setup_new_prog env x w = (err, x', w')" if "i = 0" using assms(1) that by (simp add: setup_prog_def)
  have old: "setup_old_prog env i x w = Some (err, x', w')" if "i \<noteq> 0" using assms(1) that by (simp add: setup_prog_def)
  show "lib_quiet w w'" "same_xsk x x'"
    using setup_new_prog_effect(1,2,3) [OF new] setup_old_prog_quiet [OF old assms(2)] by (cases "i = 0"; simp add: lib_quiet_def)+
  show "i = 0 \<Longrightarrow> live_fds w' = live_fds w + (if err = 0 then {#xs_prog_fd x', xs_xsks_map_fd x'#} else {#})"
    "i = 0 \<Longrightarrow> err = 0 \<Longrightarrow> 0 \<le> xs_prog_fd x'"
    using setup_new_prog_effect(4,5) [OF new] by simp_all
qed

lemma set_or_undo_effect:
  assumes "set_or_undo env x w = (err, x', w')"
  shows "lib_quiet w w'" "x' = x"
    "live_fds w' = (if err = 0 then live_fds w else live_fds w - {#xs_prog_fd x, xs_xsks_map_fd x#})"
proof -
  obtain e w1 where c: "xsk_set_bpf_maps env x w = (e, w1)" by fastforce
  have k: "keeps_all w w1"
    using call_plain [OF c [unfolded xsk_set_bpf_maps_def]] by (simp add: plain_call_def opens_fd_def)
  let ?u = "close_fd env (xs_prog_fd x) (xsk_delete_bpf_maps env x w1)"
  have r: "err = e \<and> x' = x \<and> w' = (if e \<noteq> 0 then ?u else w1)" using assms c by (auto simp: set_or_undo_def split: if_splits)
  have "lib_quiet w1 ?u" by (rule lib_quiet_close) (simp add: lib_quiet_def delete_bpf_maps_effect)
  then show "lib_quiet w w'" "x' = x"
    "live_fds w' = (if err = 0 then live_fds w else live_fds w - {#xs_prog_fd x, xs_xsks_map_fd x#})"
    using r k by (auto simp: keeps_all_def close_fd_effect delete_bpf_maps_effect add_mset_commute
        intro: lib_quiet_trans keeps_all_quiet [OF k])
qed

lemma setup_xdp_prog_effect:
  assumes "xsk_setup_xdp_prog env x w = Some (err, x', w')" and "heap_ok w"
  shows "lib_quiet w w'" "same_xsk x x'"
    "no_prog env \<Longrightarrow> live_fds w' = live_fds w + (if err = 0 then {#xs_prog_fd x', xs_xsks_map_fd x'#} else {#})"
    "no_prog env \<Longrightarrow> err = 0 \<Longrightarrow> 0 \<le> xs_prog_fd x'"
proof -
  let ?c = "Bpf (Get_link_xdp_id (xs_ifindex x) (sc_xdp_flags (xs_config x)))"
  obtain r w1 where c1: "sys env ?c w = (r, w1)" by fastforce
  have k1: "keeps_all w w1" using sys_plain [OF c1] by (simp add: plain_call_def opens_fd_def)
  then have h1: "heap_ok w1" using frame_heap_ok assms(2) by (auto simp: keeps_all_def)
  let ?i = "get32 (rdata r) 0"
  have np: "no_prog env \<Longrightarrow> ?i = 0" using c1 by (auto simp: no_prog_def sys_def Let_def)
  have main: "lib_quiet w w' \<and> same_xsk x x' \<and>
    (no_prog env \<longrightarrow> live_fds w' = live_fds w + (if err = 0 then {#xs_prog_fd x', xs_xsks_map_fd x'#} else {#}) \<and>
       (err = 0 \<longrightarrow> 0 \<le> xs_prog_fd x'))"
  proof (cases "rv r = 0")
    case False
    then have "err \<noteq> 0" "x' = x" "w' = w1" using assms(1) c1 by (auto simp: xsk_setup_xdp_prog_def)
    then show ?thesis using k1 by (auto simp: keeps_all_def lib_quiet_def same_xsk_def)
  next
    case True
    then obtain e x2 w2 where s: "setup_prog env ?i x w1 = Some (e, x2, w2)"
      and r: "(err, x', w') = (if e \<noteq> 0 then (e, x2, w2) else set_or_undo env x2 w2)"
      using assms(1) c1 by (auto simp: xsk_setup_xdp_prog_def split: if_splits)
    note f = setup_prog_effect [OF s h1]
    have q2: "lib_quiet w w2" using lib_quiet_trans [OF keeps_all_quiet [OF k1] f(1)] .
    show ?thesis
    proof (cases "e = 0")
      case False
      then show ?thesis using r f k1 q2 np by (auto simp: keeps_all_def)
    next
      case True
      then have "set_or_undo env x2 w2 = (err, x', w')" using r by simp
      note g = set_or_undo_effect [OF this]
      show ?thesis using g f k1 lib_quiet_trans [OF q2 g(1)] np True by (auto simp: keeps_all_def)
    qed
  qed
  then show "lib_quiet w w'" "same_xsk x x'"
    "no_prog env \<Longrightarrow> live_fds w' = live_fds w + (if err = 0 then {#xs_prog_fd x', xs_xsks_map_fd x'#} else {#})"
    "no_prog env \<Longrightarrow> err = 0 \<Longrightarrow> 0 \<le> xs_prog_fd x'"
    by blast+
qed

lemma bind_and_setup_effect:
  assumes "xsk_bind_and_setup env x w = Some (f, x', w')" and "heap_ok w"
  shows "lib_quiet w w' \<and> same_xsk x x' \<and>
     (no_prog env \<longrightarrow> live_fds w' = live_fds w + (if f = None then prog_fds x' else {#})) \<and>
     (reports_errors env \<longrightarrow> f \<noteq> Some 0)"
proof -
  let ?b = "Sock (Bind_xdp (xs_fd x) (xs_ifindex x) (xs_queue_id x) (bind_flags (xs_config x)))"
  let ?g = "Sock (Getsockopt (xs_fd x) SOL_XDP XDP_OPTIONS)"
  obtain e w1 where c1: "call env ?b w = (e, w1)" by fastforce
  have k1: "keeps_all w w1" using call_plain [OF c1] by (simp add: plain_call_def opens_fd_def)
  obtain r w2 where c2: "sys env ?g w1 = (r, w2)" by fastforce
  have k2: "keeps_all w w2"
    using sys_plain [OF c2] keeps_all_trans [OF k1] by (simp add: plain_call_def opens_fd_def)
  then have h2: "heap_ok w2" using frame_heap_ok assms(2) by (auto simp: keeps_all_def)
  have rep: "e \<noteq> 0 \<Longrightarrow> reports_errors env \<Longrightarrow> errno w1 \<noteq> 0" "rv r \<noteq> 0 \<Longrightarrow> reports_errors env \<Longrightarrow> errno w2 \<noteq> 0"
    using call_reports [OF _ c1] sys_reports [OF _ c2] by (auto simp: failed_call_def)
  let ?x = "x\<lparr>xs_prog_fd := -1, xs_zc := (get32 (rdata r) 0 AND XDP_OPTIONS_ZEROCOPY \<noteq> 0)\<rparr>"
  have run: "xsk_bind_and_setup env x w =
    (if e \<noteq> 0 then Some (Some (- errno w1), x, w1)
     else if rv r \<noteq> 0 then Some (Some (- errno w2), x\<lparr>xs_prog_fd := -1\<rparr>, w2)
     else if libbpf_flags (xs_config x) AND XSK_LIBBPF_FLAGS__INHIBIT_PROG_LOAD = 0
     then map_option (\<lambda>(err, x, w). (if err \<noteq> 0 then Some err else None, x, w)) (xsk_setup_xdp_prog env ?x w2)
     else Some (None, ?x, w2))"
    unfolding xsk_bind_and_setup_def by (simp add: c1 c2 Let_def)
  consider (bind) "e \<noteq> 0" | (opts) "e = 0" "rv r \<noteq> 0"
    | (inhibit) "e = 0" "rv r = 0" "libbpf_flags (xs_config x) AND XSK_LIBBPF_FLAGS__INHIBIT_PROG_LOAD \<noteq> 0"
    | (attach) "e = 0" "rv r = 0" "libbpf_flags (xs_config x) AND XSK_LIBBPF_FLAGS__INHIBIT_PROG_LOAD = 0" by blast
  then show ?thesis
  proof cases
    case attach
    then obtain err where s0: "xsk_setup_xdp_prog env ?x w2 = Some (err, x', w')" and f: "f = (if err \<noteq> 0 then Some err else None)"
      using assms(1) unfolding run by auto
    note s = setup_xdp_prog_effect [OF s0 h2]
    have "lib_quiet w w'" using lib_quiet_trans [OF keeps_all_quiet [OF k2] s(1)] .
    moreover have "same_xsk x x'" using s(2) by (simp add: same_xsk_def)
    moreover have "live_fds w' = live_fds w + (if f = None then prog_fds x' else {#})" if "no_prog env"
      using s(3,4) [OF that] f k2 by (auto simp: prog_fds_def keeps_all_def)
    ultimately show ?thesis using f by auto
  next
    case bind
    then have "f = Some (- errno w1)" "x' = x" "w' = w1" using assms(1) unfolding run by auto
    then show ?thesis using rep(1) [OF bind] k1 by (auto simp: keeps_all_def lib_quiet_def same_xsk_def)
  next
    case opts
    then have "f = Some (- errno w2)" "x' = x\<lparr>xs_prog_fd := -1\<rparr>" "w' = w2" using assms(1) unfolding run by auto
    then show ?thesis using rep(2) [OF opts(2)] k2 by (auto simp: keeps_all_def lib_quiet_def same_xsk_def)
  next
    case inhibit
    then have "f = None" "x' = ?x" "w' = w2" using assms(1) unfolding run by auto
    then show ?thesis using k2 by (auto simp: keeps_all_def lib_quiet_def same_xsk_def prog_fds_def)
  qed
qed

lemma setup_xdp_prog_total:
  assumes "no_prog env" shows "xsk_setup_xdp_prog env x w \<noteq> None"
proof -
  obtain r w1 where "sys env (Bpf (Get_link_xdp_id (xs_ifindex x) (sc_xdp_flags (xs_config x)))) w = (r, w1)" by fastforce
  moreover from this have "get32 (rdata r) 0 = 0" using assms by (auto simp: no_prog_def sys_def Let_def)
  ultimately show ?thesis by (simp add: xsk_setup_xdp_prog_def setup_prog_def del: not_None_eq)
qed

lemma setup_total:
  assumes "no_prog env" shows "xsk_bind_and_setup env x w \<noteq> None"
proof -
  obtain e w1 where c: "call env (Sock (Bind_xdp (xs_fd x) (xs_ifindex x) (xs_queue_id x) (bind_flags (xs_config x)))) w = (e, w1)"
    by fastforce
  obtain r w2 where "sys env (Sock (Getsockopt (xs_fd x) SOL_XDP XDP_OPTIONS)) w1 = (r, w2)" by fastforce
  then show ?thesis using c setup_xdp_prog_total [OF assms] by (simp add: xsk_bind_and_setup_def Let_def del: not_None_eq)
qed

section \<open>Creating and deleting sockets\<close>

text \<open>The world in the middle of the creation of a socket: the new block, the reference, mappings.\<close>

definition sock_midway :: "env \<Rightarrow> nat \<Rightarrow> nat \<Rightarrow> xsk_umem \<Rightarrow> (u64 \<times> u64) multiset \<Rightarrow> xsk_world \<Rightarrow> xsk_world \<Rightarrow> bool" where
  "sock_midway env p u U M w ws \<longleftrightarrow> p \<noteq> 0 \<and> heap w p = None \<and> heap ws = (heap w)(p \<mapsto> replicate 96 0) \<and> p \<le> fresh ws \<and> fresh w \<le> fresh ws \<and>
     heap_ok ws \<and> lib_umems w u = Some U \<and> um_refcount U = 0 \<and>
     lib_umems ws = (lib_umems w)(u \<mapsto> U\<lparr>um_refcount := 1\<rparr>) \<and>
     lib_xsks ws = lib_xsks w \<and> lib_slots ws = lib_slots w \<and>
     (no_prog env \<longrightarrow> live_fds ws = live_fds w) \<and> live_maps ws = live_maps w + M"

definition sock_failure :: "env \<Rightarrow> xsk_world \<Rightarrow> xsk_world \<Rightarrow> bool" where
  "sock_failure env w w' \<longleftrightarrow> untouched w w' \<and> heap_ok w' \<and> live_maps w' = live_maps w \<and>
     (no_prog env \<longrightarrow> live_fds w' = live_fds w)"

lemma sock_midway_keeps: "sock_midway env p u U M w ws \<Longrightarrow> keeps_all ws ws' \<Longrightarrow> sock_midway env p u U M w ws'"
  by (auto simp: sock_midway_def keeps_all_def frame_def intro: frame_heap_ok [of ws])

lemma released_heap_ok: "heap_ok w \<Longrightarrow> released p w w' \<Longrightarrow> heap_ok w'"
  unfolding heap_ok_def released_def
proof (intro ballI)
  fix q
  assume "\<forall>p \<in> dom (heap w). 0 < p \<and> p \<le> fresh w" "q \<in> dom (heap w')"
    "heap w' = (heap w)(p := None) \<and> fresh w \<le> fresh w' \<and> lib_rings w' = lib_rings w \<and> lib_umems w' = lib_umems w \<and>
     lib_xsks w' = lib_xsks w \<and> lib_slots w' = lib_slots w"
  then have "q \<in> dom (heap w)" "fresh w \<le> fresh w'" "\<forall>p \<in> dom (heap w). 0 < p \<and> p \<le> fresh w" by (auto split: if_splits)
  then show "0 < q \<and> q \<le> fresh w'" by (meson le_trans)
qed

lemma refcount_same [simp]: "um_refcount U = 0 \<Longrightarrow> U\<lparr>um_refcount := 0\<rparr> = U"
  by (cases U) simp

lemma sock_midway_out:
  assumes "sock_midway env p u U {#} w ws"
  shows "\<exists>w'. out_xsk_socket env fd u p err ws = Some (err, w') \<and> sock_failure env w w'"
proof -
  note m = assms [unfolded sock_midway_def]
  let ?w1 = "ws\<lparr>lib_umems := (lib_umems ws)(u \<mapsto> U)\<rparr>"
  have s: "set_refcount u 0 ws = Some ?w1" using m by (simp add: set_refcount_def)
  have l: "live_fds ?w1 = live_fds ws" "live_maps ?w1 = live_maps ws" by (simp_all add: live_fds_def live_maps_def)
  have "heap ?w1 p \<noteq> None" using m by simp
  then obtain w' where o: "out_umem_alloc p err ?w1 = Some (err, w')" "released p ?w1 w'" "live_fds w' = live_fds ?w1"
    "live_maps w' = live_maps ?w1"
    using out_umem_alloc_effect [of p ?w1 err] m by blast
  have "untouched w w'" using m o(2) by (auto simp: untouched_def released_def)
  moreover have "heap_ok w'" using released_heap_ok [OF _ o(2)] m by (simp add: heap_ok_def)
  moreover have "out_xsk_socket env fd u p err ws = Some (err, w')" using m s o by (simp add: out_xsk_socket_def)
  ultimately show ?thesis using m o l by (auto simp: sock_failure_def)
qed

lemma sock_midway_unmap:
  assumes "sock_midway env p u U (add_mset (a, len) M) w ws"
  shows "sock_midway env p u U M w (munmap env a len ws)"
proof -
  let ?w = "munmap env a len ws"
  have f: "frame ws ?w" and l: "live_fds ?w = live_fds ws" "live_maps ?w = live_maps ws - {#(a, len)#}"
    by (rule munmap_effect)+
  have "heap_ok ?w" using frame_heap_ok [OF f] assms by (simp add: sock_midway_def)
  moreover have "live_maps ?w = live_maps w + M" using l assms by (simp add: sock_midway_def)
  ultimately show ?thesis using assms f l(1) unfolding sock_midway_def frame_def by auto
qed

definition sock_rings ::
    "reply \<Rightarrow> xsk_socket_config \<Rightarrow> u64 \<Rightarrow> u64 \<Rightarrow> nat \<Rightarrow> nat \<Rightarrow> (nat \<rightharpoonup> ring_ptrs) \<Rightarrow> (nat \<rightharpoonup> ring_ptrs)" where
  "sock_rings off cfg m1 m2 rxp txp R =
     R(rxp \<mapsto> set_ring (rx_size cfg) m1 (ring_off off 0) (the (R rxp)),
       txp \<mapsto> (set_ring (tx_size cfg) m2 (ring_off off 1) (the (R txp)))\<lparr>rp_cached_cons := tx_size cfg\<rparr>)"

definition sock_mappings :: "reply \<Rightarrow> xsk_socket_config \<Rightarrow> u64 \<Rightarrow> u64 \<Rightarrow> (u64 \<times> u64) multiset" where
  "sock_mappings off cfg m1 m2 =
     {#(m1, desc_ring_len (ring_off off 0) (rx_size cfg)), (m2, desc_ring_len (ring_off off 1) (tx_size cfg))#}"

text \<open>A complete socket: its structure is stored, and the umem has one reference.\<close>

definition sock_made :: "env \<Rightarrow> nat \<Rightarrow> nat \<Rightarrow> nat \<Rightarrow> xsk_umem \<Rightarrow> xsk_socket \<Rightarrow> xsk_world \<Rightarrow> xsk_world \<Rightarrow> bool" where
  "sock_made env ptr p u U x w w' \<longleftrightarrow> p \<noteq> 0 \<and> heap w p = None \<and> heap w' = (heap w)(p \<mapsto> replicate 96 0) \<and> heap_ok w' \<and>
     lib_umems w u = Some U \<and> um_refcount U = 0 \<and> lib_umems w' = (lib_umems w)(u \<mapsto> U\<lparr>um_refcount := 1\<rparr>) \<and>
     lib_xsks w' = (lib_xsks w)(p \<mapsto> x) \<and> lib_slots w' = (lib_slots w)(ptr := p) \<and> xs_umem x = u \<and> xs_fd x = um_fd U \<and>
     (no_prog env \<longrightarrow> live_fds w' = live_fds w + prog_fds x)"

text \<open>The result of the last stages: undefined only when a program was attached before.\<close>

definition sock_outcome ::
    "env \<Rightarrow> (xsk_world \<Rightarrow> bool) \<Rightarrow> xsk_world \<Rightarrow> (int \<times> xsk_world) option \<Rightarrow> bool" where
  "sock_outcome env P w res \<longleftrightarrow> (case res of
       None \<Rightarrow> \<not> no_prog env
     | Some (err, w') \<Rightarrow> err = 0 \<and> P w' \<or> (reports_errors env \<longrightarrow> err \<noteq> 0) \<and> sock_failure env w w')"

lemma sock_outcome_mono: "sock_outcome env P w res \<Longrightarrow> (\<And>w'. P w' \<Longrightarrow> Q w') \<Longrightarrow> sock_outcome env Q w res"
  by (auto simp: sock_outcome_def split: option.splits)

lemma sock_outcome_failure:
  "\<exists>w'. res = Some (err, w') \<and> sock_failure env w w' \<Longrightarrow> reports_errors env \<longrightarrow> err \<noteq> 0 \<Longrightarrow> sock_outcome env P w res"
  by (auto simp: sock_outcome_def)

lemma sock_midway_quiet:
  assumes "sock_midway env p u U M w ws" and "lib_quiet ws ws'" and "no_prog env \<longrightarrow> live_fds ws' = live_fds ws"
  shows "sock_midway env p u U M w ws'"
  using assms frame_heap_ok [of ws ws'] by (auto simp: sock_midway_def lib_quiet_def frame_def)

lemma finish_cases:
  assumes m: "sock_midway env p u U (add_mset (m2, l2) {#(m1, l1)#}) w ws" and x: "xs_umem x = u" "xs_fd x = um_fd U"
  shows "sock_outcome env (\<lambda>w'. \<exists>x'. sock_made env ptr p u U x' w w' \<and> same_xsk x x' \<and> lib_rings w' = lib_rings ws \<and>
       live_maps w' = live_maps w + {#(m1, l1), (m2, l2)#}) w (xsk_finish env ptr p m2 l2 m1 l1 x ws)"
proof (cases "xsk_bind_and_setup env x ws")
  case None
  then show ?thesis using setup_total [of env x ws] by (auto simp: xsk_finish_def sock_outcome_def)
next
  case (Some t)
  then obtain f x' w1 where b: "xsk_bind_and_setup env x ws = Some (f, x', w1)" by (metis prod_cases3)
  have "heap_ok ws" using m by (simp add: sock_midway_def)
  note e = bind_and_setup_effect [OF b this]
  show ?thesis
  proof (cases f)
    case (Some err)
    then have "sock_midway env p u U (add_mset (m2, l2) {#(m1, l1)#}) w w1" using e by (intro sock_midway_quiet [OF m]) auto
    from sock_midway_out [OF sock_midway_unmap [OF sock_midway_unmap [OF this]]]
    have "\<exists>w'. xsk_finish env ptr p m2 l2 m1 l1 x ws = Some (err, w') \<and> sock_failure env w w'"
      using b Some x(1) by (simp add: xsk_finish_def out_xsk_mmap_tx_def out_xsk_mmap_rx_def)
    then show ?thesis using e Some by (intro sock_outcome_failure) auto
  next
    case None
    let ?w2 = "w1\<lparr>lib_xsks := (lib_xsks w1)(p \<mapsto> x'), lib_slots := (lib_slots w1)(ptr := p)\<rparr>"
    have l: "live_fds ?w2 = live_fds w1" "live_maps ?w2 = live_maps w1" by (simp_all add: live_fds_def live_maps_def)
    have h: "heap_ok ?w2" using frame_heap_ok [of ws w1] e m by (auto simp: lib_quiet_def sock_midway_def heap_ok_def)
    have "sock_made env ptr p u U x' w ?w2"
      using m e l h x None by (auto simp: sock_made_def sock_midway_def lib_quiet_def frame_def same_xsk_def)
    moreover have "lib_rings ?w2 = lib_rings ws" "live_maps ?w2 = live_maps w + {#(m1, l1), (m2, l2)#}"
      using m e l by (auto simp: sock_midway_def lib_quiet_def frame_def)
    ultimately show ?thesis using b None e by (auto simp: xsk_finish_def sock_outcome_def)
  qed
qed

lemma map_tx_cases:
  assumes m: "sock_midway env p u U {#(m1, desc_ring_len (ring_off off 0) (rx_size cfg))#} w ws"
    and x: "xs_umem x = u" "xs_fd x = um_fd U" "xs_config x = cfg" and r: "lib_rings ws txp = Some rt"
  shows "sock_outcome env (\<lambda>w'. \<exists>x' m2. sock_made env ptr p u U x' w w' \<and> same_xsk (x\<lparr>xs_rx := rxp, xs_tx := txp\<rparr>) x' \<and>
       live_maps w' = live_maps w + sock_mappings off cfg m1 m2 \<and>
       lib_rings w' = (lib_rings ws)(txp \<mapsto> (set_ring (tx_size cfg) m2 (ring_off off 1) rt)\<lparr>rp_cached_cons := tx_size cfg\<rparr>))
     w (xsk_map_tx env ptr p off x rxp txp m1 ws)"
proof -
  let ?otx = "ring_off off 1" and ?l1 = "desc_ring_len (ring_off off 0) (rx_size cfg)"
  let ?l2 = "desc_ring_len ?otx (tx_size cfg)"
  obtain m2 w1 where c1: "mmap env ?l2 (xs_fd x) XDP_PGOFF_TX_RING ws = (m2, w1)" by fastforce
  note e1 = mmap_effect [OF c1]
  have h1: "heap_ok w1" using frame_heap_ok [of ws w1] e1 m by (auto simp: sock_midway_def)
  show ?thesis
  proof (cases "m2 = MAP_FAILED")
    case True
    then have "keeps_all ws w1" using e1 by (simp add: keeps_all_def)
    from sock_midway_out [OF sock_midway_unmap [OF sock_midway_keeps [OF m this]]]
    have "\<exists>w'. xsk_map_tx env ptr p off x rxp txp m1 ws = Some (- errno w1, w') \<and> sock_failure env w w'"
      using True c1 x by (simp add: xsk_map_tx_def out_xsk_mmap_rx_def Let_def)
    then show ?thesis using mmap_reports c1 True by (intro sock_outcome_failure) auto
  next
    case False
    let ?g = "\<lambda>r. (set_ring (tx_size cfg) m2 ?otx r)\<lparr>rp_cached_cons := tx_size cfg\<rparr>"
    have "lib_rings w1 txp = Some rt" using r e1 by (simp add: frame_def)
    then obtain w2 where p2: "put_ring txp ?g w1 = Some w2" and w2: "w2 = w1\<lparr>lib_rings := (lib_rings w1)(txp \<mapsto> ?g rt)\<rparr>"
      and l2: "live_fds w2 = live_fds w1" "live_maps w2 = live_maps w1"
      by (rule put_ring_effect)
    have M2: "sock_midway env p u U (add_mset (m2, ?l2) {#(m1, ?l1)#}) w w2"
      using m e1 w2 l2 h1 False by (auto simp: sock_midway_def frame_def heap_ok_def)
    have R2: "lib_rings w2 = (lib_rings ws)(txp \<mapsto> ?g rt)" using w2 e1 by (simp add: frame_def)
    let ?x = "x\<lparr>xs_rx := rxp, xs_tx := txp\<rparr>"
    have run: "xsk_map_tx env ptr p off x rxp txp m1 ws = xsk_finish env ptr p m2 ?l2 m1 ?l1 ?x w2"
      using False c1 p2 x(3) by (simp add: xsk_map_tx_def Let_def del: One_nat_def)
    show ?thesis
      unfolding run using R2 x
      by (intro sock_outcome_mono [OF finish_cases [OF M2, of ?x]]) (auto simp: sock_mappings_def simp del: One_nat_def)
  qed
qed

definition sock_success ::
    "env \<Rightarrow> nat \<Rightarrow> nat \<Rightarrow> nat \<Rightarrow> nat \<Rightarrow> xsk_umem \<Rightarrow> xsk_world \<Rightarrow> xsk_world \<Rightarrow> bool" where
  "sock_success env ptr rxp txp u U w w' \<longleftrightarrow>
     (\<exists>p x off m1 m2. sock_made env ptr p u U x w w' \<and> xs_rx x = rxp \<and> xs_tx x = txp \<and>
        live_maps w' = live_maps w + sock_mappings off (xs_config x) m1 m2 \<and>
        lib_rings w' = sock_rings off (xs_config x) m1 m2 rxp txp (lib_rings w) \<and>
        (\<exists>t. off = answer env t (Sock (Getsockopt (xs_fd x) SOL_XDP XDP_MMAP_OFFSETS))))"

lemma map_rings_cases:
  assumes m: "sock_midway env p u U {#} w ws" and x: "xs_umem x = u" "xs_fd x = um_fd U"
    and R: "lib_rings ws = lib_rings w" "lib_rings w rxp \<noteq> None" "lib_rings w txp \<noteq> None" "rxp \<noteq> txp"
    and off: "off = answer env t (Sock (Getsockopt (um_fd U) SOL_XDP XDP_MMAP_OFFSETS))"
  shows "sock_outcome env (sock_success env ptr rxp txp u U w) w (xsk_map_rings env ptr p off x rxp txp ws)"
proof -
  let ?cfg = "xs_config x" and ?orx = "ring_off off 0"
  let ?l1 = "desc_ring_len ?orx (rx_size ?cfg)"
  obtain m1 w1 where c1: "mmap env ?l1 (xs_fd x) XDP_PGOFF_RX_RING ws = (m1, w1)" by fastforce
  note e1 = mmap_effect [OF c1]
  have h1: "heap_ok w1" using frame_heap_ok [of ws w1] e1 m by (auto simp: sock_midway_def)
  show ?thesis
  proof (cases "m1 = MAP_FAILED")
    case True
    then have "keeps_all ws w1" using e1 by (simp add: keeps_all_def)
    from sock_midway_out [OF sock_midway_keeps [OF m this]]
    have "\<exists>w'. xsk_map_rings env ptr p off x rxp txp ws = Some (- errno w1, w') \<and> sock_failure env w w'"
      using True c1 x by (simp add: xsk_map_rings_def Let_def)
    then show ?thesis using mmap_reports c1 True by (intro sock_outcome_failure) auto
  next
    case False
    let ?g = "set_ring (rx_size ?cfg) m1 ?orx"
    obtain rr rt where rr: "lib_rings w rxp = Some rr" "lib_rings w txp = Some rt" using R by auto
    then have "lib_rings w1 rxp = Some rr" using R e1 by (simp add: frame_def)
    then obtain w2 where p2: "put_ring rxp ?g w1 = Some w2" and w2: "w2 = w1\<lparr>lib_rings := (lib_rings w1)(rxp \<mapsto> ?g rr)\<rparr>"
      and l2: "live_fds w2 = live_fds w1" "live_maps w2 = live_maps w1"
      by (rule put_ring_effect)
    have M2: "sock_midway env p u U {#(m1, ?l1)#} w w2"
      using m e1 w2 l2 h1 False by (auto simp: sock_midway_def frame_def heap_ok_def)
    have R2: "lib_rings w2 = (lib_rings w)(rxp \<mapsto> ?g rr)" using w2 e1 R by (simp add: frame_def)
    then have rt: "lib_rings w2 txp = Some rt" using rr R by simp
    have run: "xsk_map_rings env ptr p off x rxp txp ws = xsk_map_tx env ptr p off x rxp txp m1 w2"
      using False c1 p2 by (simp add: xsk_map_rings_def Let_def)
    show ?thesis
      unfolding run
    proof (rule sock_outcome_mono [OF map_tx_cases [OF M2 x refl rt]], elim exE conjE, goal_cases)
      case (1 w' x' m2)
      then have "lib_rings w' = sock_rings off ?cfg m1 m2 rxp txp (lib_rings w)" using R2 rr R(4) by (simp add: sock_rings_def)
      moreover have "xs_config x' = ?cfg" "xs_rx x' = rxp" "xs_tx x' = txp" "xs_fd x' = um_fd U"
        using 1(2) x by (simp_all add: same_xsk_def)
      ultimately show ?case using 1(1,3) off unfolding sock_success_def by metis
    qed
  qed
qed

lemma socket_config_error: "xsk_set_xdp_socket_config usr = Inl err \<Longrightarrow> err \<noteq> 0"
  by (auto simp: xsk_set_xdp_socket_config_def LIB_EINVAL_def split: option.splits if_splits)

lemma configure_cases:
  assumes m: "sock_midway env p u U {#} w ws" and x: "xs_umem x = u" "xs_fd x = um_fd U"
    and R: "lib_rings ws = lib_rings w" "lib_rings w rxp \<noteq> None" "lib_rings w txp \<noteq> None" "rxp \<noteq> txp"
  shows "sock_outcome env (sock_success env ptr rxp txp u U w) w (xsk_configure env ptr p ifn x rxp txp usr ws)"
proof -
  let ?fd = "um_fd U" and ?g = "Sock (Getsockopt (um_fd U) SOL_XDP XDP_MMAP_OFFSETS)"
  obtain i w1 where c1: "call env (Sock (If_nametoindex ifn)) ws = (i, w1)" by fastforce
  have k1: "keeps_all ws w1" using call_plain [OF c1] by (simp add: plain_call_def opens_fd_def)
  note m1 = sock_midway_keeps [OF m k1]
  show ?thesis
  proof (cases "i \<noteq> 0 \<and> (\<exists>cfg. xsk_set_xdp_socket_config usr = Inr cfg)")
    case False
    define err where "err = (if i = 0 then - errno w1 else projl (xsk_set_xdp_socket_config usr))"
    have "reports_errors env \<longrightarrow> err \<noteq> 0"
      using False call_reports [OF _ c1] socket_config_error
      by (cases "xsk_set_xdp_socket_config usr") (auto simp: err_def failed_call_def)
    moreover have "xsk_configure env ptr p ifn x rxp txp usr ws = out_xsk_socket env ?fd u p err w1"
      using False c1 x by (cases "xsk_set_xdp_socket_config usr") (auto simp: xsk_configure_def err_def Let_def)
    ultimately show ?thesis using sock_midway_out [OF m1] by (intro sock_outcome_failure) auto
  next
    case True
    then obtain cfg where cfg: "xsk_set_xdp_socket_config usr = Inr cfg" and i: "i \<noteq> 0" by blast
    let ?cs = "[Sock (Setsockopt_int ?fd SOL_XDP XDP_RX_RING (uint (rx_size cfg))),
                Sock (Setsockopt_int ?fd SOL_XDP XDP_TX_RING (uint (tx_size cfg)))]"
    let ?x = "x\<lparr>xs_ifindex := i, xs_ifname := take 15 ifn, xs_config := cfg\<rparr>"
    obtain f w2 where c2: "setopts env ?cs w1 = (f, w2)" by fastforce
    have k2: "keeps_all w1 w2" by (rule setopts_effect [OF c2]) (simp add: plain_call_def opens_fd_def)
    obtain off w3 where c3: "sys env ?g w2 = (off, w3)" by fastforce
    have k3: "keeps_all w2 w3" using sys_plain [OF c3] by (simp add: plain_call_def opens_fd_def)
    note m2 = sock_midway_keeps [OF m1 k2] and k = keeps_all_trans [OF keeps_all_trans [OF k1 k2] k3]
    note m3 = sock_midway_keeps [OF m2 k3]
    have run: "xsk_configure env ptr p ifn x rxp txp usr ws =
      (case f of Some err \<Rightarrow> out_xsk_socket env ?fd u p err w2
       | None \<Rightarrow> if rv off \<noteq> 0 then out_xsk_socket env ?fd u p (- errno w3) w3
                 else xsk_map_rings env ptr p off ?x rxp txp w3)"
      using i cfg c1 c2 c3 x unfolding xsk_configure_def by (simp add: Let_def del: setopts.simps split: option.split)
    have R3: "lib_rings w3 = lib_rings w" using R(1) k by (simp add: keeps_all_def frame_def)
    have off: "off = answer env (trace w2) ?g" using c3 by (simp add: sys_def Let_def)
    consider err where "f = Some err" | "f = None" "rv off \<noteq> 0" | "f = None" "rv off = 0" by fastforce
    then show ?thesis
    proof cases
      case 1
      then have "reports_errors env \<longrightarrow> err \<noteq> 0"
        using setopts_reports [of env ?cs w1 err w2] c2 by (simp add: failed_call_def del: setopts.simps)
      then show ?thesis using sock_midway_out [OF m2] 1 run by (intro sock_outcome_failure) auto
    next
      case 2
      then have "reports_errors env \<longrightarrow> - errno w3 \<noteq> 0" using sys_reports [OF _ c3] by (simp add: failed_call_def)
      then show ?thesis using sock_midway_out [OF m3] 2 run by (intro sock_outcome_failure [where err = "- errno w3"]) auto
    next
      case 3
      then show ?thesis using map_rings_cases [OF m3 _ _ R3 R(2-4) off, of ?x] x run by simp
    qed
  qed
qed

text \<open>The caller's side for sockets.\<close>

definition sock_args :: "nat \<Rightarrow> nat \<Rightarrow> nat \<Rightarrow> nat \<Rightarrow> xsk_world \<Rightarrow> bool" where
  "sock_args ptr u rxp txp w \<longleftrightarrow> heap_ok w \<and> ptr \<noteq> 0 \<and> u \<noteq> 0 \<and> rxp \<noteq> 0 \<and> txp \<noteq> 0 \<and> rxp \<noteq> txp \<and>
     lib_umems w u \<noteq> None \<and> lib_rings w rxp \<noteq> None \<and> lib_rings w txp \<noteq> None"

lemma c_calloc_heap_ok:
  assumes "c_calloc env n (w :: xsk_world) = (p, w')" and "heap_ok w" shows "heap_ok w'"
proof -
  note e = c_calloc_lib [OF assms(1)]
  have b: "0 < q" "q \<le> fresh w" if "heap w q = Some bs" for q bs using assms(2) that unfolding heap_ok_def by blast+
  show ?thesis
  proof (cases "p = 0")
    case True then show ?thesis using e(7,9) b order_trans [OF b(2) e(7)] by (auto simp: heap_ok_def)
  next
    case False
    then have h: "heap w' = (heap w)(Suc (fresh w) \<mapsto> replicate n 0)" "fresh w' = Suc (fresh w)" using e(10) by auto
    show ?thesis unfolding heap_ok_def h using b by (auto intro: le_SucI)
  qed
qed

lemma socket_create_cases:
  assumes a: "sock_args ptr u rxp txp w" and U: "lib_umems w u = Some U" "um_refcount U = 0"
  shows "sock_outcome env (sock_success env ptr rxp txp u U w) w (xsk_socket__create env ptr ifn q u rxp txp usr w)"
proof -
  obtain p w1 where c1: "c_calloc env 96 w = (p, w1)" by fastforce
  note e1 = c_calloc_lib [OF c1]
  have hw: "heap_ok w" using a by (simp add: sock_args_def)
  show ?thesis
  proof (cases "p = 0")
    case True
    then have "sock_failure env w w1" using c_calloc_heap_ok [OF c1 hw] e1 by (simp add: sock_failure_def untouched_def)
    then show ?thesis
      using True c1 a U by (simp add: xsk_socket__create_def sock_args_def sock_outcome_def LIB_ENOMEM_def)
  next
    case False
    let ?w2 = "w1\<lparr>lib_umems := (lib_umems w1)(u \<mapsto> U\<lparr>um_refcount := 1\<rparr>)\<rparr>"
    have l: "live_fds ?w2 = live_fds w1" "live_maps ?w2 = live_maps w1" by (simp_all add: live_fds_def live_maps_def)
    have "heap_ok ?w2" using c_calloc_heap_ok [OF c1 hw] by (simp add: heap_ok_def)
    then have m: "sock_midway env p u U {#} w ?w2"
      using False e1 l U hw lib_heap_fresh [OF hw] by (simp add: sock_midway_def)
    have run: "xsk_socket__create env ptr ifn q u rxp txp usr w =
      xsk_configure env ptr p ifn (zero_xsk\<lparr>xs_fd := um_fd U, xs_queue_id := q, xs_umem := u\<rparr>) rxp txp usr ?w2"
      using False c1 a U e1 by (simp add: xsk_socket__create_def sock_args_def set_refcount_def)
    show ?thesis
      unfolding run using a e1 by (intro configure_cases [OF m]) (auto simp: sock_args_def)
  qed
qed

end
