(* ===== verification/Xsk_Lifecycle.thy ===== *)
theory Xsk_Lifecycle
  imports Xsk_Lib
begin

unbundle bit_operations_syntax

text \<open>
  The contract of \<^verbatim>\<open>lib/libbpf/src/xsk.c\<close> as its callers see it: packet memory and sockets that are
  created and deleted in the right order give everything back, errors leave nothing behind (with
  one exception, which is a defect), and the reference count of a umem is the number of its sockets
  in every reachable state.
\<close>

section \<open>What the deletions change\<close>

lemma munmap_twice: "frame w (munmap env a l (munmap env b k w))"
  by (rule frame_trans) (rule munmap_effect)+

lemma unmap_umem_quiet:
  assumes "unmap_umem env um off w = Some w'" shows "frame w w'" "live_fds w' = live_fds w"
  using assms by (auto simp: unmap_umem_def Let_def bind_eq_Some_conv munmap_effect(2) munmap_twice split: if_splits)

lemma unmap_socket_quiet:
  assumes "unmap_socket env x off w = Some w'" shows "frame w w'" "live_fds w' = live_fds w"
  using assms by (auto simp: unmap_socket_def Let_def bind_eq_Some_conv munmap_effect(2) munmap_twice split: if_splits)

lemma drop_prog_effect:
  "lib_quiet w (drop_prog env x w)" "live_fds (drop_prog env x w) = live_fds w - prog_fds x"
proof -
  have "lib_quiet w (close_fd env fd (xsk_delete_bpf_maps env x w))" for fd
    by (rule lib_quiet_close) (simp add: lib_quiet_def delete_bpf_maps_effect)
  then show "lib_quiet w (drop_prog env x w)" "live_fds (drop_prog env x w) = live_fds w - prog_fds x"
    by (simp_all add: drop_prog_def prog_fds_def close_fd_effect delete_bpf_maps_effect add_mset_commute)
qed

lemma drop_umem_effect:
  assumes "u \<noteq> 0" "heap w u \<noteq> None"
  obtains w' where "drop_umem env u um w = Some (0, w')" "heap w' = (heap w)(u := None)" "fresh w \<le> fresh w'"
    "lib_umems w' = (lib_umems w)(u := None)" "lib_xsks w' = lib_xsks w"
proof -
  let ?w1 = "close_fd env (um_fd um) w"
  have f: "frame w ?w1" by (rule close_fd_effect)
  then have "c_free u ?w1 = Some (?w1\<lparr>heap := (heap ?w1)(u := None)\<rparr>)" using assms by (auto simp: c_free_def frame_def)
  then have "drop_umem env u um w = Some (0, ?w1\<lparr>heap := (heap ?w1)(u := None), lib_umems := (lib_umems ?w1)(u := None)\<rparr>)"
    by (simp add: drop_umem_def)
  then show ?thesis by (rule that) (use f in \<open>simp_all add: frame_def\<close>)
qed

lemma drop_umem_shape:
  assumes "drop_umem env u um w = Some (err, w')" "u \<noteq> 0"
  shows "err = 0" "heap w' = (heap w)(u := None)" "fresh w \<le> fresh w'" "lib_umems w' = (lib_umems w)(u := None)"
    "lib_xsks w' = lib_xsks w"
proof -
  have "heap (close_fd env (um_fd um) w) u \<noteq> None" using assms by (auto simp: drop_umem_def c_free_def split: if_splits)
  then have h: "heap w u \<noteq> None" using close_fd_effect(1) [of w env "um_fd um"] by (simp add: frame_def)
  show "err = 0" "heap w' = (heap w)(u := None)" "fresh w \<le> fresh w'" "lib_umems w' = (lib_umems w)(u := None)"
    "lib_xsks w' = lib_xsks w"
    using drop_umem_effect [OF assms(2) h, of env um] assms(1) by auto
qed

lemma drop_socket_effect:
  assumes "p \<noteq> 0" "heap w p \<noteq> None" "lib_umems w (xs_umem x) = Some U"
  shows "\<exists>w'. drop_socket env p x w = Some w' \<and> heap w' = (heap w)(p := None) \<and> fresh w \<le> fresh w' \<and>
    lib_umems w' = (lib_umems w)(xs_umem x \<mapsto> U\<lparr>um_refcount := um_refcount U - 1\<rparr>) \<and>
    lib_xsks w' = (lib_xsks w)(p := None) \<and> lib_slots w' = lib_slots w \<and> lib_rings w' = lib_rings w \<and>
    live_maps w' = live_maps w \<and> (xs_fd x = um_fd U \<longrightarrow> live_fds w' = live_fds w)"
proof -
  let ?w1 = "w\<lparr>lib_umems := (lib_umems w)(xs_umem x \<mapsto> U\<lparr>um_refcount := um_refcount U - 1\<rparr>)\<rparr>"
  let ?w2 = "if xs_fd x \<noteq> um_fd U then close_fd env (xs_fd x) ?w1 else ?w1"
  have l1: "live_fds ?w1 = live_fds w" "live_maps ?w1 = live_maps w" by (simp_all add: live_fds_def live_maps_def)
  have f: "frame ?w1 ?w2" using close_fd_effect(1) [of ?w1] by simp
  let ?w3 = "?w2\<lparr>heap := (heap ?w2)(p := None)\<rparr>"
  have fr: "c_free p ?w2 = Some ?w3" using f assms(1,2) by (simp add: c_free_def frame_def)
  let ?w4 = "?w3\<lparr>lib_xsks := (lib_xsks ?w3)(p := None)\<rparr>"
  have l4: "live_fds ?w4 = live_fds ?w2" "live_maps ?w4 = live_maps ?w2" by (simp_all add: live_fds_def live_maps_def)
  have run: "drop_socket env p x w = Some ?w4" unfolding drop_socket_def set_refcount_def assms(3) by (simp add: fr)
  have lm: "live_maps ?w4 = live_maps w" "xs_fd x = um_fd U \<Longrightarrow> live_fds ?w4 = live_fds w"
    unfolding l4 using l1 close_fd_effect(3) [where w = ?w1] by simp_all
  show ?thesis unfolding run option.inject ex_simps(1) [symmetric] using f lm by (intro exI [of _ ?w4]) (simp add: frame_def)
qed

lemma umem_delete_shape:
  assumes "xsk_umem__delete env u w = Some (err, w')" "lib_umems w u = Some U" "u \<noteq> 0"
  shows "um_refcount U \<noteq> 0 \<and> err = - LIB_EBUSY \<and> w' = w \<or>
     um_refcount U = 0 \<and> err = 0 \<and> heap w' = (heap w)(u := None) \<and> fresh w \<le> fresh w' \<and>
       lib_umems w' = (lib_umems w)(u := None) \<and> lib_xsks w' = lib_xsks w"
proof (cases "um_refcount U = 0")
  case True
  obtain off w1 where c: "sys env (Sock (Getsockopt (um_fd U) SOL_XDP XDP_MMAP_OFFSETS)) w = (off, w1)" by fastforce
  have f1: "frame w w1" using sys_frame [OF c] by simp
  obtain w2 where u2: "unmap_umem env U off w1 = Some w2" and d: "drop_umem env u U w2 = Some (err, w')"
    using assms True c by (auto simp: xsk_umem__delete_def bind_eq_Some_conv)
  have "frame w w2" using frame_trans [OF f1 unmap_umem_quiet(1) [OF u2]] .
  then show ?thesis using drop_umem_shape [OF d assms(3)] True by (auto simp: frame_def)
next
  case False
  then show ?thesis using assms by (auto simp: xsk_umem__delete_def)
qed

lemma socket_delete_shape:
  assumes "xsk_socket__delete env p w = Some w'" "lib_xsks w p = Some x" "lib_umems w (xs_umem x) = Some U" "p \<noteq> 0"
    "heap w p \<noteq> None"
  shows "heap w' = (heap w)(p := None) \<and> fresh w \<le> fresh w' \<and>
     lib_umems w' = (lib_umems w)(xs_umem x \<mapsto> U\<lparr>um_refcount := um_refcount U - 1\<rparr>) \<and> lib_xsks w' = (lib_xsks w)(p := None)"
proof -
  let ?w1 = "drop_prog env x w"
  obtain off w2 where c: "sys env (Sock (Getsockopt (xs_fd x) SOL_XDP XDP_MMAP_OFFSETS)) ?w1 = (off, w2)" by fastforce
  have f2: "frame w w2" using drop_prog_effect(1) [of w env x] sys_frame [OF c] by (auto simp: lib_quiet_def intro: frame_trans)
  obtain w3 where u3: "unmap_socket env x off w2 = Some w3" and d: "drop_socket env p x w3 = Some w'"
    using assms(1,2,4) c by (auto simp: xsk_socket__delete_def bind_eq_Some_conv)
  have f3: "frame w w3" using frame_trans [OF f2 unmap_socket_quiet(1) [OF u3]] .
  then have "heap w3 p \<noteq> None" "lib_umems w3 (xs_umem x) = Some U" using assms(3,5) by (simp_all add: frame_def)
  from drop_socket_effect [OF assms(4) this, of env] show ?thesis using d f3 by (simp add: frame_def)
qed

lemma socket_delete_effect:
  assumes "lib_xsks w p = Some x" "lib_umems w (xs_umem x) = Some U" "p \<noteq> 0" "heap w p \<noteq> None" "xs_fd x = um_fd U"
    and R: "lib_rings w (xs_rx x) = Some r" "lib_rings w (xs_tx x) = Some t"
    and off: "\<And>t. answer env t (Sock (Getsockopt (xs_fd x) SOL_XDP XDP_MMAP_OFFSETS)) = off" "rv off = 0"
  obtains w' where "xsk_socket__delete env p w = Some w'" "lib_rings w' = lib_rings w" "lib_slots w' = lib_slots w"
    "live_fds w' = live_fds w - prog_fds x"
    "live_maps w' = live_maps w -
       sock_mappings off (xs_config x) (rp_ring r - o_desc (ring_off off 0)) (rp_ring t - o_desc (ring_off off 1))"
proof -
  let ?w1 = "drop_prog env x w" and ?cfg = "xs_config x"
  have q1: "lib_quiet w ?w1" "live_fds ?w1 = live_fds w - prog_fds x" by (rule drop_prog_effect)+
  obtain o' w2 where c: "sys env (Sock (Getsockopt (xs_fd x) SOL_XDP XDP_MMAP_OFFSETS)) ?w1 = (o', w2)" by fastforce
  then have o': "o' = off" using off by (simp add: sys_def Let_def)
  have k2: "keeps_all ?w1 w2" using sys_plain [OF c] by (simp add: plain_call_def opens_fd_def)
  have f2: "frame w w2" using q1 k2 by (auto simp: lib_quiet_def keeps_all_def intro: frame_trans)
  let ?w3 = "munmap env (rp_ring t - o_desc (ring_off off 1)) (desc_ring_len (ring_off off 1) (tx_size ?cfg))
    (munmap env (rp_ring r - o_desc (ring_off off 0)) (desc_ring_len (ring_off off 0) (rx_size ?cfg)) w2)"
  have u: "unmap_socket env x off w2 = Some ?w3" using R off(2) f2 by (simp add: unmap_socket_def frame_def Let_def)
  have f3: "frame w ?w3" using frame_trans [OF f2 munmap_twice] .
  then have "heap ?w3 p \<noteq> None" "lib_umems ?w3 (xs_umem x) = Some U" using assms by (simp_all add: frame_def)
  then obtain w' where d: "drop_socket env p x ?w3 = Some w'" "lib_rings w' = lib_rings ?w3" "lib_slots w' = lib_slots ?w3"
    "live_maps w' = live_maps ?w3" "live_fds w' = live_fds ?w3"
    using drop_socket_effect [OF assms(3), of ?w3 x U env] assms(5) by auto
  have "xsk_socket__delete env p w = Some w'"
    using assms(1,3) c u d(1) unfolding o' by (simp add: xsk_socket__delete_def)
  then show ?thesis
    by (rule that) (use d f3 q1 k2 in \<open>simp_all add: frame_def munmap_effect keeps_all_def lib_quiet_def sock_mappings_def add_mset_commute\<close>)
qed

section \<open>Errors\<close>

text \<open>
  C22. Creating packet memory, on every path. With valid arguments the call returns. On success it
  holds exactly one more block, one more descriptor and the two mappings, the umem has no
  references, and both ring structures are set up from the mappings. On failure the heap, the
  objects and the descriptors are as before; and so are the mappings, except after a failure to map
  the completion ring, where \<open>munmap\<close> is called on the failed address and the mapping of the fill
  ring stays.
\<close>

theorem umem_create_outcome:
  assumes "umem_args ptr area fill cmpl w" and "reports_errors env"
  shows "\<exists>err w'. xsk_umem__create env ptr area sz fill cmpl usr w = Some (err, w') \<and>
     (if err = 0
      then \<exists>u fd off m1 m2. umem_success env ptr area (xsk_set_umem_config usr) fill cmpl u fd off m1 m2 w w'
      else umem_failure (xsk_set_umem_config usr) w w')"
  using assms by (rule umem_create_outcome_aux)

lemma socket_create_outcome_aux:
  assumes "sock_args ptr u rxp txp w" and "lib_umems w u = Some U" "um_refcount U = 0" and "reports_errors env" "no_prog env"
  shows "\<exists>err w'. xsk_socket__create env ptr ifn q u rxp txp usr w = Some (err, w') \<and>
     (if err = 0 then sock_success env ptr rxp txp u U w w' else sock_failure env w w')"
  using socket_create_cases [OF assms(1-3), of env ifn q usr] assms(4,5)
  by (auto simp: sock_outcome_def split: option.splits)

text \<open>
  C23. Creating a socket on a umem without one, when no XDP program is attached. The call returns.
  On success the umem has one reference, the socket shares its descriptor, and what is held in
  addition is one block, the mappings of the two rings and the descriptors of the program and its
  map (none when the program is inhibited). On every failure the heap, the mappings, the
  descriptors and the reference count are as before the call.
\<close>

theorem socket_create_outcome:
  assumes "sock_args ptr u rxp txp w" and "lib_umems w u = Some U" "um_refcount U = 0" and "reports_errors env" "no_prog env"
  shows "\<exists>err w'. xsk_socket__create env ptr ifn q u rxp txp usr w = Some (err, w') \<and>
     (if err = 0 then sock_success env ptr rxp txp u U w w' else sock_failure env w w')"
  using assms by (rule socket_create_outcome_aux)

section \<open>Life cycle\<close>

lemma umem_busy:
  "u \<noteq> 0 \<Longrightarrow> lib_umems w u = Some U \<Longrightarrow> um_refcount U \<noteq> 0 \<Longrightarrow> xsk_umem__delete env u w = Some (- LIB_EBUSY, w)"
  by (simp add: xsk_umem__delete_def)

lemma umem_success_heap_ok:
  assumes "umem_success env ptr area cfg fill cmpl u fd off m1 m2 w w1" and "heap_ok w" shows "heap_ok w1"
proof -
  have b: "0 < q" "q \<le> fresh w" if "heap w q = Some bs" for q bs using assms(2) that unfolding heap_ok_def by blast+
  show ?thesis using assms(1) b order_trans [OF b(2)] by (auto simp: heap_ok_def umem_success_def)
qed

text \<open>A socket on a new umem, and its deletion: only the two rings of the socket differ afterwards.\<close>

lemma socket_roundtrip:
  assumes s: "sock_success env ptr rxp txp u U w1 w2" and "u \<noteq> 0" "rxp \<noteq> txp" and "const_offsets env" "no_prog env"
    and none: "lib_xsks w1 (lib_slots w2 ptr) = None"
  shows "\<exists>w3. xsk_umem__delete env u w2 = Some (- LIB_EBUSY, w2) \<and> xsk_socket__delete env (lib_slots w2 ptr) w2 = Some w3 \<and>
     heap w3 = heap w1 \<and> fresh w2 \<le> fresh w3 \<and> lib_umems w3 = lib_umems w1 \<and> lib_xsks w3 = lib_xsks w1 \<and>
     (\<forall>a. a \<noteq> rxp \<longrightarrow> a \<noteq> txp \<longrightarrow> lib_rings w3 a = lib_rings w1 a) \<and>
     live_fds w3 = live_fds w1 \<and> live_maps w3 = live_maps w1"
proof -
  obtain p x off m1 m2 t where m: "sock_made env ptr p u U x w1 w2" and x: "xs_rx x = rxp" "xs_tx x = txp"
    and l: "live_maps w2 = live_maps w1 + sock_mappings off (xs_config x) m1 m2"
    and R: "lib_rings w2 = sock_rings off (xs_config x) m1 m2 rxp txp (lib_rings w1)"
    and o: "off = answer env t (Sock (Getsockopt (xs_fd x) SOL_XDP XDP_MMAP_OFFSETS))"
    using s unfolding sock_success_def by blast
  note m' = m [unfolded sock_made_def]
  have p: "lib_slots w2 ptr = p" "p \<noteq> 0" "heap w2 p \<noteq> None" "lib_xsks w2 p = Some x" "xs_umem x = u" "xs_fd x = um_fd U"
    and U: "lib_umems w2 u = Some (U\<lparr>um_refcount := 1\<rparr>)" "um_refcount U = 0" "lib_umems w1 u = Some U"
    using m' by simp_all
  have off: "\<And>t. answer env t (Sock (Getsockopt (xs_fd x) SOL_XDP XDP_MMAP_OFFSETS)) = off" "rv off = 0"
    using o assms(4) by (auto simp: const_offsets_def)
  obtain r tr where rr: "lib_rings w2 (xs_rx x) = Some r" "lib_rings w2 (xs_tx x) = Some tr"
    and pr: "rp_ring r - o_desc (ring_off off 0) = m1" "rp_ring tr - o_desc (ring_off off 1) = m2"
    using R x assms(3) by (simp add: sock_rings_def set_ring_def)
  have U2: "lib_umems w2 (xs_umem x) = Some (U\<lparr>um_refcount := 1\<rparr>)" "xs_fd x = um_fd (U\<lparr>um_refcount := 1\<rparr>)" using U p by simp_all
  obtain w3 where d: "xsk_socket__delete env p w2 = Some w3" "lib_rings w3 = lib_rings w2"
    "live_fds w3 = live_fds w2 - prog_fds x" "live_maps w3 = live_maps w2 - sock_mappings off (xs_config x) m1 m2"
    using socket_delete_effect [OF p(4) U2(1) p(2,3) U2(2) rr off] pr by metis
  have sh: "heap w3 = (heap w2)(p := None) \<and> fresh w2 \<le> fresh w3 \<and>
     lib_umems w3 = (lib_umems w2)(xs_umem x \<mapsto> U\<lparr>um_refcount := 1, um_refcount := 0\<rparr>) \<and> lib_xsks w3 = (lib_xsks w2)(p := None)"
    using socket_delete_shape [OF d(1) p(4) U2(1) p(2,3)] by simp
  have "xsk_umem__delete env u w2 = Some (- LIB_EBUSY, w2)" using umem_busy [OF assms(2) U(1)] by simp
  moreover have "lib_umems w3 = lib_umems w1" "heap w3 = heap w1" "lib_xsks w3 = lib_xsks w1"
    using sh m' p none U by auto
  moreover have "lib_rings w3 a = lib_rings w1 a" if "a \<noteq> rxp" "a \<noteq> txp" for a using that d(2) R by (simp add: sock_rings_def)
  moreover have "live_fds w3 = live_fds w1" "live_maps w3 = live_maps w1" using d l m' assms(5) by simp_all
  ultimately show ?thesis using d(1) p(1) sh by blast
qed

lemma umem_delete_later:
  assumes s: "umem_success env ptr area cfg fill cmpl u fd off m1 m2 w w1" and w: "umem_args ptr area fill cmpl w"
    and off': "const_offsets env"
    and same: "heap w3 = heap w1" "lib_umems w3 = lib_umems w1" "lib_xsks w3 = lib_xsks w1"
      "lib_rings w3 fill = lib_rings w1 fill" "lib_rings w3 cmpl = lib_rings w1 cmpl"
      "live_fds w3 = live_fds w1" "live_maps w3 = live_maps w1"
  shows "\<exists>w4. xsk_umem__delete env u w3 = Some (0, w4) \<and> heap w4 = heap w \<and> lib_umems w4 = lib_umems w \<and>
     lib_xsks w4 = lib_xsks w \<and> live_fds w4 = live_fds w \<and> live_maps w4 = live_maps w"
proof -
  let ?U = "new_umem fill cmpl area cfg fd"
  have off: "\<And>t. answer env t (Sock (Getsockopt fd SOL_XDP XDP_MMAP_OFFSETS)) = off" "rv off = 0"
    using s off' by (auto simp: umem_success_def const_offsets_def)
  have made: "umem_made ptr area fd cfg off u fill cmpl m1 m2 w w1" using s by (simp add: umem_success_def)
  have U: "lib_umems w3 u = Some ?U" "um_refcount ?U = 0" "um_fd ?U = fd" "um_fill ?U = fill" "um_comp ?U = cmpl"
    "um_config ?U = cfg"
    using made same by (simp_all add: umem_made_def new_umem_def)
  have ne: "fill \<noteq> cmpl" and none: "lib_umems w u = None"
    using w s by (auto simp: umem_args_def lib_ok_def umem_success_def)
  obtain f c where rings: "lib_rings w3 fill = Some f" "rp_ring f - o_desc (ring_off off 2) = m1"
      "lib_rings w3 cmpl = Some c" "rp_ring c - o_desc (ring_off off 3) = m2"
    using made ne same by (simp add: umem_made_def umem_rings_def set_ring_def)
  have h: "u \<noteq> 0" "heap w3 u \<noteq> None" "live_fds w3 = add_mset fd (live_fds w)" "heap w3 = (heap w)(u \<mapsto> replicate 48 0)" "heap w u = None"
    using s same by (simp_all add: umem_success_def)
  have un: "(heap w)(u := None) = heap w" "(lib_umems w)(u := None) = lib_umems w" using h(5) none by auto
  show ?thesis
    using umem_delete_effect [OF h(1) U(1,2) h(2), of f c env off] U rings off h same made un
    by (simp add: umem_made_def) blast
qed

text \<open>The arguments of a whole session: four different ring structures and two result variables.\<close>

definition session_args :: "nat \<Rightarrow> nat \<Rightarrow> nat \<Rightarrow> nat \<Rightarrow> nat \<Rightarrow> nat \<Rightarrow> nat \<Rightarrow> xsk_world \<Rightarrow> bool" where
  "session_args ptr area fill cmpl sptr rxp txp w \<longleftrightarrow> umem_args ptr area fill cmpl w \<and> sptr \<noteq> 0 \<and> rxp \<noteq> 0 \<and> txp \<noteq> 0 \<and>
     distinct [fill, cmpl, rxp, txp] \<and> lib_rings w rxp \<noteq> None \<and> lib_rings w txp \<noteq> None"


subsection \<open>An environment in which the calls succeed\<close>

definition lib_reply :: "sys_call \<Rightarrow> reply" where
  "lib_reply c = (case c of Calloc n \<Rightarrow> good_reply 1 | Sock (If_nametoindex s) \<Rightarrow> good_reply 2 | _ \<Rightarrow> good_reply 0)"

definition lib_env :: env where
  "lib_env = good_env\<lparr>answer := (\<lambda>t. lib_reply)\<rparr>"

definition zero_ptrs :: ring_ptrs where
  "zero_ptrs = \<lparr>rp_cached_prod = 0, rp_cached_cons = 0, rp_mask = 0, rp_size = 0, rp_producer = 0, rp_consumer = 0,
     rp_ring = 0, rp_flags = 0\<rparr>"

definition xw0 :: xsk_world where
  "xw0 = \<lparr>trace = [], errno = 0, heap = Map.empty, fresh = 0, err_buf = [],
     lib_rings = (\<lambda>a. if a \<in> {10, 11, 12, 13} then Some zero_ptrs else None), lib_umems = Map.empty, lib_xsks = Map.empty,
     lib_slots = (\<lambda>a. 0)\<rparr>"

lemma lib_env_sys: "sys lib_env c w = (lib_reply c, w\<lparr>trace := trace w @ [(c, lib_reply c)]\<rparr>)"
  by (auto simp: sys_def Let_def lib_env_def lib_reply_def good_reply_def split: sys_call.split sock_call.split)

lemma lib_env_laws: "reports_errors lib_env" "const_offsets lib_env" "no_prog lib_env"
  by (auto simp: reports_errors_def const_offsets_def no_prog_def lib_env_def lib_reply_def failed_call_def good_reply_def
      MAP_FAILED_def get32_def split: sys_call.splits sock_call.splits)

lemma xw0_args: "session_args 1 4096 10 11 2 12 13 xw0"
  by (simp add: session_args_def umem_args_def lib_ok_def heap_ok_def xw0_def)

lemmas lib_eval = lib_env_sys call_def lib_reply_def good_reply_def c_calloc_def new_block_def Let_def put_ring_def mmap_def
  MAP_FAILED_def

lemma lib_env_umem:
  "\<exists>w1. xsk_umem__create lib_env 1 4096 0 10 11 None xw0 = Some (0, w1) \<and> lib_slots w1 1 = 1 \<and>
     lib_umems w1 1 = Some (new_umem 10 11 4096 (xsk_set_umem_config None) 0) \<and>
     lib_rings w1 12 = Some zero_ptrs \<and> lib_rings w1 13 = Some zero_ptrs"
  by (simp add: xsk_umem__create_def xsk_page_aligned_def umem_map_rings_def umem_map_comp_def lib_eval xw0_def new_umem_def)

lemma lib_env_socket:
  assumes "lib_umems w1 1 = Some U" "um_refcount U = 0" "lib_rings w1 12 = Some a" "lib_rings w1 13 = Some b"
  shows "\<exists>w2. xsk_socket__create lib_env 2 ''eth0'' 0 1 12 13 None w1 = Some (0, w2)"
  using assms
  by (simp add: xsk_socket__create_def set_refcount_def xsk_configure_def xsk_set_xdp_socket_config_def xsk_map_rings_def
      xsk_map_tx_def xsk_finish_def xsk_bind_and_setup_def xsk_setup_xdp_prog_def setup_prog_def setup_new_prog_def
      xsk_create_bpf_maps_def xsk_get_max_queues_def xsk_load_xdp_prog_def set_or_undo_def xsk_set_bpf_maps_def
      close_fd_def get32_def lib_eval)


theorem umem_create_outcome_witness:
  "\<exists>err w'. xsk_umem__create lib_env 1 4096 0 10 11 None xw0 = Some (err, w') \<and>
     (if err = 0
      then \<exists>u fd off m1 m2. umem_success lib_env 1 4096 (xsk_set_umem_config None) 10 11 u fd off m1 m2 xw0 w'
      else umem_failure (xsk_set_umem_config None) xw0 w')"
  using umem_create_outcome [OF _ lib_env_laws(1), of 1 4096 10 11 xw0 0 None] xw0_args by (simp add: session_args_def)

definition xw1 :: xsk_world where
  "xw1 = xw0\<lparr>heap := [5 \<mapsto> replicate 48 0], fresh := 5, lib_umems := [5 \<mapsto> new_umem 10 11 4096 (xsk_set_umem_config None) 3]\<rparr>"

theorem socket_create_outcome_witness:
  "\<exists>err w'. xsk_socket__create lib_env 2 ''eth0'' 0 5 12 13 None xw1 = Some (err, w') \<and>
     (if err = 0 then sock_success lib_env 2 12 13 5 (new_umem 10 11 4096 (xsk_set_umem_config None) 3) xw1 w'
      else sock_failure lib_env xw1 w')"
  by (rule socket_create_outcome)
    (simp_all add: sock_args_def xw1_def xw0_def heap_ok_def lib_env_laws new_umem_def)

text \<open>The mapping that stays behind, in a run where only the completion ring cannot be mapped.\<close>

definition leak_env :: env where
  "leak_env = good_env\<lparr>answer := (\<lambda>t c. case c of
       Sock (Mmap len fd off) \<Rightarrow>
         if off = XDP_UMEM_PGOFF_COMPLETION_RING then (good_reply (-1))\<lparr>rerr := 12\<rparr> else good_reply 8192
     | _ \<Rightarrow> lib_reply c)\<rparr>"

lemma fill_ring_leaks:
  "\<exists>w'. xsk_umem__create leak_env 1 4096 0 10 11 None xw0 = Some (-12, w') \<and> live_fds w' = {#} \<and> size (live_maps w') = 1"
  by (simp add: xsk_umem__create_def xsk_page_aligned_def umem_map_rings_def umem_map_comp_def lib_eval sys_def leak_env_def
      xw0_def out_umem_mmap_def out_umem_socket_def out_umem_alloc_def c_free_def munmap_def close_fd_def
      XDP_UMEM_PGOFF_COMPLETION_RING_def XDP_UMEM_PGOFF_FILL_RING_def live_fds_def live_maps_def fd_step_def map_step_def opens_fd_def)

section \<open>Reference counts\<close>

text \<open>
  Any sequence of the four operations, on any objects and with any kernel. A step is a call that
  returns; its arguments are valid.
\<close>

inductive lib_step :: "xsk_world \<Rightarrow> xsk_world \<Rightarrow> bool" where
  create_umem: "umem_args ptr area fill cmpl w \<Longrightarrow> xsk_umem__create env ptr area sz fill cmpl usr w = Some (err, w') \<Longrightarrow>
    lib_step w w'"
| delete_umem: "lib_umems w u \<noteq> None \<Longrightarrow> xsk_umem__delete env u w = Some (err, w') \<Longrightarrow> lib_step w w'"
| create_socket: "sock_args ptr u rxp txp w \<Longrightarrow> xsk_socket__create env ptr ifn q u rxp txp usr w = Some (err, w') \<Longrightarrow>
    lib_step w w'"
| delete_socket: "lib_xsks w p \<noteq> None \<Longrightarrow> xsk_socket__delete env p w = Some w' \<Longrightarrow> lib_step w w'"

text \<open>The sockets on a umem, and the invariant.\<close>

definition sockets_on :: "xsk_world \<Rightarrow> nat \<Rightarrow> nat set" where
  "sockets_on w u = {p. \<exists>x. lib_xsks w p = Some x \<and> xs_umem x = u}"

definition lib_inv :: "xsk_world \<Rightarrow> bool" where
  "lib_inv w \<longleftrightarrow> lib_ok w \<and>
     (\<forall>u U. lib_umems w u = Some U \<longrightarrow> finite (sockets_on w u) \<and> um_refcount U = int (card (sockets_on w u)) \<and>
        card (sockets_on w u) \<le> 1) \<and>
     (\<forall>p x. lib_xsks w p = Some x \<longrightarrow> (\<exists>U. lib_umems w (xs_umem x) = Some U \<and> xs_fd x = um_fd U))"

lemma lib_invI:
  assumes "lib_ok w"
    and "\<And>u U. lib_umems w u = Some U \<Longrightarrow>
       finite (sockets_on w u) \<and> um_refcount U = int (card (sockets_on w u)) \<and> card (sockets_on w u) \<le> 1"
    and "\<And>p x. lib_xsks w p = Some x \<Longrightarrow> \<exists>U. lib_umems w (xs_umem x) = Some U \<and> xs_fd x = um_fd U"
  shows "lib_inv w"
  using assms unfolding lib_inv_def by blast

lemma lib_invD:
  assumes "lib_inv w"
  shows "lib_ok w"
    and "lib_umems w u = Some U \<Longrightarrow>
       finite (sockets_on w u) \<and> um_refcount U = int (card (sockets_on w u)) \<and> card (sockets_on w u) \<le> 1"
    and "lib_xsks w p = Some x \<Longrightarrow> \<exists>U. lib_umems w (xs_umem x) = Some U \<and> xs_fd x = um_fd U"
  using assms unfolding lib_inv_def by blast+

lemma heap_okD: "heap_ok w \<Longrightarrow> heap w p = Some b \<Longrightarrow> 0 < p \<and> p \<le> fresh w"
  unfolding heap_ok_def by blast

lemma heap_okI: "(\<And>p b. heap w p = Some b \<Longrightarrow> 0 < p \<and> p \<le> fresh w) \<Longrightarrow> heap_ok w"
  unfolding heap_ok_def by blast

lemma heap_ok_mono:
  assumes "heap_ok w" "\<And>p b. heap w' p = Some b \<Longrightarrow> \<exists>b'. heap w p = Some b'" "fresh w \<le> fresh w'"
  shows "heap_ok w'"
proof (rule heap_okI)
  fix p b
  assume "heap w' p = Some b"
  then obtain b' where "heap w p = Some b'" using assms(2) by blast
  then show "0 < p \<and> p \<le> fresh w'" using heap_okD [OF assms(1)] assms(3) by (meson le_trans)
qed

lemma lib_inv_cong:
  assumes "lib_inv w" "untouched w w'"
  shows "lib_inv w'"
proof -
  have hw: "heap_ok w" using lib_invD(1) [OF assms(1)] by (simp add: lib_ok_def)
  have h: "heap_ok w'" using assms(2) by (intro heap_ok_mono [OF hw]) (simp_all add: untouched_def)
  have e: "lib_umems w' = lib_umems w" "lib_xsks w' = lib_xsks w" "heap w' = heap w"
    using assms(2) by (simp_all add: untouched_def)
  have so: "sockets_on w' = sockets_on w" by (simp add: sockets_on_def [abs_def] e)
  have "lib_ok w'" using lib_invD(1) [OF assms(1)] h by (simp add: lib_ok_def e)
  then show ?thesis using assms(1) unfolding lib_inv_def so e by (elim conjE) (intro conjI)
qed

text \<open>Adding and removing an object, on the side of the store.\<close>

lemma lib_ok_remove:
  assumes "lib_ok w" "heap w' = (heap w)(a := None)" "fresh w \<le> fresh w'"
    "dom (lib_umems w') \<subseteq> dom (lib_umems w) - {a}" "dom (lib_xsks w') \<subseteq> dom (lib_xsks w) - {a}"
  shows "lib_ok w'"
proof -
  have w: "heap_ok w" "dom (lib_umems w) \<subseteq> dom (heap w)" "dom (lib_xsks w) \<subseteq> dom (heap w)"
    "dom (lib_umems w) \<inter> dom (lib_xsks w) = {}" using assms(1) by (simp_all add: lib_ok_def)
  have h: "heap_ok w'" using assms(2,3) by (intro heap_ok_mono [OF w(1)]) (simp_all split: if_splits)
  have d: "dom (heap w') = dom (heap w) - {a}" using assms(2) by simp
  have "dom (lib_umems w') \<subseteq> dom (heap w')" "dom (lib_xsks w') \<subseteq> dom (heap w')" "dom (lib_umems w') \<inter> dom (lib_xsks w') = {}"
    unfolding d using w(2-4) assms(4,5) by blast+
  then show ?thesis using h by (simp add: lib_ok_def)
qed

lemma lib_ok_add:
  assumes "lib_ok w" "heap_ok w'" "heap w a = None" "heap w' = (heap w)(a \<mapsto> b)"
    "dom (lib_umems w') \<subseteq> insert a (dom (lib_umems w))" "dom (lib_xsks w') \<subseteq> insert a (dom (lib_xsks w))"
    "a \<notin> dom (lib_umems w') \<or> a \<notin> dom (lib_xsks w')"
  shows "lib_ok w'"
proof -
  have w: "dom (lib_umems w) \<subseteq> dom (heap w)" "dom (lib_xsks w) \<subseteq> dom (heap w)"
    "dom (lib_umems w) \<inter> dom (lib_xsks w) = {}" using assms(1) by (simp_all add: lib_ok_def)
  have d: "dom (heap w') = insert a (dom (heap w))" using assms(4) by simp
  have "dom (lib_umems w') \<subseteq> dom (heap w')" "dom (lib_xsks w') \<subseteq> dom (heap w')" "dom (lib_umems w') \<inter> dom (lib_xsks w') = {}"
    unfolding d using w assms(5-7) by blast+
  then show ?thesis using assms(2) by (simp add: lib_ok_def)
qed

lemma lib_ok_nonzero:
  assumes "lib_ok w" "a \<in> dom (lib_umems w) \<union> dom (lib_xsks w)" shows "a \<noteq> 0" "heap w a \<noteq> None"
proof -
  have "a \<in> dom (heap w)" using assms unfolding lib_ok_def by blast
  then show "a \<noteq> 0" "heap w a \<noteq> None" using heap_okD [of w a] assms(1) by (auto simp: lib_ok_def)
qed

lemma lib_ok_fresh:
  assumes "lib_ok w" "heap w a = None" shows "lib_umems w a = None" "lib_xsks w a = None"
  using assms unfolding lib_ok_def by blast+

lemma lib_inv_umem_success:
  assumes inv: "lib_inv w" and s: "umem_success env ptr area cfg fill cmpl u fd off m1 m2 w w'"
  shows "lib_inv w'"
proof -
  have m: "lib_umems w' = (lib_umems w)(u \<mapsto> new_umem fill cmpl area cfg fd)" "lib_xsks w' = lib_xsks w"
    "heap w' = (heap w)(u \<mapsto> replicate 48 0)" "heap w u = None"
    using s by (simp_all add: umem_success_def umem_made_def)
  note ok = lib_invD(1) [OF inv]
  note none = lib_ok_fresh [OF ok m(4)]
  have ok': "lib_ok w'"
    using umem_success_heap_ok [OF s] ok m none by (intro lib_ok_add [of w w' u]) (auto simp: lib_ok_def)
  have nos: "xs_umem x \<noteq> u" if "lib_xsks w p = Some x" for p x using lib_invD(3) [OF inv that] none by auto
  have so: "sockets_on w' = sockets_on w" "sockets_on w u = {}" using m(2) nos by (auto simp: sockets_on_def fun_eq_iff)
  show ?thesis
  proof (rule lib_invI [OF ok'])
    fix v V assume "lib_umems w' v = Some V"
    then show "finite (sockets_on w' v) \<and> um_refcount V = int (card (sockets_on w' v)) \<and> card (sockets_on w' v) \<le> 1"
      using lib_invD(2) [OF inv, of v V] m(1) so by (cases "v = u") (auto simp: new_umem_def)
  next
    fix p x assume "lib_xsks w' p = Some x"
    then show "\<exists>U. lib_umems w' (xs_umem x) = Some U \<and> xs_fd x = um_fd U"
      using lib_invD(3) [OF inv, of p x] nos [of p x] m(1,2) by auto
  qed
qed

lemma lib_inv_delete_umem:
  assumes inv: "lib_inv w" and u: "lib_umems w u = Some U" and d: "xsk_umem__delete env u w = Some (err, w')"
  shows "lib_inv w'"
proof -
  note ok = lib_invD(1) [OF inv]
  have "u \<noteq> 0" using u lib_ok_nonzero(1) [OF ok, of u] by blast
  from umem_delete_shape [OF d u this] consider "w' = w"
    | "um_refcount U = 0" "heap w' = (heap w)(u := None)" "fresh w \<le> fresh w'" "lib_umems w' = (lib_umems w)(u := None)"
      "lib_xsks w' = lib_xsks w" by blast
  then show ?thesis
  proof cases
    case 1 then show ?thesis using inv by simp
  next
    case 2
    have "sockets_on w u = {}" using lib_invD(2) [OF inv u] 2(1) by auto
    then have nos: "xs_umem x \<noteq> u" if "lib_xsks w p = Some x" for p x using that by (auto simp: sockets_on_def)
    have "lib_xsks w u = None" using ok u unfolding lib_ok_def by blast
    then have ok': "lib_ok w'" using 2 by (intro lib_ok_remove [OF ok, of w' u]) auto
    have so: "sockets_on w' = sockets_on w" using 2 by (simp add: sockets_on_def fun_eq_iff)
    show ?thesis
    proof (rule lib_invI [OF ok'])
      fix v V assume "lib_umems w' v = Some V"
      then show "finite (sockets_on w' v) \<and> um_refcount V = int (card (sockets_on w' v)) \<and> card (sockets_on w' v) \<le> 1"
        using lib_invD(2) [OF inv, of v V] 2(4) so by (cases "v = u") auto
    next
      fix p x assume "lib_xsks w' p = Some x"
      then show "\<exists>U. lib_umems w' (xs_umem x) = Some U \<and> xs_fd x = um_fd U"
        using lib_invD(3) [OF inv, of p x] nos [of p x] 2(4,5) by auto
    qed
  qed
qed

lemma lib_inv_sock_made:
  assumes inv: "lib_inv w" and m: "sock_made env ptr p u U x w w'"
  shows "lib_inv w'"
proof -
  note ok = lib_invD(1) [OF inv]
  note m' = m [unfolded sock_made_def]
  have hp: "heap w p = None" using m' by simp
  note none = lib_ok_fresh [OF ok hp]
  have U: "lib_umems w u = Some U" "um_refcount U = 0" "p \<noteq> u" using m' none by auto
  have ok': "lib_ok w'" using m' U none by (intro lib_ok_add [OF ok, of w' p]) auto
  have s0: "sockets_on w u = {}" using lib_invD(2) [OF inv U(1)] U(2) by auto
  have so: "sockets_on w' v = (if v = u then {p} else sockets_on w v)" for v
    using m' none s0 by (auto simp: sockets_on_def split: if_splits)
  show ?thesis
  proof (rule lib_invI [OF ok'])
    fix v V assume "lib_umems w' v = Some V"
    then show "finite (sockets_on w' v) \<and> um_refcount V = int (card (sockets_on w' v)) \<and> card (sockets_on w' v) \<le> 1"
      using lib_invD(2) [OF inv, of v V] m' so by (cases "v = u") auto
  next
    fix r y assume "lib_xsks w' r = Some y"
    then show "\<exists>U. lib_umems w' (xs_umem y) = Some U \<and> xs_fd y = um_fd U"
      using lib_invD(3) [OF inv, of r y] U m' by (cases "r = p"; cases "xs_umem y = u") auto
  qed
qed

lemma lib_inv_create_socket:
  assumes inv: "lib_inv w" and a: "sock_args ptr u rxp txp w"
    and c: "xsk_socket__create env ptr ifn q u rxp txp usr w = Some (err, w')"
  shows "lib_inv w'"
proof -
  obtain U where U: "lib_umems w u = Some U" using a by (auto simp: sock_args_def)
  show ?thesis
  proof (cases "um_refcount U = 0")
    case False
    then have "w' = w" using a U c by (auto simp: xsk_socket__create_def sock_args_def)
    then show ?thesis using inv by simp
  next
    case True
    have "untouched w w' \<or> sock_success env ptr rxp txp u U w w'"
      using socket_create_cases [OF a U True, of env ifn q usr] c by (auto simp: sock_outcome_def sock_failure_def)
    then show ?thesis using lib_inv_cong [OF inv] lib_inv_sock_made [OF inv] unfolding sock_success_def by blast
  qed
qed

lemma lib_inv_delete_socket:
  assumes inv: "lib_inv w" and x: "lib_xsks w p = Some x" and d: "xsk_socket__delete env p w = Some w'"
  shows "lib_inv w'"
proof -
  note ok = lib_invD(1) [OF inv]
  obtain U where U: "lib_umems w (xs_umem x) = Some U" using lib_invD(3) [OF inv x] by blast
  have p: "p \<noteq> 0" "heap w p \<noteq> None" using lib_ok_nonzero [OF ok, of p] x by blast+
  note sh = socket_delete_shape [OF d x U p]
  have ne: "lib_umems w p = None" using ok x unfolding lib_ok_def by blast
  then have "xs_umem x \<noteq> p" using U by auto
  then have ok': "lib_ok w'" using sh ne U by (intro lib_ok_remove [OF ok, of w' p]) auto
  have "p \<in> sockets_on w (xs_umem x)" using x by (simp add: sockets_on_def)
  moreover have c: "finite (sockets_on w (xs_umem x))" "card (sockets_on w (xs_umem x)) \<le> Suc 0"
    "um_refcount U = int (card (sockets_on w (xs_umem x)))" using lib_invD(2) [OF inv U] by simp_all
  ultimately have one: "sockets_on w (xs_umem x) = {p}" using card_le_Suc0_iff_eq [OF c(1)] by blast
  then have "um_refcount U = 1" using c(3) by simp
  have so: "sockets_on w' v = (if v = xs_umem x then {} else sockets_on w v)" for v
    using sh x one by (auto simp: sockets_on_def split: if_splits)
  show ?thesis
  proof (rule lib_invI [OF ok'])
    fix v V assume "lib_umems w' v = Some V"
    then show "finite (sockets_on w' v) \<and> um_refcount V = int (card (sockets_on w' v)) \<and> card (sockets_on w' v) \<le> 1"
      using lib_invD(2) [OF inv, of v V] sh so \<open>um_refcount U = 1\<close> by (cases "v = xs_umem x") auto
  next
    fix r y assume "lib_xsks w' r = Some y"
    then show "\<exists>U. lib_umems w' (xs_umem y) = Some U \<and> xs_fd y = um_fd U"
      using lib_invD(3) [OF inv, of r y] U sh by (cases "r = p"; cases "xs_umem y = xs_umem x") auto
  qed
qed

lemma lib_step_inv: "lib_step w w' \<Longrightarrow> lib_inv w \<Longrightarrow> lib_inv w'"
proof (induction rule: lib_step.induct)
  case (create_umem ptr area fill cmpl w env sz usr err w')
  have "(\<exists>u fd off m1 m2. umem_success env ptr area (xsk_set_umem_config usr) fill cmpl u fd off m1 m2 w w') \<or> untouched w w'"
    using umem_create_cases [of w ptr area fill cmpl "xsk_set_umem_config usr" usr env sz] create_umem(1,2)
    by (auto simp: umem_args_def lib_ok_def umem_failure_def)
  then show ?case using lib_inv_umem_success lib_inv_cong create_umem.prems by blast
next
  case (delete_umem w u env err w') then show ?case using lib_inv_delete_umem by blast
next
  case (create_socket ptr u rxp txp w env ifn q usr err w') then show ?case using lib_inv_create_socket by blast
next
  case (delete_socket w p env w') then show ?case using lib_inv_delete_socket by blast
qed

lemma lib_reach_inv: "lib_step\<^sup>*\<^sup>* w w' \<Longrightarrow> lib_inv w \<Longrightarrow> lib_inv w'"
  by (induction rule: rtranclp_induct) (auto intro: lib_step_inv)

definition no_objects :: "xsk_world \<Rightarrow> bool" where
  "no_objects w \<longleftrightarrow> heap_ok w \<and> lib_umems w = Map.empty \<and> lib_xsks w = Map.empty"

lemma no_objects_inv: "no_objects w \<Longrightarrow> lib_inv w"
  by (simp add: no_objects_def lib_inv_def lib_ok_def)

text \<open>
  C11. Reference counts. Start without objects and run any sequence of creations and deletions of
  umems and sockets, in any order, successful or not, with any answers of the kernel. Then the
  reference count of every umem is the number of sockets on it, which is 0 or 1, and every socket
  refers to a umem that exists and whose descriptor it shares. In particular a umem that is in use
  is never freed.
\<close>

theorem refcounts_exact:
  assumes "no_objects w0" and "lib_step\<^sup>*\<^sup>* w0 w"
  shows "(\<forall>u U. lib_umems w u = Some U \<longrightarrow>
       um_refcount U = int (card (sockets_on w u)) \<and> finite (sockets_on w u) \<and> um_refcount U \<in> {0, 1}) \<and>
     (\<forall>p x. lib_xsks w p = Some x \<longrightarrow> (\<exists>U. lib_umems w (xs_umem x) = Some U \<and> xs_fd x = um_fd U))"
proof -
  have inv: "lib_inv w" using lib_reach_inv [OF assms(2) no_objects_inv [OF assms(1)]] .
  have "um_refcount U \<in> {0, 1}" if "lib_umems w u = Some U" for u U
    using lib_invD(2) [OF inv that] by (auto simp: le_Suc_eq)
  then show ?thesis using lib_invD(2,3) [OF inv] by blast
qed

lemma xw0_no_objects: "no_objects xw0"
  by (simp add: no_objects_def heap_ok_def xw0_def)

theorem refcounts_exact_witness:
  "\<exists>w2 U. lib_step\<^sup>*\<^sup>* xw0 w2 \<and> lib_umems w2 1 = Some U \<and> um_refcount U = int (card (sockets_on w2 1))"
proof -
  obtain w1 where c1: "xsk_umem__create lib_env 1 4096 0 10 11 None xw0 = Some (0, w1)"
    "lib_umems w1 1 = Some (new_umem 10 11 4096 (xsk_set_umem_config None) 0)" "lib_rings w1 12 = Some zero_ptrs"
    "lib_rings w1 13 = Some zero_ptrs"
    using lib_env_umem by blast
  obtain w2 where c2: "xsk_socket__create lib_env 2 ''eth0'' 0 1 12 13 None w1 = Some (0, w2)"
    using lib_env_socket [OF c1(2) _ c1(3,4)] by (auto simp: new_umem_def)
  have s1: "lib_step xw0 w1" using c1(1) xw0_args by (intro create_umem) (auto simp: session_args_def)
  have "heap_ok w1" using lib_invD(1) [OF lib_step_inv [OF s1 no_objects_inv [OF xw0_no_objects]]] by (simp add: lib_ok_def)
  then have a: "sock_args 2 1 12 13 w1" using c1 by (simp add: sock_args_def)
  have s2: "lib_step w1 w2" using create_socket [OF a c2] .
  have r: "lib_step\<^sup>*\<^sup>* xw0 w2" using s1 s2 by (meson r_into_rtranclp rtranclp_trans)
  have "um_refcount (new_umem 10 11 4096 (xsk_set_umem_config None) 0) = 0" by (simp add: new_umem_def)
  from socket_create_outcome_aux [OF a c1(2) this lib_env_laws(1,3), of "''eth0''" 0 None]
  have "sock_success lib_env 2 12 13 1 (new_umem 10 11 4096 (xsk_set_umem_config None) 0) w1 w2" using c2 by auto
  then obtain U where "lib_umems w2 1 = Some U" by (auto simp: sock_success_def sock_made_def)
  then show ?thesis using refcounts_exact [OF xw0_no_objects r] r by blast
qed

text \<open>
  So a socket can always be deleted: with the ring structures still in place, no sequence of calls
  leads to a state where \<open>xsk_socket__delete\<close> meets a dead umem.
\<close>

lemma delete_socket_defined:
  assumes "no_objects w0" "lib_step\<^sup>*\<^sup>* w0 w" and x: "lib_xsks w p = Some x"
    and R: "lib_rings w (xs_rx x) \<noteq> None" "lib_rings w (xs_tx x) \<noteq> None"
  shows "xsk_socket__delete env p w \<noteq> None"
proof -
  have inv: "lib_inv w" using lib_reach_inv [OF assms(2) no_objects_inv [OF assms(1)]] .
  obtain U where U: "lib_umems w (xs_umem x) = Some U" using lib_invD(3) [OF inv x] by blast
  have p: "p \<noteq> 0" "heap w p \<noteq> None" using lib_ok_nonzero [OF lib_invD(1) [OF inv], of p] x by blast+
  let ?w1 = "drop_prog env x w"
  obtain off w2 where c: "sys env (Sock (Getsockopt (xs_fd x) SOL_XDP XDP_MMAP_OFFSETS)) ?w1 = (off, w2)" by fastforce
  have f2: "frame w w2" using drop_prog_effect(1) [of w env x] sys_frame [OF c] by (auto simp: lib_quiet_def intro: frame_trans)
  then have "unmap_socket env x off w2 \<noteq> None" using R by (auto simp: unmap_socket_def frame_def Let_def)
  then obtain w3 where u: "unmap_socket env x off w2 = Some w3" by blast
  have "frame w w3" using frame_trans [OF f2 unmap_socket_quiet(1) [OF u]] .
  then have "drop_socket env p x w3 \<noteq> None" using drop_socket_effect [OF p(1), of w3 x U env] p(2) U by (auto simp: frame_def)
  then show ?thesis using x p(1) c u by (simp add: xsk_socket__delete_def)
qed

end
