(* ===== verification/Hashmap.thy ===== *)
theory Hashmap
  imports Prelude "HOL-Library.Multiset"
begin

unbundle bit_operations_syntax

text \<open>
  The hash map of libbpf, \<^verbatim>\<open>lib/libbpf/src/hashmap.c\<close> and \<^verbatim>\<open>hashmap.h\<close>: chained buckets, a power
  of two of them, doubled when the map is three quarters full, and four insertion strategies. It is
  shown to implement a finite map up to the equality of keys, through every growth and every failed
  allocation.
\<close>

section \<open>Data\<close>

datatype hashmap_insert_strategy = HASHMAP_ADD | HASHMAP_SET | HASHMAP_UPDATE | HASHMAP_APPEND

text \<open>
  An entry has the address of its block. A chain is the list of entries from a bucket along the
  \<open>next\<close> pointers.
\<close>

record ('k, 'v) hashmap_entry =
  e_addr :: nat
  e_key :: 'k
  e_value :: 'v

text \<open>
  \<open>hash_fn\<close> and \<open>equal_fn\<close> are the caller's functions, with \<open>ctx\<close> applied. \<open>buckets\<close> is the address
  of the bucket array (0 for \<open>NULL\<close>), \<open>hm_chains\<close> what hangs off it.
\<close>

record ('k, 'v) hashmap =
  hash_fn :: "'k \<Rightarrow> u64"
  equal_fn :: "'k \<Rightarrow> 'k \<Rightarrow> bool"
  buckets :: nat
  hm_chains :: "('k, 'v) hashmap_entry list list"
  cap :: u64
  cap_bits :: u64
  hm_sz :: u64

definition HASHMAP_MIN_CAP_BITS :: u64 where "HASHMAP_MIN_CAP_BITS = 2"
definition HM_ENOENT :: int where "HM_ENOENT = 2"
definition HM_ENOMEM :: int where "HM_ENOMEM = 12"
definition HM_EEXIST :: int where "HM_EEXIST = 17"

text \<open>
  For \<open>bits = 0\<close> the C expression shifts by the width of the type. The hardware takes the shift
  count modulo 64; the value is only computed for a map without buckets, where it is not used.
\<close>

definition hash_bits :: "u64 \<Rightarrow> nat \<Rightarrow> u64" where
  "hash_bits h bits = drop_bit ((64 - bits) mod 64) (h * 11400714819323198485)"

definition hm_bucket :: "('k, 'v) hashmap \<Rightarrow> 'k \<Rightarrow> nat" where
  "hm_bucket m key = unat (hash_bits (hash_fn m key) (unat (cap_bits m)))"

section \<open>Operations\<close>

definition hashmap_add_entry ::
    "('k, 'v) hashmap_entry list list \<Rightarrow> nat \<Rightarrow> ('k, 'v) hashmap_entry \<Rightarrow> ('k, 'v) hashmap_entry list list" where
  "hashmap_add_entry cs h e = cs[h := e # cs ! h]"

text \<open>Unlinking the entry at a position of its chain.\<close>

definition hashmap_del_entry ::
    "('k, 'v) hashmap_entry list list \<Rightarrow> nat \<Rightarrow> nat \<Rightarrow> ('k, 'v) hashmap_entry list list" where
  "hashmap_del_entry cs h i = cs[h := take i (cs ! h) @ drop (Suc i) (cs ! h)]"

definition hashmap__init :: "('k \<Rightarrow> u64) \<Rightarrow> ('k \<Rightarrow> 'k \<Rightarrow> bool) \<Rightarrow> ('k, 'v) hashmap" where
  "hashmap__init hf eq =
     \<lparr>hash_fn = hf, equal_fn = eq, buckets = 0, hm_chains = [], cap = 0, cap_bits = 0, hm_sz = 0\<rparr>"

definition hashmap__new ::
    "env \<Rightarrow> ('k \<Rightarrow> u64) \<Rightarrow> ('k \<Rightarrow> 'k \<Rightarrow> bool) \<Rightarrow> 'a world_scheme \<Rightarrow> (int + nat \<times> ('k, 'v) hashmap) \<times> 'a world_scheme" where
  "hashmap__new env hf eq w =
     (let (p, w) = c_malloc env 56 w
      in if p = 0 then (Inl (- HM_ENOMEM), w) else (Inr (p, hashmap__init hf eq), w))"

text \<open>The bucket array is freed and stays in the structure; the entries are not freed.\<close>

definition hashmap__clear :: "('k, 'v) hashmap \<Rightarrow> 'a world_scheme \<Rightarrow> (('k, 'v) hashmap \<times> 'a world_scheme) option" where
  "hashmap__clear m w = map_option (\<lambda>w. (m\<lparr>cap := 0, cap_bits := 0, hm_sz := 0\<rparr>, w)) (c_free (buckets m) w)"

definition hashmap__free :: "nat \<Rightarrow> ('k, 'v) hashmap \<Rightarrow> 'a world_scheme \<Rightarrow> 'a world_scheme option" where
  "hashmap__free p m w =
     (if p = 0 then Some w
      else do { (m, w) \<leftarrow> hashmap__clear m w; c_free p w })"

definition hashmap__size :: "('k, 'v) hashmap \<Rightarrow> u64" where "hashmap__size m = hm_sz m"
definition hashmap__capacity :: "('k, 'v) hashmap \<Rightarrow> u64" where "hashmap__capacity m = cap m"

definition hashmap_needs_to_grow :: "('k, 'v) hashmap \<Rightarrow> bool" where
  "hashmap_needs_to_grow m \<longleftrightarrow> cap m = 0 \<or> cap m < (hm_sz m + 1) * 4 div 3"

text \<open>The loop of \<open>hashmap_grow\<close>: every entry, bucket by bucket, goes to the front of its new chain.\<close>

fun rehash ::
    "('k \<Rightarrow> nat) \<Rightarrow> ('k, 'v) hashmap_entry list \<Rightarrow> ('k, 'v) hashmap_entry list list \<Rightarrow> ('k, 'v) hashmap_entry list list" where
  "rehash bkt [] cs = cs"
| "rehash bkt (e # es) cs = rehash bkt es (hashmap_add_entry cs (bkt (e_key e)) e)"

text \<open>
  Undefined are a shift by 64 or more, the overflow of the loop's \<open>int bkt\<close> on a table of \<open>2\<close> to the
  power 31 buckets or more, and the release of a bucket array that is not live.
\<close>

definition hashmap_grow :: "env \<Rightarrow> ('k, 'v) hashmap \<Rightarrow> 'a world_scheme \<Rightarrow> (int \<times> ('k, 'v) hashmap \<times> 'a world_scheme) option" where
  "hashmap_grow env m w =
     (let new_cap_bits = (if cap_bits m + 1 < HASHMAP_MIN_CAP_BITS then HASHMAP_MIN_CAP_BITS else cap_bits m + 1);
          bits = unat new_cap_bits
      in if 64 \<le> bits then None
         else let (p, w) = c_calloc env (2 ^ bits * 8) w
         in if p = 0 then Some (- HM_ENOMEM, m, w)
         else if 2 ^ 31 \<le> unat (cap m) then None
         else let cs = rehash (\<lambda>k. unat (hash_bits (hash_fn m k) bits)) (concat (take (unat (cap m)) (hm_chains m))) (replicate (2 ^ bits) [])
              in map_option
                   (\<lambda>w. (0, m\<lparr>cap := push_bit bits 1, cap_bits := new_cap_bits, buckets := p, hm_chains := cs\<rparr>, w))
                   (c_free (buckets m) w))"

fun find_in_chain :: "('k \<Rightarrow> 'k \<Rightarrow> bool) \<Rightarrow> 'k \<Rightarrow> ('k, 'v) hashmap_entry list \<Rightarrow> nat option" where
  "find_in_chain eq key [] = None"
| "find_in_chain eq key (e # es) = (if eq (e_key e) key then Some 0 else map_option Suc (find_in_chain eq key es))"

text \<open>The position of the entry in its chain; \<open>None\<close> outside is an access to a dead or foreign bucket.\<close>

definition hashmap_find_entry :: "('k, 'v) hashmap \<Rightarrow> 'k \<Rightarrow> nat \<Rightarrow> 'a world_scheme \<Rightarrow> nat option option" where
  "hashmap_find_entry m key h w =
     (if buckets m = 0 then Some None
      else if heap w (buckets m) = None \<or> length (hm_chains m) \<le> h then None
      else Some (find_in_chain (equal_fn m) key (hm_chains m ! h)))"

definition set_entry ::
    "('k, 'v) hashmap_entry list list \<Rightarrow> nat \<Rightarrow> nat \<Rightarrow> 'k \<Rightarrow> 'v \<Rightarrow> ('k, 'v) hashmap_entry list list" where
  "set_entry cs h i key value = cs[h := (cs ! h)[i := (cs ! h ! i)\<lparr>e_key := key, e_value := value\<rparr>]]"

text \<open>The end of \<open>hashmap__insert\<close>: grow if needed, then a new entry at the front of its chain.\<close>

definition insert_new ::
    "env \<Rightarrow> ('k, 'v) hashmap \<Rightarrow> 'k \<Rightarrow> 'v \<Rightarrow> 'a world_scheme \<Rightarrow> (int \<times> ('k, 'v) hashmap \<times> 'a world_scheme) option" where
  "insert_new env m key value w = do {
     (err, m, w) \<leftarrow> (if hashmap_needs_to_grow m then hashmap_grow env m w else Some (0, m, w));
     if err \<noteq> 0 then Some (err, m, w)
     else let (p, w) = c_malloc env 24 w
          in if p = 0 then Some (- HM_ENOMEM, m, w)
             else let h = hm_bucket m key
                  in if heap w (buckets m) = None \<or> length (hm_chains m) \<le> h then None
                     else Some (0, m\<lparr>hm_chains := hashmap_add_entry (hm_chains m) h \<lparr>e_addr = p, e_key = key, e_value = value\<rparr>,
                                      hm_sz := hm_sz m + 1\<rparr>, w)
   }"

text \<open>The result is the error, \<open>*old_key\<close> and \<open>*old_value\<close> (\<open>None\<close> is \<open>NULL\<close>), and the map.\<close>

definition hashmap__insert ::
    "env \<Rightarrow> ('k, 'v) hashmap \<Rightarrow> 'k \<Rightarrow> 'v \<Rightarrow> hashmap_insert_strategy \<Rightarrow> 'a world_scheme \<Rightarrow>
     (int \<times> ('k \<times> 'v) option \<times> ('k, 'v) hashmap \<times> 'a world_scheme) option" where
  "hashmap__insert env m key value strategy w = do {
     let h = hm_bucket m key;
     found \<leftarrow> (if strategy \<noteq> HASHMAP_APPEND then hashmap_find_entry m key h w else Some None);
     (case found of
        Some i \<Rightarrow>
          (let e = hm_chains m ! h ! i; old = Some (e_key e, e_value e)
           in if strategy = HASHMAP_SET \<or> strategy = HASHMAP_UPDATE
              then Some (0, old, m\<lparr>hm_chains := set_entry (hm_chains m) h i key value\<rparr>, w)
              else Some (- HM_EEXIST, old, m, w))
      | None \<Rightarrow>
          if strategy = HASHMAP_UPDATE then Some (- HM_ENOENT, None, m, w)
          else map_option (\<lambda>(err, m, w). (err, None, m, w)) (insert_new env m key value w))
   }"

definition hashmap__add ::
    "env \<Rightarrow> ('k, 'v) hashmap \<Rightarrow> 'k \<Rightarrow> 'v \<Rightarrow> 'a world_scheme \<Rightarrow> (int \<times> ('k \<times> 'v) option \<times> ('k, 'v) hashmap \<times> 'a world_scheme) option" where
  "hashmap__add env m key value w = hashmap__insert env m key value HASHMAP_ADD w"

definition hashmap__set ::
    "env \<Rightarrow> ('k, 'v) hashmap \<Rightarrow> 'k \<Rightarrow> 'v \<Rightarrow> 'a world_scheme \<Rightarrow> (int \<times> ('k \<times> 'v) option \<times> ('k, 'v) hashmap \<times> 'a world_scheme) option" where
  "hashmap__set env m key value w = hashmap__insert env m key value HASHMAP_SET w"

definition hashmap__update ::
    "env \<Rightarrow> ('k, 'v) hashmap \<Rightarrow> 'k \<Rightarrow> 'v \<Rightarrow> 'a world_scheme \<Rightarrow> (int \<times> ('k \<times> 'v) option \<times> ('k, 'v) hashmap \<times> 'a world_scheme) option" where
  "hashmap__update env m key value w = hashmap__insert env m key value HASHMAP_UPDATE w"

definition hashmap__append ::
    "env \<Rightarrow> ('k, 'v) hashmap \<Rightarrow> 'k \<Rightarrow> 'v \<Rightarrow> 'a world_scheme \<Rightarrow> (int \<times> ('k \<times> 'v) option \<times> ('k, 'v) hashmap \<times> 'a world_scheme) option" where
  "hashmap__append env m key value w = hashmap__insert env m key value HASHMAP_APPEND w"

definition hashmap__find :: "('k, 'v) hashmap \<Rightarrow> 'k \<Rightarrow> 'a world_scheme \<Rightarrow> 'v option option" where
  "hashmap__find m key w =
     map_option (map_option (\<lambda>i. e_value (hm_chains m ! hm_bucket m key ! i))) (hashmap_find_entry m key (hm_bucket m key) w)"

definition hashmap__delete ::
    "('k, 'v) hashmap \<Rightarrow> 'k \<Rightarrow> 'a world_scheme \<Rightarrow> (bool \<times> ('k \<times> 'v) option \<times> ('k, 'v) hashmap \<times> 'a world_scheme) option" where
  "hashmap__delete m key w = do {
     let h = hm_bucket m key;
     found \<leftarrow> hashmap_find_entry m key h w;
     (case found of
        None \<Rightarrow> Some (False, None, m, w)
      | Some i \<Rightarrow>
          (let e = hm_chains m ! h ! i
           in map_option (\<lambda>w. (True, Some (e_key e, e_value e),
                               m\<lparr>hm_chains := hashmap_del_entry (hm_chains m) h i, hm_sz := hm_sz m - 1\<rparr>, w))
                (c_free (e_addr e) w)))
   }"

text \<open>The iteration macros: the entries in the order the loops visit them.\<close>

definition hashmap__for_each_entry :: "('k, 'v) hashmap \<Rightarrow> ('k, 'v) hashmap_entry list" where
  "hashmap__for_each_entry m = concat (take (unat (cap m)) (hm_chains m))"

definition hashmap__for_each_key_entry :: "('k, 'v) hashmap \<Rightarrow> 'k \<Rightarrow> ('k, 'v) hashmap_entry list" where
  "hashmap__for_each_key_entry m key =
     (if buckets m = 0 then [] else filter (\<lambda>e. equal_fn m (e_key e) key) (hm_chains m ! hm_bucket m key))"

section \<open>Chains\<close>

definition entries :: "('k, 'v) hashmap \<Rightarrow> ('k, 'v) hashmap_entry list" where
  "entries m = concat (hm_chains m)"

definition placed :: "('k \<Rightarrow> nat) \<Rightarrow> ('k, 'v) hashmap_entry list list \<Rightarrow> bool" where
  "placed b cs \<longleftrightarrow> (\<forall>h < length cs. \<forall>e \<in> set (cs ! h). b (e_key e) = h)"

lemma mset_concat_update:
  "h < length cs \<Longrightarrow> mset (concat (cs[h := xs])) + mset (cs ! h) = mset (concat cs) + mset xs"
proof (induction cs arbitrary: h)
  case (Cons c cs) then show ?case by (cases h) auto
qed simp

lemma add_entry_mset:
  "h < length cs \<Longrightarrow> mset (concat (hashmap_add_entry cs h e)) = add_mset e (mset (concat cs))"
  using mset_concat_update [of h cs "e # cs ! h"] by (simp add: hashmap_add_entry_def)

lemma del_entry_mset:
  assumes "h < length cs" "i < length (cs ! h)"
  shows "add_mset (cs ! h ! i) (mset (concat (hashmap_del_entry cs h i))) = mset (concat cs)"
proof -
  have "mset (cs ! h) = add_mset (cs ! h ! i) (mset (take i (cs ! h) @ drop (Suc i) (cs ! h)))"
    using arg_cong [OF id_take_nth_drop [OF assms(2)], of mset] by simp
  then show ?thesis
    using mset_concat_update [OF assms(1), of "take i (cs ! h) @ drop (Suc i) (cs ! h)"] by (simp add: hashmap_del_entry_def)
qed

lemma set_entry_mset:
  assumes "h < length cs" "i < length (cs ! h)"
  shows "add_mset (cs ! h ! i) (mset (concat (set_entry cs h i key v))) =
     add_mset ((cs ! h ! i)\<lparr>e_key := key, e_value := v\<rparr>) (mset (concat cs))"
proof -
  let ?e = "(cs ! h ! i)\<lparr>e_key := key, e_value := v\<rparr>"
  let ?xs = "(cs ! h)[i := ?e]" and ?C = "mset (concat (set_entry cs h i key v))"
  have x: "add_mset (cs ! h ! i) (mset ?xs) = add_mset ?e (mset (cs ! h))" using assms(2) by (simp add: mset_update)
  have c: "?C + mset (cs ! h) = mset (concat cs) + mset ?xs"
    using mset_concat_update [OF assms(1), of ?xs] by (simp add: set_entry_def)
  have "add_mset (cs ! h ! i) ?C + mset (cs ! h) = mset (concat cs) + add_mset (cs ! h ! i) (mset ?xs)" using c by simp
  also have "\<dots> = add_mset ?e (mset (concat cs)) + mset (cs ! h)" unfolding x by simp
  finally show ?thesis by (rule add_right_imp_eq)
qed

lemma rehash_effect:
  assumes "\<And>k. b k < length cs" and "placed b cs"
  shows "length (rehash b es cs) = length cs \<and> placed b (rehash b es cs) \<and>
     mset (concat (rehash b es cs)) = mset es + mset (concat cs)"
  using assms
proof (induction es arbitrary: cs)
  case (Cons e es)
  let ?cs = "hashmap_add_entry cs (b (e_key e)) e"
  have "placed b ?cs" using Cons.prems by (auto simp: placed_def hashmap_add_entry_def nth_list_update)
  moreover have "length ?cs = length cs" by (simp add: hashmap_add_entry_def)
  ultimately show ?case using Cons.IH [of ?cs] Cons.prems add_entry_mset [of "b (e_key e)" cs e] by simp
qed simp

lemma find_in_chain_Some:
  "find_in_chain eq k es = Some i \<Longrightarrow> i < length es \<and> eq (e_key (es ! i)) k"
  by (induction es arbitrary: i) (auto split: if_splits)

lemma find_in_chain_None: "find_in_chain eq k es = None \<longleftrightarrow> (\<forall>e \<in> set es. \<not> eq (e_key e) k)"
  by (induction es) auto

lemma placed_mem:
  assumes "placed b cs" "e \<in> set (concat cs)" shows "b (e_key e) < length cs" "e \<in> set (cs ! b (e_key e))"
proof -
  obtain h where h: "h < length cs" "e \<in> set (cs ! h)" using assms(2) by (auto simp: in_set_conv_nth [of _ cs])
  then have "b (e_key e) = h" using assms(1) by (simp add: placed_def)
  then show "b (e_key e) < length cs" "e \<in> set (cs ! b (e_key e))" using h by simp_all
qed

section \<open>The invariant\<close>

text \<open>What the caller promises of the two functions.\<close>

definition key_laws :: "('k \<Rightarrow> u64) \<Rightarrow> ('k \<Rightarrow> 'k \<Rightarrow> bool) \<Rightarrow> bool" where
  "key_laws hf eq \<longleftrightarrow> (\<forall>a. eq a a) \<and> (\<forall>a b. eq a b \<longrightarrow> eq b a) \<and> (\<forall>a b c. eq a b \<longrightarrow> eq b c \<longrightarrow> eq a c) \<and>
     (\<forall>a b. eq a b \<longrightarrow> hf a = hf b)"

definition hm_shape :: "('k, 'v) hashmap \<Rightarrow> bool" where
  "hm_shape m \<longleftrightarrow>
     (if buckets m = 0 then hm_chains m = [] \<and> cap m = 0 \<and> cap_bits m = 0
      else unat (cap_bits m) \<in> {2..<64} \<and> length (hm_chains m) = 2 ^ unat (cap_bits m) \<and> unat (cap m) = 2 ^ unat (cap_bits m)) \<and>
     placed (hm_bucket m) (hm_chains m) \<and> hm_sz m = of_nat (length (entries m))"

definition hm_blocks :: "('k, 'v) hashmap \<Rightarrow> nat list" where
  "hm_blocks m = (if buckets m = 0 then [] else [buckets m]) @ map e_addr (entries m)"

definition hm_unique :: "('k, 'v) hashmap \<Rightarrow> bool" where
  "hm_unique m \<longleftrightarrow> (\<forall>e \<in> set (entries m). \<forall>e' \<in> set (entries m). equal_fn m (e_key e) (e_key e') \<longrightarrow> e = e')"

definition hm_ok :: "('k, 'v) hashmap \<Rightarrow> 'a world_scheme \<Rightarrow> bool" where
  "hm_ok m w \<longleftrightarrow> key_laws (hash_fn m) (equal_fn m) \<and> hm_shape m \<and> heap_ok w \<and>
     distinct (hm_blocks m) \<and> set (hm_blocks m) \<subseteq> dom (heap w) \<and> hm_unique m"

text \<open>The map it stands for: the value of an entry with an equal key.\<close>

definition hm_lookup :: "('k, 'v) hashmap \<Rightarrow> 'k \<Rightarrow> 'v option" where
  "hm_lookup m k = map_option e_value (List.find (\<lambda>e. equal_fn m (e_key e) k) (entries m))"

lemma hash_bits_less:
  assumes "0 < b" "b < 64" shows "unat (hash_bits h b) < 2 ^ b"
proof -
  let ?x = "unat (h * 11400714819323198485)"
  have "?x < 2 ^ 64" using unsigned_less [of "h * 11400714819323198485", where ?'a = nat] by simp
  also have "(2::nat) ^ 64 = 2 ^ b * 2 ^ (64 - b)" using assms by (simp flip: power_add)
  finally have "?x div 2 ^ (64 - b) < 2 ^ b" by (rule less_mult_imp_div_less)
  then show ?thesis using assms by (simp add: hash_bits_def unat_drop_bit_eq) (simp add: drop_bit_eq_div)
qed

lemma hm_bucket_less:
  assumes "hm_shape m" "buckets m \<noteq> 0" shows "hm_bucket m k < length (hm_chains m)"
  using assms hash_bits_less [of "unat (cap_bits m)" "hash_fn m k"] by (auto simp: hm_shape_def hm_bucket_def)

lemma hm_entries_nil: "hm_shape m \<Longrightarrow> buckets m = 0 \<Longrightarrow> entries m = []"
  by (simp add: hm_shape_def entries_def)

lemma hm_lookup_None: "hm_lookup m k = None \<longleftrightarrow> (\<forall>e \<in> set (entries m). \<not> equal_fn m (e_key e) k)"
  by (auto simp: hm_lookup_def find_None_iff)

lemma hm_lookup_Some:
  assumes "hm_unique m" "key_laws (hash_fn m) (equal_fn m)" "e \<in> set (entries m)" "equal_fn m (e_key e) k"
  shows "hm_lookup m k = Some (e_value e)"
proof -
  obtain e' where f: "List.find (\<lambda>e. equal_fn m (e_key e) k) (entries m) = Some e'"
    using assms(3,4) by (metis (mono_tags, lifting) find_None_iff not_None_eq)
  then have "e' \<in> set (entries m)" "equal_fn m (e_key e') k" by (auto simp: find_Some_iff)
  moreover from this have "equal_fn m (e_key e') (e_key e)" using assms(2,4) unfolding key_laws_def by blast
  ultimately have "e' = e" using assms(1,3) by (simp add: hm_unique_def)
  then show ?thesis using f by (simp add: hm_lookup_def)
qed

lemma hm_okD:
  assumes "hm_ok m w"
  shows "key_laws (hash_fn m) (equal_fn m)" "hm_shape m" "heap_ok w" "distinct (hm_blocks m)"
    "set (hm_blocks m) \<subseteq> dom (heap w)" "hm_unique m"
  using assms by (simp_all add: hm_ok_def)

lemma find_SomeD: "List.find P xs = Some x \<Longrightarrow> x \<in> set xs \<and> P x"
  by (induction xs) (auto split: if_splits)

lemma hm_lookup_iff:
  assumes "hm_ok m w"
  shows "hm_lookup m k = Some v \<longleftrightarrow> (\<exists>e \<in> set (entries m). equal_fn m (e_key e) k \<and> e_value e = v)"
proof
  assume "hm_lookup m k = Some v"
  then obtain e where "List.find (\<lambda>e. equal_fn m (e_key e) k) (entries m) = Some e" "e_value e = v"
    by (auto simp: hm_lookup_def)
  then show "\<exists>e \<in> set (entries m). equal_fn m (e_key e) k \<and> e_value e = v" using find_SomeD by metis
next
  assume "\<exists>e \<in> set (entries m). equal_fn m (e_key e) k \<and> e_value e = v"
  then obtain e where "e \<in> set (entries m)" "equal_fn m (e_key e) k" "e_value e = v" by blast
  then show "hm_lookup m k = Some v" using hm_lookup_Some [OF hm_okD(6,1) [OF assms]] by simp
qed

lemma key_eq:
  assumes "hm_ok m w"
  shows "equal_fn m a a" "equal_fn m a b \<Longrightarrow> equal_fn m b a" "equal_fn m a b \<Longrightarrow> equal_fn m b c \<Longrightarrow> equal_fn m a c"
  using hm_okD(1) [OF assms] unfolding key_laws_def by (blast, blast, meson)

lemma same_bucket: "key_laws (hash_fn m) (equal_fn m) \<Longrightarrow> equal_fn m a b \<Longrightarrow> hm_bucket m a = hm_bucket m b"
  unfolding key_laws_def hm_bucket_def by metis

text \<open>The search is defined, and finds the entry exactly when there is one.\<close>

definition found_at :: "('k, 'v) hashmap \<Rightarrow> 'k \<Rightarrow> nat \<Rightarrow> bool" where
  "found_at m k i \<longleftrightarrow> buckets m \<noteq> 0 \<and> hm_bucket m k < length (hm_chains m) \<and> i < length (hm_chains m ! hm_bucket m k) \<and>
     hm_chains m ! hm_bucket m k ! i \<in> set (entries m) \<and> equal_fn m (e_key (hm_chains m ! hm_bucket m k ! i)) k"

lemma find_entry_cases:
  assumes "hm_ok m w"
  shows "hashmap_find_entry m k (hm_bucket m k) w = Some None \<and> hm_lookup m k = None \<or>
     (\<exists>i. hashmap_find_entry m k (hm_bucket m k) w = Some (Some i) \<and> found_at m k i)"
proof (cases "buckets m = 0")
  case True
  then show ?thesis using hm_entries_nil [OF hm_okD(2) [OF assms]] by (simp add: hashmap_find_entry_def hm_lookup_def)
next
  case False
  let ?h = "hm_bucket m k"
  have h: "?h < length (hm_chains m)" by (rule hm_bucket_less [OF hm_okD(2) [OF assms] False])
  have live: "heap w (buckets m) \<noteq> None" using hm_okD(5) [OF assms] False by (auto simp: hm_blocks_def)
  have pl: "placed (hm_bucket m) (hm_chains m)" using hm_okD(2) [OF assms] by (simp add: hm_shape_def)
  show ?thesis
  proof (cases "find_in_chain (equal_fn m) k (hm_chains m ! ?h)")
    case None
    then have "\<not> equal_fn m (e_key e) k" if "e \<in> set (entries m)" for e
      using that same_bucket [OF hm_okD(1) [OF assms], of "e_key e" k] placed_mem(2) [OF pl, of e]
      by (auto simp: find_in_chain_None entries_def)
    then show ?thesis using None False h live by (simp add: hashmap_find_entry_def hm_lookup_None)
  next
    case (Some i)
    then have i: "i < length (hm_chains m ! ?h)" "equal_fn m (e_key (hm_chains m ! ?h ! i)) k" using find_in_chain_Some by metis+
    then have "hm_chains m ! ?h ! i \<in> set (entries m)" 
      using h nth_mem by (fastforce simp: entries_def)
    then show ?thesis using Some False h live i by (auto simp: hashmap_find_entry_def found_at_def)
  qed
qed

lemma find_correct_aux:
  assumes "hm_ok m w" shows "hashmap__find m k w = Some (hm_lookup m k)"
  using find_entry_cases [OF assms, of k]
proof (elim disjE exE conjE, goal_cases)
  case (2 i)
  then have "hm_lookup m k = Some (e_value (hm_chains m ! hm_bucket m k ! i))"
    using hm_lookup_Some [OF hm_okD(6,1) [OF assms]] by (simp add: found_at_def)
  then show ?case using 2 by (simp add: hashmap__find_def)
qed (simp add: hashmap__find_def)

text \<open>Changing the contents by one entry.\<close>

lemma distinct_entries: "hm_ok m w \<Longrightarrow> distinct (entries m)"
  using hm_okD(4) [of m w] by (auto simp: hm_blocks_def distinct_map split: if_splits)

lemma remove_entry_set:
  assumes "hm_ok m w" "mset (entries m) = add_mset e N" shows "set_mset N = set (entries m) - {e}" "e \<in> set (entries m)"
proof -
  have c: "count (mset (entries m)) e = 1" using distinct_entries [OF assms(1)] assms(2)
    by (metis count_mset_0_iff distinct_count_atmost_1 set_mset_mset union_single_eq_member)
  have s: "set (entries m) = insert e (set_mset N)" using assms(2) by (metis set_mset_add_mset_insert set_mset_mset)
  moreover have "e \<notin># N" using c assms(2) by (simp add: count_eq_zero_iff)
  ultimately show "set_mset N = set (entries m) - {e}" "e \<in> set (entries m)" by auto
qed

lemma option_eqI: "(\<And>v. x = Some v \<longleftrightarrow> y = Some v) \<Longrightarrow> x = y"
  by (metis not_Some_eq)

lemma lookup_upd:
  assumes ok: "hm_ok m w" "hm_ok m' w'" and eq: "equal_fn m' = equal_fn m"
    and S: "set (entries m') = insert e' (set (entries m) - X)"
    and X: "\<And>e. e \<in> set (entries m) \<Longrightarrow> e \<in> X \<longleftrightarrow> equal_fn m (e_key e) (e_key e')"
  shows "hm_lookup m' k = (if equal_fn m (e_key e') k then Some (e_value e') else hm_lookup m k)"
proof (cases "equal_fn m (e_key e') k")
  case True
  have "e' \<in> set (entries m')" "equal_fn m' (e_key e') k" using S True eq by simp_all
  then show ?thesis using hm_lookup_Some [OF hm_okD(6,1) [OF ok(2)]] True by simp
next
  case False
  have "hm_lookup m' k = Some v \<longleftrightarrow> hm_lookup m k = Some v" for v
  proof -
    have n: "e \<notin> X" if "equal_fn m (e_key e) k" "e \<in> set (entries m)" for e
      using X [OF that(2)] False key_eq(3) [OF ok(1) key_eq(2) [OF ok(1)] that(1), of "e_key e'"] by blast
    show ?thesis unfolding hm_lookup_iff [OF ok(2)] hm_lookup_iff [OF ok(1)] eq S using False n by blast
  qed
  then have "hm_lookup m' k = hm_lookup m k" by (rule option_eqI)
  then show ?thesis using False by simp
qed

lemma lookup_del:
  assumes ok: "hm_ok m w" "hm_ok m' w'" and eq: "equal_fn m' = equal_fn m"
    and S: "set (entries m') = set (entries m) - {e}" and e: "e \<in> set (entries m)" "equal_fn m (e_key e) key"
  shows "hm_lookup m' k = (if equal_fn m key k then None else hm_lookup m k)"
proof -
  note sym = key_eq(2) [OF ok(1)] and trans = key_eq(3) [OF ok(1)]
  have "hm_lookup m' k = Some v \<longleftrightarrow> \<not> equal_fn m key k \<and> hm_lookup m k = Some v" for v
  proof -
    have x: "x = e" if "x \<in> set (entries m)" "equal_fn m (e_key x) k" "equal_fn m key k" for x
    proof -
      have "equal_fn m (e_key x) (e_key e)" using trans [OF trans [OF that(2) sym [OF that(3)]] sym [OF e(2)]] .
      then show ?thesis using that(1) e(1) hm_okD(6) [OF ok(1)] by (simp add: hm_unique_def)
    qed
    have y: "\<not> equal_fn m (e_key e) k" if "\<not> equal_fn m key k" using that trans [OF sym [OF e(2)]] by blast
    show ?thesis
    proof (cases "equal_fn m key k")
      case True
      then show ?thesis unfolding hm_lookup_iff [OF ok(2)] eq S using x by auto
    next
      case False
      then show ?thesis unfolding hm_lookup_iff [OF ok(2)] hm_lookup_iff [OF ok(1)] eq S using y by auto
    qed
  qed
  then show ?thesis by (intro option_eqI) simp
qed

section \<open>Each change keeps the invariant\<close>

lemma blocks_mset_cong:
  assumes "buckets m' = buckets m" "mset (map e_addr (entries m')) = mset (map e_addr (entries m))"
  shows "distinct (hm_blocks m') = distinct (hm_blocks m)" "set (hm_blocks m') = set (hm_blocks m)"
proof -
  have "mset (hm_blocks m') = mset (hm_blocks m)" using assms by (simp add: hm_blocks_def)
  then show "distinct (hm_blocks m') = distinct (hm_blocks m)" "set (hm_blocks m') = set (hm_blocks m)"
    by (rule mset_eq_imp_distinct_iff, rule mset_eq_setD)
qed

lemma unique_upd:
  assumes ok: "hm_ok m w" and eq: "equal_fn m' = equal_fn m" and S: "set (entries m') = insert e' (set (entries m) - X)"
    and X: "\<And>e. e \<in> set (entries m) \<Longrightarrow> equal_fn m (e_key e) (e_key e') \<Longrightarrow> e \<in> X"
  shows "hm_unique m'"
proof -
  have u: "x = y" if "x \<in> set (entries m)" "y \<in> set (entries m)" "equal_fn m (e_key x) (e_key y)" for x y
    using hm_okD(6) [OF ok] that unfolding hm_unique_def by blast
  have n: "\<not> equal_fn m (e_key x) (e_key e')" "\<not> equal_fn m (e_key e') (e_key x)" if "x \<in> set (entries m) - X" for x
    using that X [of x] key_eq(2) [OF ok] by blast+
  show ?thesis unfolding hm_unique_def eq S using u n by (auto 0 3)
qed

lemma placed_update:
  assumes "placed b cs" "\<And>e. e \<in> set xs \<Longrightarrow> b (e_key e) = h" shows "placed b (cs[h := xs])"
  using assms by (cases "h < length cs") (auto simp: placed_def nth_list_update)

lemma placed_set_entry:
  assumes "placed b cs" "h < length cs" "b key = h" shows "placed b (set_entry cs h i key v)"
  unfolding set_entry_def
proof (rule placed_update [OF assms(1)])
  fix e assume "e \<in> set ((cs ! h)[i := (cs ! h ! i)\<lparr>e_key := key, e_value := v\<rparr>])"
  then have "e = (cs ! h ! i)\<lparr>e_key := key, e_value := v\<rparr> \<or> e \<in> set (cs ! h)" using set_update_subset_insert by fast
  then show "b (e_key e) = h" using assms by (auto simp: placed_def)
qed

lemma placed_add_entry:
  "placed b cs \<Longrightarrow> h < length cs \<Longrightarrow> b (e_key e) = h \<Longrightarrow> placed b (hashmap_add_entry cs h e)"
  unfolding hashmap_add_entry_def by (rule placed_update) (auto simp: placed_def)

lemma placed_del_entry: "placed b cs \<Longrightarrow> h < length cs \<Longrightarrow> placed b (hashmap_del_entry cs h i)"
  unfolding hashmap_del_entry_def by (rule placed_update) (auto simp: placed_def dest: in_set_takeD in_set_dropD)

lemma replace_ok:
  assumes ok: "hm_ok m w" and f: "found_at m key i"
    and m'_def: "m' = m\<lparr>hm_chains := set_entry (hm_chains m) (hm_bucket m key) i key v\<rparr>"
  shows "hm_ok m' w" "hm_lookup m' k = (if equal_fn m key k then Some v else hm_lookup m k)" "hm_sz m' = hm_sz m"
proof -
  let ?h = "hm_bucket m key" and ?cs = "hm_chains m"
  let ?e = "?cs ! ?h ! i" and ?e' = "(?cs ! ?h ! i)\<lparr>e_key := key, e_value := v\<rparr>"
  note f' = f [unfolded found_at_def]
  have h: "?h < length ?cs" "i < length (?cs ! ?h)" and e: "?e \<in> set (entries m)" "equal_fn m (e_key ?e) key" using f' by simp_all
  have M: "add_mset ?e (mset (entries m')) = add_mset ?e' (mset (entries m))"
    using set_entry_mset [OF h, of key v] by (simp add: m'_def entries_def)
  obtain N where N: "mset (entries m) = add_mset ?e N" using e(1) by (metis insert_DiffM set_mset_mset)
  then have N': "mset (entries m') = add_mset ?e' N" using M by (simp add: add_mset_commute)
  have S: "set (entries m') = insert ?e' (set (entries m) - {?e})"
    using remove_entry_set(1) [OF ok N] N' by (metis set_mset_add_mset_insert set_mset_mset)
  have X: "x \<in> {?e} \<longleftrightarrow> equal_fn m (e_key x) (e_key ?e')" if "x \<in> set (entries m)" for x
    using that e hm_okD(6) [OF ok] key_eq(2) [OF ok, of "e_key ?e" key] key_eq(3) [OF ok, of "e_key x" key "e_key ?e"]
    by (auto simp: hm_unique_def)
  have same: "equal_fn m' = equal_fn m" "hm_bucket m' = hm_bucket m" "buckets m' = buckets m"
    by (auto simp: m'_def hm_bucket_def fun_eq_iff)
  have "placed (hm_bucket m) (set_entry ?cs ?h i key v)"
    using hm_okD(2) [OF ok] h by (intro placed_set_entry) (simp_all add: hm_shape_def)
  moreover have "length (entries m') = length (entries m)" using N N' by (metis size_add_mset size_mset)
  ultimately have sh: "hm_shape m'" using hm_okD(2) [OF ok] same by (auto simp: hm_shape_def m'_def set_entry_def)
  have A: "mset (map e_addr (entries m')) = mset (map e_addr (entries m))" using N N' by simp
  show ok': "hm_ok m' w"
    using hm_okD [OF ok] sh blocks_mset_cong [OF same(3) A] unique_upd [OF ok same(1) S] X by (auto simp: hm_ok_def m'_def)
  show "hm_lookup m' k = (if equal_fn m key k then Some v else hm_lookup m k)"
    using lookup_upd [OF ok ok' same(1) S X] by simp
qed (simp add: m'_def)

lemma heap_ok_new:
  assumes "heap_ok w" "new_block bs w = (p, w')" shows "heap_ok w'" "p \<notin> dom (heap w)" "dom (heap w') = insert p (dom (heap w))"
proof -
  have b: "0 < q" "q \<le> fresh w" if "q \<in> dom (heap w)" for q using assms(1) that unfolding heap_ok_def by blast+
  have w': "p = Suc (fresh w)" "heap w' = (heap w)(p \<mapsto> bs)" "fresh w' = p" using assms(2) by (auto simp: new_block_def)
  show "p \<notin> dom (heap w)" using b(2) [of p] w'(1) by auto
  show d: "dom (heap w') = insert p (dom (heap w))" using w'(2) by simp
  show "heap_ok w'" unfolding heap_ok_def d w'(3) using b w'(1) by (auto intro: le_SucI)
qed

lemma alloc_new:
  assumes "heap_ok w" "sys env c w = (r, w1)" "(if rv r = 0 then (0, w1) else new_block bs w1) = (p, w')"
  shows "heap_ok w' \<and> (p = 0 \<and> heap w' = heap w \<or> p \<noteq> 0 \<and> p \<notin> dom (heap w) \<and> dom (heap w') = insert p (dom (heap w)))"
proof -
  have s: "heap w1 = heap w" "fresh w1 = fresh w" using sys_effect [OF assms(2)] by simp_all
  then have h1: "heap_ok w1" using assms(1) by (simp add: heap_ok_def)
  show ?thesis
  proof (cases "rv r = 0")
    case False
    then have n: "new_block bs w1 = (p, w')" using assms(3) by simp
    show ?thesis using heap_ok_new [OF h1 n] new_block_effect [OF n] unfolding s by blast
  qed (use assms(3) h1 s in auto)
qed

lemma alloc_cases:
  assumes "heap_ok w" "c_malloc env n w = (p, w') \<or> c_calloc env n w = (p, w')"
  shows "heap_ok w'" "p = 0 \<and> heap w' = heap w \<or> p \<noteq> 0 \<and> p \<notin> dom (heap w) \<and> dom (heap w') = insert p (dom (heap w))"
proof -
  obtain c r w1 bs where "sys env c w = (r, w1)" "(if rv r = 0 then (0, w1) else new_block bs w1) = (p, w')"
    using assms(2)
  proof
    assume a: "c_malloc env n w = (p, w')"
    obtain r w1 where "sys env (Malloc n) w = (r, w1)" by (cases "sys env (Malloc n) w")
    then show thesis using that a by (simp add: c_malloc_def)
  next
    assume a: "c_calloc env n w = (p, w')"
    obtain r w1 where "sys env (Calloc n) w = (r, w1)" by (cases "sys env (Calloc n) w")
    then show thesis using that a by (simp add: c_calloc_def)
  qed
  from alloc_new [OF assms(1) this]
  show "heap_ok w'" "p = 0 \<and> heap w' = heap w \<or> p \<noteq> 0 \<and> p \<notin> dom (heap w) \<and> dom (heap w') = insert p (dom (heap w))"
    by blast+
qed

lemma add_ok:
  assumes ok: "hm_ok m w" and b: "buckets m \<noteq> 0" and new: "hm_lookup m key = None"
    and w': "heap_ok w'" "dom (heap w') = insert p (dom (heap w))" "p \<notin> dom (heap w)"
    and m': "m' = m\<lparr>hm_chains := hashmap_add_entry (hm_chains m) (hm_bucket m key) \<lparr>e_addr = p, e_key = key, e_value = v\<rparr>,
                    hm_sz := hm_sz m + 1\<rparr>"
  shows "hm_ok m' w'" "hm_lookup m' k = (if equal_fn m key k then Some v else hm_lookup m k)"
proof -
  let ?e = "\<lparr>e_addr = p, e_key = key, e_value = v\<rparr>"
  have h: "hm_bucket m key < length (hm_chains m)" by (rule hm_bucket_less [OF hm_okD(2) [OF ok] b])
  have M: "mset (entries m') = add_mset ?e (mset (entries m))" using add_entry_mset [OF h] by (simp add: m' entries_def)
  then have S: "set (entries m') = insert ?e (set (entries m) - {})" by (metis Diff_empty set_mset_add_mset_insert set_mset_mset)
  have X: "x \<in> {} \<longleftrightarrow> equal_fn m (e_key x) (e_key ?e)" if "x \<in> set (entries m)" for x
    using new that by (simp add: hm_lookup_None)
  have same: "equal_fn m' = equal_fn m" "hm_bucket m' = hm_bucket m" by (auto simp: m' hm_bucket_def fun_eq_iff)
  have "placed (hm_bucket m) (hm_chains m')" using hm_okD(2) [OF ok] h by (simp add: m' placed_add_entry hm_shape_def)
  moreover have "length (entries m') = Suc (length (entries m))" using M by (metis size_add_mset size_mset)
  ultimately have sh: "hm_shape m'" using hm_okD(2) [OF ok] same b by (simp add: hm_shape_def m' hashmap_add_entry_def)
  have "mset (hm_blocks m') = add_mset p (mset (hm_blocks m))" using M b by (simp add: hm_blocks_def m')
  then have B: "distinct (hm_blocks m') = distinct (p # hm_blocks m)" "set (hm_blocks m') = insert p (set (hm_blocks m))"
    by (simp_all only: mset_eq_imp_distinct_iff [of "hm_blocks m'" "p # hm_blocks m"] mset.simps flip: set_mset_mset) simp
  show ok': "hm_ok m' w'"
    using hm_okD [OF ok] sh B w' unique_upd [OF ok same(1) S] X by (auto simp: hm_ok_def m')
  show "hm_lookup m' k = (if equal_fn m key k then Some v else hm_lookup m k)"
    using lookup_upd [OF ok ok' same(1) S X] by simp
qed

lemma del_ok:
  assumes ok: "hm_ok m w" and f: "found_at m key i" and e: "e = hm_chains m ! hm_bucket m key ! i"
    and w': "heap w' = (heap w)(e_addr e := None)" "fresh w' = fresh w"
    and m': "m' = m\<lparr>hm_chains := hashmap_del_entry (hm_chains m) (hm_bucket m key) i, hm_sz := hm_sz m - 1\<rparr>"
  shows "hm_ok m' w'" "hm_lookup m' k = (if equal_fn m key k then None else hm_lookup m k)"
proof -
  note f' = f [unfolded found_at_def, folded e]
  have h: "hm_bucket m key < length (hm_chains m)" "i < length (hm_chains m ! hm_bucket m key)" using f' by simp_all
  have M: "mset (entries m) = add_mset e (mset (entries m'))" using del_entry_mset [OF h] e by (simp add: m' entries_def)
  have S: "set (entries m') = set (entries m) - {e}" using remove_entry_set(1) [OF ok M] by simp
  have same: "equal_fn m' = equal_fn m" "hm_bucket m' = hm_bucket m" "buckets m' = buckets m"
    by (auto simp: m' hm_bucket_def fun_eq_iff)
  have "placed (hm_bucket m) (hm_chains m')" using hm_okD(2) [OF ok] h by (simp add: m' placed_del_entry hm_shape_def)
  moreover have "length (entries m) = Suc (length (entries m'))" using M by (metis size_add_mset size_mset)
  moreover have "hm_sz m' = of_nat (length (entries m'))"
  proof -
    have "hm_sz m = of_nat (length (entries m))" using hm_okD(2) [OF ok] by (simp add: hm_shape_def)
    moreover have "hm_sz m' = hm_sz m - 1" by (simp add: m')
    ultimately show ?thesis using \<open>length (entries m) = Suc (length (entries m'))\<close> by simp
  qed
  moreover have "cap m' = cap m" "cap_bits m' = cap_bits m" "length (hm_chains m') = length (hm_chains m)"
    by (simp_all add: m' hashmap_del_entry_def)
  ultimately have sh: "hm_shape m'" using hm_okD(2) [OF ok] same f' by (simp add: hm_shape_def)
  have Q: "mset (hm_blocks m) = mset (e_addr e # hm_blocks m')" using M same by (simp add: hm_blocks_def)
  have B: "distinct (e_addr e # hm_blocks m')" "set (hm_blocks m) = insert (e_addr e) (set (hm_blocks m'))"
    using hm_okD(4) [OF ok] mset_eq_imp_distinct_iff [OF Q] mset_eq_setD [OF Q] by simp_all
  have hw: "heap_ok w'" using hm_okD(3) [OF ok] w' by (simp add: heap_ok_def)
  have u: "hm_unique m'" using hm_okD(6) [OF ok] S same by (auto simp: hm_unique_def)
  show ok': "hm_ok m' w'" using hm_okD [OF ok] sh B w' hw u by (auto simp: hm_ok_def m')
  show "hm_lookup m' k = (if equal_fn m key k then None else hm_lookup m k)"
    using lookup_del [OF ok ok' same(1) S] f' by simp
qed

lemma grow_bits:
  assumes "hm_shape m" "unat (cap m) < 2 ^ 31"
    and n: "n = (if cap_bits m + 1 < HASHMAP_MIN_CAP_BITS then HASHMAP_MIN_CAP_BITS else cap_bits m + 1)"
  shows "unat n = (if buckets m = 0 then 2 else Suc (unat (cap_bits m)))" "2 \<le> unat n" "unat n < 64"
    "(2::nat) ^ unat n = (if cap m = 0 then 4 else 2 * unat (cap m))"
    "unat (push_bit (unat n) (1::u64)) = 2 ^ unat n"
proof -
  have b: "unat (cap_bits m) < 31 \<and> 2 \<le> unat (cap_bits m) \<and> unat (cap m) = 2 ^ unat (cap_bits m)" if "buckets m \<noteq> 0"
  proof -
    have c: "unat (cap m) = 2 ^ unat (cap_bits m)" "2 \<le> unat (cap_bits m)" using assms(1) that by (simp_all add: hm_shape_def)
    have "(2::nat) ^ unat (cap_bits m) < 2 ^ 31" using assms(2) c(1) by simp
    then have "unat (cap_bits m) < 31" by (rule power_less_imp_less_exp [rotated]) simp
    then show ?thesis using c by simp
  qed
  have s: "unat (cap_bits m + 1) = Suc (unat (cap_bits m))" if "buckets m \<noteq> 0"
    using b [OF that] by (simp add: unat_word_ariths)
  show u: "unat n = (if buckets m = 0 then 2 else Suc (unat (cap_bits m)))"
    using assms(1) b s by (cases "buckets m = 0") (simp_all add: n hm_shape_def HASHMAP_MIN_CAP_BITS_def word_less_nat_alt)
  show "2 \<le> unat n" "unat n < 64" using u b by auto
  show "(2::nat) ^ unat n = (if cap m = 0 then 4 else 2 * unat (cap m))"
    using u b assms(1) by (auto simp: hm_shape_def)
  show "unat (push_bit (unat n) (1::u64)) = 2 ^ unat n"
  proof -
    have "push_bit (unat n) (1::u64) = of_nat (2 ^ unat n)" by (simp add: push_bit_eq_mult)
    moreover have "(2::nat) ^ unat n < 2 ^ 64" using \<open>unat n < 64\<close> by (rule power_strict_increasing) simp
    ultimately show ?thesis by (simp only: unsigned_of_nat) (use \<open>unat n < 64\<close> in \<open>simp add: take_bit_nat_eq_self_iff\<close>)
  qed
qed

text \<open>Moving the entries to a larger table.\<close>

lemma move_ok:
  assumes ok: "hm_ok m w" and n: "2 \<le> unat n" "unat n < 64" and c: "unat c = 2 ^ unat n"
    and w': "heap_ok w'" "p \<noteq> 0" "p \<notin> dom (heap w)" "dom (heap w') = insert p (dom (heap w)) - {buckets m}"
    and cs: "cs = rehash (\<lambda>k. unat (hash_bits (hash_fn m k) (unat n))) (entries m) (replicate (2 ^ unat n) [])"
    and m': "m' = m\<lparr>cap := c, cap_bits := n, buckets := p, hm_chains := cs\<rparr>"
  shows "hm_ok m' w'" "mset (entries m') = mset (entries m)" "hm_lookup m' = hm_lookup m"
proof -
  let ?b = "\<lambda>k. unat (hash_bits (hash_fn m k) (unat n))"
  have "?b k < length (replicate (2 ^ unat n) ([] :: ('a, 'b) hashmap_entry list))" for k using hash_bits_less n by simp
  then have R: "length cs = 2 ^ unat n" "placed ?b cs" "mset (concat cs) = mset (entries m)"
    using rehash_effect [of ?b "replicate (2 ^ unat n) []" "entries m"] cs by (simp_all add: placed_def)
  show M: "mset (entries m') = mset (entries m)" using R(3) by (simp add: entries_def m')
  have S: "set (entries m') = set (entries m)" by (rule mset_eq_setD [OF M])
  have L: "length (entries m') = length (entries m)" by (rule mset_eq_length [OF M])
  have A: "mset (map e_addr (entries m')) = mset (map e_addr (entries m))" using M by simp
  have "hm_bucket m' = ?b" by (auto simp: hm_bucket_def m' fun_eq_iff)
  then have sh: "hm_shape m'" using hm_okD(2) [OF ok] R n c w'(2) L by (simp add: hm_shape_def m')
  have D: "distinct (map e_addr (entries m))" "buckets m \<notin> set (map e_addr (entries m))"
    "set (map e_addr (entries m)) \<subseteq> dom (heap w)"
    using hm_okD(3-5) [OF ok] hm_entries_nil [OF hm_okD(2) [OF ok]] by (auto simp: hm_blocks_def split: if_splits)
  have B: "distinct (hm_blocks m')" "set (hm_blocks m') \<subseteq> dom (heap w')"
  proof -
    have "buckets m \<noteq> p" using w'(2,3) hm_okD(5) [OF ok] by (auto simp: hm_blocks_def split: if_splits)
    moreover have "hm_blocks m' = p # map e_addr (entries m')" using w'(2) by (simp add: hm_blocks_def m')
    moreover have "set (map e_addr (entries m')) = set (map e_addr (entries m))" by (rule mset_eq_setD [OF A])
    moreover have "distinct (map e_addr (entries m'))" using mset_eq_imp_distinct_iff [OF A] D(1) by simp
    ultimately show "distinct (hm_blocks m')" "set (hm_blocks m') \<subseteq> dom (heap w')"
      using D(2,3) w'(3,4) by (simp_all del: set_map) blast+
  qed
  show ok': "hm_ok m' w'" using hm_okD [OF ok] sh B w'(1) S by (simp add: hm_ok_def m' hm_unique_def)
  show "hm_lookup m' = hm_lookup m"
  proof
    fix k show "hm_lookup m' k = hm_lookup m k"
      by (rule option_eqI) (simp add: hm_lookup_iff [OF ok'] hm_lookup_iff [OF ok] S, simp add: m')
  qed
qed

lemma free_buckets:
  assumes "hm_ok m w" "heap_ok w1" "dom (heap w1) = insert p (dom (heap w))"
  obtains w2 where "c_free (buckets m) w1 = Some w2" "heap_ok w2" "dom (heap w2) = insert p (dom (heap w)) - {buckets m}"
proof (cases "buckets m = 0")
  case True
  have "0 \<notin> dom (heap w1)" using assms(2) unfolding heap_ok_def by blast
  then show thesis using that [of w1] True assms by (simp add: c_free_def)
next
  case False
  let ?w = "w1\<lparr>heap := (heap w1)(buckets m := None)\<rparr>"
  have "buckets m \<in> dom (heap w1)" using hm_okD(5) [OF assms(1)] assms(3) False by (auto simp: hm_blocks_def)
  then have "c_free (buckets m) w1 = Some ?w" using False by (auto simp: c_free_def)
  moreover have "heap_ok ?w" using assms(2) by (simp add: heap_ok_def)
  ultimately show thesis using that assms(3) by simp
qed

lemma grow_ok:
  assumes ok: "hm_ok m w" and c: "unat (cap m) < 2 ^ 31"
  shows "\<exists>err m' w'. hashmap_grow env m w = Some (err, m', w') \<and> hm_ok m' w' \<and> hm_lookup m' = hm_lookup m \<and>
     equal_fn m' = equal_fn m \<and> length (entries m') = length (entries m) \<and>
     (err = - HM_ENOMEM \<and> m' = m \<or>
      err = 0 \<and> buckets m' \<noteq> 0 \<and> unat (cap m') = (if cap m = 0 then 4 else 2 * unat (cap m)))"
proof -
  obtain n where n: "n = (if cap_bits m + 1 < HASHMAP_MIN_CAP_BITS then HASHMAP_MIN_CAP_BITS else cap_bits m + 1)" by simp
  note bits = grow_bits [OF hm_okD(2) [OF ok] c n]
  obtain p w1 where a: "c_calloc env (2 ^ unat n * 8) w = (p, w1)" by fastforce
  note al = alloc_cases [OF hm_okD(3) [OF ok] disjI2 [OF a]]
  have grow: "hashmap_grow env m w = (if p = 0 then Some (- HM_ENOMEM, m, w1)
     else map_option (\<lambda>w. (0, m\<lparr>cap := push_bit (unat n) 1, cap_bits := n, buckets := p,
       hm_chains := rehash (\<lambda>k. unat (hash_bits (hash_fn m k) (unat n))) (entries m) (replicate (2 ^ unat n) [])\<rparr>, w))
       (c_free (buckets m) w1))"
  proof -
    have "length (hm_chains m) \<le> unat (cap m)" using hm_okD(2) [OF ok] by (auto simp: hm_shape_def split: if_splits)
    then show ?thesis using bits(3) c unfolding hashmap_grow_def Let_def by (simp add: a entries_def flip: n)
  qed
  show ?thesis
  proof (cases "p = 0")
    case True
    then have "heap w1 = heap w" using al(2) by simp
    then have "hm_ok m w1" using ok al(1) by (simp add: hm_ok_def)
    then show ?thesis using grow True by simp
  next
    case False
    then have p: "p \<notin> dom (heap w)" "dom (heap w1) = insert p (dom (heap w))" using al(2) by simp_all
    obtain w2 where f: "c_free (buckets m) w1 = Some w2" "heap_ok w2" "dom (heap w2) = insert p (dom (heap w)) - {buckets m}"
      by (rule free_buckets [OF ok al(1) p(2)])
    note mv = move_ok [OF ok bits(2,3,5) f(2) False p(1) f(3) refl refl]
    show ?thesis using grow False f(1) mv mset_eq_length [OF mv(2)] bits(4,5) by simp
  qed
qed

section \<open>A budget of operations\<close>

text \<open>
  After \<open>n\<close> operations the map has at most \<open>n\<close> entries and at most \<open>8 n / 3\<close> buckets (or the first
  four): with fewer than \<open>2\<close> to the power 29 operations no size computation overflows.
\<close>

definition hm_bound :: "nat \<Rightarrow> ('k, 'v) hashmap \<Rightarrow> bool" where
  "hm_bound n m \<longleftrightarrow> length (entries m) \<le> n \<and> (unat (cap m) \<le> 4 \<or> 3 * unat (cap m) \<le> 8 * n)"

definition hm_budget :: nat where "hm_budget = 2 ^ 29"

lemma bound_cap: "hm_bound n m \<Longrightarrow> n < hm_budget \<Longrightarrow> unat (cap m) < 2 ^ 31"
  by (auto simp: hm_bound_def hm_budget_def)

lemma bound_mono: "hm_bound n m \<Longrightarrow> hm_bound (Suc n) m"
  by (auto simp: hm_bound_def)

lemma bound_grow:
  assumes "hm_ok m w" "hm_bound n m" "n < hm_budget" "hashmap_needs_to_grow m"
    and m': "unat (cap m') = (if cap m = 0 then 4 else 2 * unat (cap m))" "length (entries m') = length (entries m)"
  shows "hm_bound (Suc n) m'"
proof (cases "cap m = 0")
  case False
  let ?l = "length (entries m)"
  have l: "?l < 2 ^ 29" using assms(2,3) by (simp add: hm_bound_def hm_budget_def)
  have "unat (hm_sz m) = ?l" using hm_okD(2) [OF assms(1)] l by (simp add: hm_shape_def unsigned_of_nat take_bit_nat_eq_self_iff)
  then have "unat ((hm_sz m + 1) * 4 div 3) = (?l + 1) * 4 div 3" using l by (simp add: unat_div unat_word_ariths)
  then have "unat (cap m) < (?l + 1) * 4 div 3" using assms(4) False by (simp add: hashmap_needs_to_grow_def word_less_nat_alt)
  then have "3 * (2 * unat (cap m)) \<le> 8 * Suc ?l" by presburger
  then show ?thesis using m' False assms(2) by (simp add: hm_bound_def)
qed (use assms in \<open>simp add: hm_bound_def\<close>)

text \<open>What an operation keeps, whatever it returns.\<close>

definition hm_inv :: "('k \<Rightarrow> 'k \<Rightarrow> bool) \<Rightarrow> nat \<Rightarrow> ('k, 'v) hashmap \<times> 'a world_scheme \<Rightarrow> bool" where
  "hm_inv eq n s \<longleftrightarrow> hm_ok (fst s) (snd s) \<and> hm_bound n (fst s) \<and> equal_fn (fst s) = eq"

lemma hm_inv_mono: "hm_inv eq n s \<Longrightarrow> hm_inv eq (Suc n) s"
  by (simp add: hm_inv_def bound_mono)

definition key_upd :: "('k \<Rightarrow> 'k \<Rightarrow> bool) \<Rightarrow> 'k \<Rightarrow> 'v option \<Rightarrow> ('k \<Rightarrow> 'v option) \<Rightarrow> 'k \<Rightarrow> 'v option" where
  "key_upd eq key v f = (\<lambda>k. if eq key k then v else f k)"

lemma room_ok:
  assumes "hm_inv eq n (m, w)" "n < hm_budget"
  shows "\<exists>err m' w'. (if hashmap_needs_to_grow m then hashmap_grow env m w else Some (0, m, w)) = Some (err, m', w') \<and>
     hm_inv eq (Suc n) (m', w') \<and> hm_lookup m' = hm_lookup m \<and> length (entries m') = length (entries m) \<and>
     (err = - HM_ENOMEM \<or> err = 0 \<and> buckets m' \<noteq> 0)"
proof (cases "hashmap_needs_to_grow m")
  case True
  have ok: "hm_ok m w" "hm_bound n m" "equal_fn m = eq" using assms(1) by (simp_all add: hm_inv_def)
  obtain err m' w' where g: "hashmap_grow env m w = Some (err, m', w')" "hm_ok m' w'" "hm_lookup m' = hm_lookup m"
     "equal_fn m' = equal_fn m" "length (entries m') = length (entries m)"
     "err = - HM_ENOMEM \<and> m' = m \<or>
      err = 0 \<and> buckets m' \<noteq> 0 \<and> unat (cap m') = (if cap m = 0 then 4 else 2 * unat (cap m))"
    using grow_ok [OF ok(1) bound_cap [OF ok(2) assms(2)], of env] by blast
  have "hm_bound (Suc n) m'"
    using g(6) bound_mono [OF ok(2)] bound_grow [OF ok(1,2) assms(2) True _ g(5)] by blast
  then show ?thesis using g True ok(3) by (simp add: hm_inv_def) blast
next
  case False
  have "hm_shape m" using assms(1) hm_okD(2) [of m w] by (simp add: hm_inv_def)
  then have "buckets m \<noteq> 0" using False by (cases "buckets m = 0") (simp_all add: hashmap_needs_to_grow_def hm_shape_def)
  then show ?thesis using False hm_inv_mono [OF assms(1)] by simp
qed

lemma insert_new_ok:
  assumes inv: "hm_inv eq n (m, w)" "n < hm_budget" and new: "hm_lookup m key = None"
  shows "\<exists>err m' w'. insert_new env m key v w = Some (err, m', w') \<and> hm_inv eq (Suc n) (m', w') \<and>
     (err = - HM_ENOMEM \<and> hm_lookup m' = hm_lookup m \<or> err = 0 \<and> hm_lookup m' = key_upd eq key (Some v) (hm_lookup m))"
proof -
  obtain e1 m1 w1 where r: "(if hashmap_needs_to_grow m then hashmap_grow env m w else Some (0, m, w)) = Some (e1, m1, w1)"
    "hm_inv eq (Suc n) (m1, w1)" "hm_lookup m1 = hm_lookup m" "length (entries m1) = length (entries m)"
    "e1 = - HM_ENOMEM \<or> e1 = 0 \<and> buckets m1 \<noteq> 0"
    using room_ok [OF inv, of env] by blast
  have ok1: "hm_ok m1 w1" "hm_bound (Suc n) m1" "equal_fn m1 = eq" using r(2) by (simp_all add: hm_inv_def)
  obtain p w2 where a: "c_malloc env 24 w1 = (p, w2)" by fastforce
  note al = alloc_cases [OF hm_okD(3) [OF ok1(1)] disjI1 [OF a]]
  show ?thesis
  proof (cases "e1 = 0 \<and> p \<noteq> 0")
    case True
    then have p: "p \<notin> dom (heap w1)" "dom (heap w2) = insert p (dom (heap w1))" and b: "buckets m1 \<noteq> 0"
      using al(2) r(5) by (auto simp: HM_ENOMEM_def)
    let ?m = "m1\<lparr>hm_chains := hashmap_add_entry (hm_chains m1) (hm_bucket m1 key) \<lparr>e_addr = p, e_key = key, e_value = v\<rparr>,
                 hm_sz := hm_sz m1 + 1\<rparr>"
    have "buckets m1 \<in> dom (heap w2)" using hm_okD(5) [OF ok1(1)] b p(2) by (auto simp: hm_blocks_def)
    then have i: "insert_new env m key v w = Some (0, ?m, w2)"
      using True a r(1) hm_bucket_less [OF hm_okD(2) [OF ok1(1)] b, of key] by (auto simp: insert_new_def)
    note add = add_ok [OF ok1(1) b _ al(1) p(2,1) refl, of key v]
    have l: "hm_lookup m1 key = None" using new r(3) by simp
    have "length (entries ?m) = Suc (length (entries m))"
      using add_entry_mset [OF hm_bucket_less [OF hm_okD(2) [OF ok1(1)] b], THEN arg_cong [of _ _ size]] r(4)
      by (simp add: entries_def)
    then have "hm_bound (Suc n) ?m" using ok1(2) inv(1) by (simp add: hm_bound_def hm_inv_def)
    then have "hm_inv eq (Suc n) (?m, w2)" using add(1) [OF l] ok1(3) by (simp add: hm_inv_def)
    moreover have "hm_lookup ?m = key_upd eq key (Some v) (hm_lookup m)"
      using add(2) [OF l] ok1(3) r(3) by (simp add: key_upd_def fun_eq_iff)
    ultimately show ?thesis using i by simp
  next
    case False
    have "hm_inv eq (Suc n) (m1, w2)" if "p = 0"
      using that al r(2) hm_okD [OF ok1(1)] by (simp add: hm_inv_def) (simp add: hm_ok_def)
    then show ?thesis using False r a by (auto simp: insert_new_def HM_ENOMEM_def)
  qed
qed

section \<open>The interface\<close>

text \<open>A client's calls, and what they return.\<close>

datatype ('k, 'v) hm_op = Op_add 'k 'v | Op_set 'k 'v | Op_update 'k 'v | Op_find 'k | Op_delete 'k
datatype ('k, 'v) hm_res = R_insert int "'v option" | R_find "'v option" | R_delete bool "'v option"

fun hm_step :: "env \<Rightarrow> ('k, 'v) hashmap \<times> 'a world_scheme \<Rightarrow> ('k, 'v) hm_op \<Rightarrow> (('k, 'v) hm_res \<times> ('k, 'v) hashmap \<times> 'a world_scheme) option" where
  "hm_step env (m, w) (Op_add k v) = map_option (\<lambda>(err, old, s). (R_insert err (map_option snd old), s)) (hashmap__add env m k v w)"
| "hm_step env (m, w) (Op_set k v) = map_option (\<lambda>(err, old, s). (R_insert err (map_option snd old), s)) (hashmap__set env m k v w)"
| "hm_step env (m, w) (Op_update k v) = map_option (\<lambda>(err, old, s). (R_insert err (map_option snd old), s)) (hashmap__update env m k v w)"
| "hm_step env (m, w) (Op_find k) = map_option (\<lambda>r. (R_find r, m, w)) (hashmap__find m k w)"
| "hm_step env (m, w) (Op_delete k) = map_option (\<lambda>(found, old, s). (R_delete found (map_option snd old), s)) (hashmap__delete m k w)"

text \<open>The abstract map: what each call may return, and the map after it.\<close>

fun map_spec :: "('k \<Rightarrow> 'k \<Rightarrow> bool) \<Rightarrow> ('k \<Rightarrow> 'v option) \<Rightarrow> ('k, 'v) hm_op \<Rightarrow> ('k, 'v) hm_res \<Rightarrow> ('k \<Rightarrow> 'v option) \<Rightarrow> bool" where
  "map_spec eq f (Op_add k v) r f' \<longleftrightarrow>
     (if f k \<noteq> None then r = R_insert (- HM_EEXIST) (f k) \<and> f' = f
      else r = R_insert 0 None \<and> f' = key_upd eq k (Some v) f \<or> r = R_insert (- HM_ENOMEM) None \<and> f' = f)"
| "map_spec eq f (Op_set k v) r f' \<longleftrightarrow>
     r = R_insert 0 (f k) \<and> f' = key_upd eq k (Some v) f \<or> f k = None \<and> r = R_insert (- HM_ENOMEM) None \<and> f' = f"
| "map_spec eq f (Op_update k v) r f' \<longleftrightarrow>
     (if f k \<noteq> None then r = R_insert 0 (f k) \<and> f' = key_upd eq k (Some v) f
      else r = R_insert (- HM_ENOENT) None \<and> f' = f)"
| "map_spec eq f (Op_find k) r f' \<longleftrightarrow> r = R_find (f k) \<and> f' = f"
| "map_spec eq f (Op_delete k) r f' \<longleftrightarrow> r = R_delete (f k \<noteq> None) (f k) \<and> f' = key_upd eq k None f"

text \<open>Runs of a partial service, and runs its specification allows.\<close>

fun run_ops :: "('s \<Rightarrow> 'o \<Rightarrow> ('r \<times> 's) option) \<Rightarrow> 's \<Rightarrow> 'o list \<Rightarrow> ('r list \<times> 's) option" where
  "run_ops step s [] = Some ([], s)"
| "run_ops step s (x # xs) = do { (r, s) \<leftarrow> step s x; (rs, s) \<leftarrow> run_ops step s xs; Some (r # rs, s) }"

inductive spec_run :: "('a \<Rightarrow> 'o \<Rightarrow> 'r \<Rightarrow> 'a \<Rightarrow> bool) \<Rightarrow> 'a \<Rightarrow> 'o list \<Rightarrow> 'r list \<Rightarrow> 'a \<Rightarrow> bool" for spec where
  spec_run_Nil: "spec_run spec f [] [] f"
| spec_run_Cons: "spec f x r f' \<Longrightarrow> spec_run spec f' xs rs f'' \<Longrightarrow> spec_run spec f (x # xs) (r # rs) f''"

inductive_cases spec_run_NilE: "spec_run spec f [] rs f'"
inductive_cases spec_run_ConsE: "spec_run spec f (x # xs) rs f'"

text \<open>
  A service that keeps its invariant, within a budget of calls, and answers every call as its
  specification says, does so for every sequence of calls.
\<close>

locale budgeted_service =
  fixes step :: "'s \<Rightarrow> 'o \<Rightarrow> ('r \<times> 's) option"
    and inv :: "nat \<Rightarrow> 's \<Rightarrow> bool"
    and look :: "'s \<Rightarrow> 'a"
    and spec :: "'a \<Rightarrow> 'o \<Rightarrow> 'r \<Rightarrow> 'a \<Rightarrow> bool"
    and limit :: nat
  assumes step_ok: "inv n s \<Longrightarrow> n < limit \<Longrightarrow> \<exists>r s'. step s x = Some (r, s') \<and> inv (Suc n) s' \<and> spec (look s) x r (look s')"
begin

lemma run_ok:
  "inv n s \<Longrightarrow> n + length xs \<le> limit \<Longrightarrow>
     \<exists>rs s'. run_ops step s xs = Some (rs, s') \<and> inv (n + length xs) s' \<and> spec_run spec (look s) xs rs (look s')"
proof (induction xs arbitrary: n s)
  case Nil
  then show ?case by (auto intro: spec_run_Nil)
next
  case (Cons x xs)
  obtain r s1 where 1: "step s x = Some (r, s1)" "inv (Suc n) s1" "spec (look s) x r (look s1)"
    using step_ok [OF Cons.prems(1), of x] Cons.prems(2) by auto
  obtain rs s2 where 2: "run_ops step s1 xs = Some (rs, s2)" "inv (Suc n + length xs) s2" "spec_run spec (look s1) xs rs (look s2)"
    using Cons.IH [OF 1(2)] Cons.prems(2) by auto
  have "spec_run spec (look s) (x # xs) (r # rs) (look s2)" by (rule spec_run_Cons [where f' = "look s1", OF 1(3) 2(3)])
  then show ?case using 1(1) 2(1,2) by simp
qed

end

lemma found_value:
  assumes "hm_ok m w" "found_at m k i"
  shows "hm_lookup m k = Some (e_value (hm_chains m ! hm_bucket m k ! i))"
  using assms hm_lookup_Some [OF hm_okD(6,1) [OF assms(1)]] by (simp add: found_at_def)

text \<open>Insertion, for the three strategies of a map.\<close>

lemma insert_ok:
  assumes inv: "hm_inv eq n (m, w)" "n < hm_budget" and s: "s \<noteq> HASHMAP_APPEND"
  shows "\<exists>err old m' w'. hashmap__insert env m k v s w = Some (err, old, m', w') \<and> hm_inv eq (Suc n) (m', w') \<and>
     map_option snd old = hm_lookup m k \<and>
     (if hm_lookup m k \<noteq> None
      then if s = HASHMAP_ADD then err = - HM_EEXIST \<and> hm_lookup m' = hm_lookup m
           else err = 0 \<and> hm_lookup m' = key_upd eq k (Some v) (hm_lookup m)
      else if s = HASHMAP_UPDATE then err = - HM_ENOENT \<and> hm_lookup m' = hm_lookup m
           else err = - HM_ENOMEM \<and> hm_lookup m' = hm_lookup m \<or> err = 0 \<and> hm_lookup m' = key_upd eq k (Some v) (hm_lookup m))"
proof -
  have ok: "hm_ok m w" "equal_fn m = eq" using inv(1) by (simp_all add: hm_inv_def)
  consider (new) "hashmap_find_entry m k (hm_bucket m k) w = Some None" "hm_lookup m k = None"
    | (found) i where "hashmap_find_entry m k (hm_bucket m k) w = Some (Some i)" "found_at m k i"
    using find_entry_cases [OF ok(1), of k] by (elim disjE exE conjE) simp_all
  then show ?thesis
  proof cases
    case new
    then show ?thesis using insert_new_ok [OF inv new(2), of env v] hm_inv_mono [OF inv(1)] s
      by (cases "s = HASHMAP_UPDATE") (auto simp: hashmap__insert_def)
  next
    case found
    let ?m = "m\<lparr>hm_chains := set_entry (hm_chains m) (hm_bucket m k) i k v\<rparr>"
    note rep = replace_ok [OF ok(1) found(2) refl, of v] and val = found_value [OF ok(1) found(2)]
    have "length (entries ?m) = length (entries m)"
      using set_entry_mset [of "hm_bucket m k" "hm_chains m" i k v, THEN arg_cong [of _ _ size]] found(2)
      by (simp add: entries_def found_at_def)
    then have "hm_inv eq (Suc n) (?m, w)" using rep(1) inv(1) by (auto simp: hm_inv_def hm_bound_def)
    moreover have "hm_lookup ?m = key_upd eq k (Some v) (hm_lookup m)" using rep(2) ok(2) by (simp add: key_upd_def fun_eq_iff)
    ultimately show ?thesis using found s val hm_inv_mono [OF inv(1)] by (cases s) (auto simp: hashmap__insert_def Let_def)
  qed
qed

lemma delete_ok:
  assumes inv: "hm_inv eq n (m, w)"
  shows "\<exists>old m' w'. hashmap__delete m k w = Some (hm_lookup m k \<noteq> None, old, m', w') \<and> hm_inv eq (Suc n) (m', w') \<and>
     map_option snd old = hm_lookup m k \<and> hm_lookup m' = key_upd eq k None (hm_lookup m)"
proof -
  have ok: "hm_ok m w" "equal_fn m = eq" using inv by (simp_all add: hm_inv_def)
  consider (new) "hashmap_find_entry m k (hm_bucket m k) w = Some None" "hm_lookup m k = None"
    | (found) i where "hashmap_find_entry m k (hm_bucket m k) w = Some (Some i)" "found_at m k i"
    using find_entry_cases [OF ok(1), of k] by (elim disjE exE conjE) simp_all
  then show ?thesis
  proof cases
    case new
    have "hm_lookup m k' = None" if "eq k k'" for k'
      using new(2) that key_eq(2,3) [OF ok(1)] unfolding hm_lookup_None ok(2) by blast
    then have "key_upd eq k None (hm_lookup m) = hm_lookup m" by (simp add: key_upd_def fun_eq_iff)
    then show ?thesis using new hm_inv_mono [OF inv] by (simp add: hashmap__delete_def)
  next
    case found
    let ?e = "hm_chains m ! hm_bucket m k ! i"
    let ?w = "w\<lparr>heap := (heap w)(e_addr ?e := None)\<rparr>"
    let ?m = "m\<lparr>hm_chains := hashmap_del_entry (hm_chains m) (hm_bucket m k) i, hm_sz := hm_sz m - 1\<rparr>"
    have "e_addr ?e \<in> dom (heap w)" using hm_okD(5) [OF ok(1)] found(2) by (auto simp: found_at_def hm_blocks_def)
    then have "c_free (e_addr ?e) w = Some ?w" using hm_okD(3) [OF ok(1)] by (auto simp: c_free_def heap_ok_def)
    then have d: "hashmap__delete m k w = Some (True, Some (e_key ?e, e_value ?e), ?m, ?w)"
      using found(1) by (simp add: hashmap__delete_def Let_def)
    note del = del_ok [OF ok(1) found(2) refl _ _ refl, where w' = ?w, simplified]
    have "length (entries m) = Suc (length (entries ?m))"
      using del_entry_mset [of "hm_bucket m k" "hm_chains m" i, THEN arg_cong [of _ _ size]] found(2)
      by (simp add: entries_def found_at_def)
    then have "hm_inv eq (Suc n) (?m, ?w)" using del(1) inv by (auto simp: hm_inv_def hm_bound_def)
    moreover have "hm_lookup ?m = key_upd eq k None (hm_lookup m)" using del(2) ok(2) by (simp add: key_upd_def fun_eq_iff)
    ultimately show ?thesis using d found_value [OF ok(1) found(2)] by simp
  qed
qed

text \<open>The hash map provides the interface.\<close>

lemma hm_step_ok:
  assumes "hm_inv eq n s" "n < hm_budget"
  shows "\<exists>r s'. hm_step env s x = Some (r, s') \<and> hm_inv eq (Suc n) s' \<and> map_spec eq (hm_lookup (fst s)) x r (hm_lookup (fst s'))"
proof (cases s)
  case (Pair m w)
  note inv = assms(1) [unfolded Pair]
  note ins = insert_ok [OF inv assms(2)]
  show ?thesis unfolding Pair
  proof (cases x, goal_cases)
    case (1 k v) then show ?case using ins [of HASHMAP_ADD env k v] by (cases "hm_lookup m k") (auto simp: hashmap__add_def)
  next
    case (2 k v) then show ?case using ins [of HASHMAP_SET env k v] by (cases "hm_lookup m k") (auto simp: hashmap__set_def)
  next
    case (3 k v) then show ?case using ins [of HASHMAP_UPDATE env k v] by (cases "hm_lookup m k") (auto simp: hashmap__update_def)
  next
    case (4 k) then show ?case using inv find_correct_aux [of m w k] hm_inv_mono [OF inv] by (auto simp: hm_inv_def)
  next
    case (5 k) then show ?case using delete_ok [OF inv, of k] by auto
  qed
qed

interpretation hm: budgeted_service "hm_step env" "hm_inv eq" "\<lambda>s. hm_lookup (fst s)" "map_spec eq" hm_budget
  for env eq
  by unfold_locales (rule hm_step_ok)

lemma init_inv: "key_laws hf eq \<Longrightarrow> heap_ok w \<Longrightarrow> hm_inv eq 0 (hashmap__init hf eq, w)"
  by (simp add: hm_inv_def hm_ok_def hm_shape_def hm_bound_def hm_blocks_def hm_unique_def entries_def placed_def hashmap__init_def)

lemma init_lookup: "hm_lookup (hashmap__init hf eq) = Map.empty"
  by (simp add: hm_lookup_def entries_def hashmap__init_def fun_eq_iff)


lemma key_laws_eq: "key_laws hf (=)" by (simp add: key_laws_def)

definition small_env :: env where
  "small_env = good_env\<lparr>answer := (\<lambda>t c. good_reply 1), ring_addrs := (\<lambda>n. []), ring_descs := (\<lambda>n. [])\<rparr>"


lemma for_each_entries:
  assumes "hm_ok m w" shows "hashmap__for_each_entry m = entries m"
proof -
  have "length (hm_chains m) \<le> unat (cap m)" using hm_okD(2) [OF assms] by (cases "buckets m = 0") (simp_all add: hm_shape_def)
  then show ?thesis by (simp add: hashmap__for_each_entry_def entries_def)
qed

text \<open>
  C13. After any such sequence of calls \<open>hashmap__for_each_entry\<close> visits every binding of the map
  exactly once: an entry per key that is bound, with its value, no two with equal keys, and as many
  as \<open>hashmap__size\<close> says.
\<close>

theorem iteration_visits_map:
  assumes "key_laws hf eq" "heap_ok w" "length ops \<le> 2 ^ 29"
    and "run_ops (hm_step env) (hashmap__init hf eq, w) ops = Some (rs, m, w')"
  shows "(\<forall>k v. hm_lookup m k = Some v \<longleftrightarrow> (\<exists>e \<in> set (hashmap__for_each_entry m). eq (e_key e) k \<and> e_value e = v)) \<and>
     distinct (hashmap__for_each_entry m) \<and>
     (\<forall>e e'. {e, e'} \<subseteq> set (hashmap__for_each_entry m) \<longrightarrow> eq (e_key e) (e_key e') \<longrightarrow> e = e') \<and>
     unat (hashmap__size m) = length (hashmap__for_each_entry m)"
proof (intro conjI allI)
  have inv: "hm_inv eq (length ops) (m, w')"
    using hm.run_ok [OF init_inv [OF assms(1,2)], of ops env] assms(3,4) by (simp add: hm_budget_def)
  then have ok: "hm_ok m w'" "equal_fn m = eq" and b: "length (entries m) \<le> length ops" by (simp_all add: hm_inv_def hm_bound_def)
  note E = for_each_entries [OF ok(1)]
  show "hm_lookup m k = Some v \<longleftrightarrow> (\<exists>e \<in> set (hashmap__for_each_entry m). eq (e_key e) k \<and> e_value e = v)" for k v
    unfolding E hm_lookup_iff [OF ok(1)] ok(2) ..
  show "distinct (hashmap__for_each_entry m)" unfolding E by (rule distinct_entries [OF ok(1)])
  show "{e, e'} \<subseteq> set (hashmap__for_each_entry m) \<longrightarrow> eq (e_key e) (e_key e') \<longrightarrow> e = e'" for e e'
    using hm_okD(6) [OF ok(1)] unfolding E hm_unique_def ok(2) by blast
  have "length (entries m) < 2 ^ 64" using b assms(3) by simp
  then show "unat (hashmap__size m) = length (hashmap__for_each_entry m)"
    using hm_okD(2) [OF ok(1)] unfolding E by (simp add: hm_shape_def hashmap__size_def unsigned_of_nat take_bit_nat_eq_self)
qed

theorem iteration_visits_map_witness:
  "\<exists>rs m w'. run_ops (hm_step small_env) (hashmap__init (\<lambda>k. k) (=), init_world) [Op_add (1::u64) (10::nat), Op_find 1] = Some (rs, m, w') \<and>
     (\<forall>k v. hm_lookup m k = Some v \<longleftrightarrow> (\<exists>e \<in> set (hashmap__for_each_entry m). e_key e = k \<and> e_value e = v)) \<and>
     unat (hashmap__size m) = length (hashmap__for_each_entry m)"
proof -
  let ?ops = "[Op_add (1::u64) (10::nat), Op_find 1]"
  have w: "heap_ok init_world" by (simp add: init_world_def heap_ok_def)
  obtain rs m w' where r: "run_ops (hm_step small_env) (hashmap__init (\<lambda>k. k) (=), init_world) ?ops = Some (rs, m, w')"
    using hm.run_ok [OF init_inv [OF key_laws_eq w], of ?ops small_env "\<lambda>k. k"] by (auto simp: hm_budget_def)
  show ?thesis using r iteration_visits_map [OF key_laws_eq w _ r] by simp
qed

text \<open>
  The documentation of \<open>HASHMAP_APPEND\<close> says that \<open>hashmap__find\<close> returns the last insertion, the
  first of its chain. Growing reverses the order of the entries of a bucket.
\<close>

lemma rehash_reverses:
  assumes "\<And>k. b k < length cs"
  shows "rehash b es cs ! h = rev (filter (\<lambda>e. b (e_key e) = h) es) @ cs ! h"
  using assms
proof (induction es arbitrary: cs)
  case (Cons e es)
  have "\<And>k. b k < length (hashmap_add_entry cs (b (e_key e)) e)" using Cons.prems by (simp add: hashmap_add_entry_def)
  from Cons.IH [OF this] Cons.prems [of "e_key e"] show ?case by (simp add: hashmap_add_entry_def nth_list_update)
qed simp

text \<open>\<open>hashmap__clear\<close> keeps the pointer to the freed bucket array: the next call on the map reads it.\<close>

lemma clear_leaves_dangling:
  assumes "hm_ok m w" "buckets m \<noteq> 0"
  shows "\<exists>m' w'. hashmap__clear m w = Some (m', w') \<and> hashmap__find m' k w' = None \<and> hashmap__clear m' w' = None \<and>
     set (map e_addr (entries m)) \<subseteq> dom (heap w')"
proof -
  have "buckets m \<in> dom (heap w)" "buckets m \<notin> set (map e_addr (entries m))" "set (map e_addr (entries m)) \<subseteq> dom (heap w)"
    using hm_okD(4,5) [OF assms(1)] assms(2) by (auto simp: hm_blocks_def)
  moreover from this have "set (map e_addr (entries m)) \<subseteq> dom ((heap w)(buckets m := None))" by (simp del: set_map) blast
  ultimately show ?thesis using assms(2)
    by (auto simp: hashmap__clear_def c_free_def hashmap__find_def hashmap_find_entry_def simp del: set_map)
qed

end
