(* ===== verification/Nlattr.thy ===== *)
theory Nlattr
  imports Prelude
begin

unbundle bit_operations_syntax

text \<open>
  Netlink attributes, \<^verbatim>\<open>lib/libbpf/src/nlattr.c\<close> and \<^verbatim>\<open>nlattr.h\<close>: a stream of attributes, each a length,
  a type and a payload padded to four bytes, is indexed by type and validated against a policy. A
  pointer to an attribute is its offset in the buffer that holds the stream; reading outside the
  buffer is undefined, \<open>None\<close>.
\<close>

section \<open>Words in a buffer\<close>

definition rd16 :: "byte list \<Rightarrow> nat \<Rightarrow> u16 option" where
  "rd16 b p = (if p + 2 \<le> length b then Some (get16 (b ! p) (b ! (p + 1))) else None)"

definition rd32 :: "byte list \<Rightarrow> nat \<Rightarrow> u32 option" where
  "rd32 b p = do { lo \<leftarrow> rd16 b p; hi \<leftarrow> rd16 b (p + 2); Some (ucast lo + 65536 * ucast hi) }"

definition rd8 :: "byte list \<Rightarrow> nat \<Rightarrow> byte option" where
  "rd8 b p = (if p < length b then Some (b ! p) else None)"

definition le32 :: "u32 \<Rightarrow> byte list" where
  "le32 x = le16 (ucast x) @ le16 (ucast (drop_bit 16 x))"

text \<open>Two's complement: the bytes of an \<open>int\<close>, and the \<open>int\<close> a 32-bit word stands for.\<close>

definition int32 :: "u32 \<Rightarrow> int" where "int32 x = sint x"

section \<open>Attributes\<close>

text \<open>\<open>NLA_ALIGN\<close>, \<open>NLA_HDRLEN\<close> and \<open>NLA_TYPE_MASK\<close> of \<^verbatim>\<open>linux/netlink.h\<close>.\<close>

definition NLA_ALIGN :: "nat \<Rightarrow> nat" where "NLA_ALIGN n = (n + 3) div 4 * 4"
definition NLA_HDRLEN :: nat where "NLA_HDRLEN = 4"
definition NLA_TYPE_MASK :: u16 where "NLA_TYPE_MASK = 0x3FFF"

definition LIBBPF_NLA_UNSPEC :: nat where "LIBBPF_NLA_UNSPEC = 0"
definition LIBBPF_NLA_U32 :: nat where "LIBBPF_NLA_U32 = 3"
definition LIBBPF_NLA_STRING :: nat where "LIBBPF_NLA_STRING = 5"
definition LIBBPF_NLA_TYPE_MAX :: nat where "LIBBPF_NLA_TYPE_MAX = 8"

definition nla_attr_minlen :: "nat list" where
  "nla_attr_minlen = [0, 1, 2, 4, 8, 1, 0, 0, 0]"

record libbpf_nla_policy =
  np_type :: u16
  np_minlen :: u16
  np_maxlen :: u16

definition nla_len :: "byte list \<Rightarrow> nat \<Rightarrow> nat option" where
  "nla_len b p = map_option unat (rd16 b p)"

definition libbpf_nla_data :: "nat \<Rightarrow> nat" where
  "libbpf_nla_data p = p + NLA_HDRLEN"

definition libbpf_nla_len :: "byte list \<Rightarrow> nat \<Rightarrow> int option" where
  "libbpf_nla_len b p = map_option (\<lambda>l. int l - int NLA_HDRLEN) (nla_len b p)"

definition libbpf_nla_getattr_u8 :: "byte list \<Rightarrow> nat \<Rightarrow> byte option" where
  "libbpf_nla_getattr_u8 b p = rd8 b (libbpf_nla_data p)"

definition libbpf_nla_getattr_u32 :: "byte list \<Rightarrow> nat \<Rightarrow> u32 option" where
  "libbpf_nla_getattr_u32 b p = rd32 b (libbpf_nla_data p)"

text \<open>The position and the bytes that remain.\<close>

definition nla_next :: "byte list \<Rightarrow> nat \<Rightarrow> int \<Rightarrow> (nat \<times> int) option" where
  "nla_next b p remaining = do {
     l \<leftarrow> nla_len b p;
     let totlen = NLA_ALIGN l;
     Some (p + totlen, remaining - int totlen)
   }"

text \<open>
  \<open>remaining >= sizeof(*nla)\<close> compares an \<open>int\<close> with a \<open>size_t\<close>: a negative number of remaining
  bytes is converted to a huge unsigned one and passes the test.
\<close>

definition nla_ok :: "byte list \<Rightarrow> nat \<Rightarrow> int \<Rightarrow> bool option" where
  "nla_ok b p remaining =
     (if 0 \<le> remaining \<and> remaining < 4 then Some False
      else do { l \<leftarrow> nla_len b p; Some (4 \<le> l \<and> int l \<le> remaining) })"

definition nla_type :: "byte list \<Rightarrow> nat \<Rightarrow> nat option" where
  "nla_type b p = map_option (\<lambda>t. unat (t AND NLA_TYPE_MASK)) (rd16 b (p + 2))"

text \<open>\<open>libbpf_nla_len(nla) < minlen\<close> is an unsigned comparison, the one with \<open>maxlen\<close> a signed one.\<close>

definition validate_nla :: "byte list \<Rightarrow> nat \<Rightarrow> int \<Rightarrow> libbpf_nla_policy list \<Rightarrow> int option" where
  "validate_nla b p maxtype policy = do {
     type \<leftarrow> nla_type b p;
     if int type > maxtype then Some 0
     else if length policy \<le> type then None
     else let pt = policy ! type
     in if unat (np_type pt) > LIBBPF_NLA_TYPE_MAX then Some 0
     else do {
       let minlen = (if np_minlen pt \<noteq> 0 then unat (np_minlen pt)
                     else if unat (np_type pt) \<noteq> LIBBPF_NLA_UNSPEC then nla_attr_minlen ! unat (np_type pt) else 0);
       len \<leftarrow> libbpf_nla_len b p;
       if uint (word_of_int len :: u32) < int minlen then Some (-1)
       else if np_maxlen pt \<noteq> 0 \<and> len > int (unat (np_maxlen pt)) then Some (-1)
       else if unat (np_type pt) = LIBBPF_NLA_STRING
       then do {
         c \<leftarrow> (let i = int (libbpf_nla_data p) + len - 1 in if i < 0 then None else rd8 b (nat i));
         Some (if c \<noteq> 0 then -1 else 0)
       }
       else Some 0
     }
   }"

text \<open>
  The loop of \<open>libbpf_nla_parse\<close>. The policy \<open>None\<close> is \<open>NULL\<close>; an entry \<open>None\<close> of the index is a null
  pointer. A type beyond \<open>maxtype\<close> is skipped, a type seen again replaces the earlier one.
\<close>

function (sequential) parse_loop ::
    "byte list \<Rightarrow> nat option list \<Rightarrow> int \<Rightarrow> nat \<Rightarrow> int \<Rightarrow> libbpf_nla_policy list option \<Rightarrow> (int \<times> nat option list) option" where
  "parse_loop b tb maxtype p rem policy =
     (case nla_ok b p rem of
        None \<Rightarrow> None
      | Some False \<Rightarrow> Some (0, tb)
      | Some True \<Rightarrow>
         (case (nla_type b p, nla_next b p rem) of
            (Some type, Some (p', rem')) \<Rightarrow>
              if int type > maxtype then parse_loop b tb maxtype p' rem' policy
              else (case (case policy of None \<Rightarrow> Some 0 | Some pol \<Rightarrow> validate_nla b p maxtype pol) of
                      None \<Rightarrow> None
                    | Some err \<Rightarrow>
                        if err < 0 then Some (err, tb)
                        else if length tb \<le> type then None
                        else parse_loop b (tb[type := Some p]) maxtype p' rem' policy)
          | _ \<Rightarrow> None))"
  by pat_completeness auto

lemma nla_ok_True:
  "nla_ok b p rem = Some True \<longleftrightarrow> (\<exists>l. nla_len b p = Some l \<and> 4 \<le> l \<and> int l \<le> rem)"
  by (auto simp: nla_ok_def split: bind_splits)

lemma nla_next_less:
  "nla_ok b p rem = Some True \<Longrightarrow> nla_next b p rem = Some (p', rem') \<Longrightarrow> nat rem' < nat rem"
  by (auto simp: nla_ok_True nla_next_def NLA_ALIGN_def)

termination parse_loop
  by (relation "measure (\<lambda>(b, tb, maxtype, p, rem, policy). nat rem)") (auto simp del: nat_less_iff zless_nat_conj dest: nla_next_less [OF _ sym])

declare parse_loop.simps [simp del]

definition libbpf_nla_parse ::
    "byte list \<Rightarrow> int \<Rightarrow> nat \<Rightarrow> int \<Rightarrow> libbpf_nla_policy list option \<Rightarrow> (int \<times> nat option list) option" where
  "libbpf_nla_parse b maxtype head len policy = parse_loop b (replicate (nat (maxtype + 1)) None) maxtype head len policy"

definition libbpf_nla_parse_nested ::
    "byte list \<Rightarrow> int \<Rightarrow> nat \<Rightarrow> libbpf_nla_policy list option \<Rightarrow> (int \<times> nat option list) option" where
  "libbpf_nla_parse_nested b maxtype p policy = do {
     len \<leftarrow> libbpf_nla_len b p;
     libbpf_nla_parse b maxtype (libbpf_nla_data p) len policy
   }"

section \<open>Extended error messages\<close>

definition NLM_F_ACK_TLVS :: u16 where "NLM_F_ACK_TLVS = 0x200"
definition NLM_F_CAPPED :: u16 where "NLM_F_CAPPED = 0x100"
definition NLMSGERR_ATTR_MSG :: nat where "NLMSGERR_ATTR_MSG = 1"
definition NLMSGERR_ATTR_MAX :: nat where "NLMSGERR_ATTR_MAX = 3"
definition NLMSG_HDRLEN :: nat where "NLMSG_HDRLEN = 16"

definition extack_policy :: "libbpf_nla_policy list" where
  "extack_policy =
     (let none = \<lparr>np_type = 0, np_minlen = 0, np_maxlen = 0\<rparr>
      in [none, none\<lparr>np_type := of_nat LIBBPF_NLA_STRING\<rparr>, none\<lparr>np_type := of_nat LIBBPF_NLA_U32\<rparr>, none])"

definition nlmsg_len :: "byte list \<Rightarrow> nat \<Rightarrow> int option" where
  "nlmsg_len b nlh = map_option (\<lambda>l. int32 (l - of_nat NLMSG_HDRLEN)) (rd32 b nlh)"

text \<open>
  The result is the offset of the text that is printed, if there is one. The sum \<open>hlen\<close> is one of
  \<open>int\<close>s. The length of the attribute stream is the length of the message less \<open>hlen\<close>, although the
  stream starts \<open>hlen\<close> bytes behind the header.
\<close>

definition libbpf_nla_dump_errormsg :: "byte list \<Rightarrow> nat \<Rightarrow> nat option option" where
  "libbpf_nla_dump_errormsg b nlh = do {
     flags \<leftarrow> rd16 b (nlh + 6);
     if flags AND NLM_F_ACK_TLVS = 0 then Some None
     else do {
       let err = nlh + NLMSG_HDRLEN;
       hlen \<leftarrow> (if flags AND NLM_F_CAPPED = 0 then map_option ((+) 20) (nlmsg_len b (err + 4)) else Some 20);
       _ \<leftarrow> (if hlen < 2 ^ 31 then Some () else None);
       total \<leftarrow> rd32 b nlh;
       let attr = int err + hlen;
       let alen = int32 (total - word_of_int hlen);
       (ret, tb) \<leftarrow> (if attr < 0 then None else libbpf_nla_parse b (int NLMSGERR_ATTR_MAX) (nat attr) alen (Some extack_policy));
       Some (if ret \<noteq> 0 then None else map_option libbpf_nla_data (tb ! NLMSGERR_ATTR_MSG))
     }
   }"

section \<open>What the index holds\<close>

text \<open>An attribute of a type that lies inside a stream and passed the policy.\<close>

definition attr_at :: "byte list \<Rightarrow> nat \<Rightarrow> nat \<Rightarrow> nat \<Rightarrow> int \<Rightarrow> bool" where
  "attr_at b type p lo hi \<longleftrightarrow> nla_type b p = Some type \<and> lo \<le> p \<and>
     (\<exists>l. nla_len b p = Some l \<and> 4 \<le> l \<and> int p + int l \<le> hi)"

definition passes :: "byte list \<Rightarrow> int \<Rightarrow> libbpf_nla_policy list option \<Rightarrow> nat \<Rightarrow> bool" where
  "passes b maxtype policy p \<longleftrightarrow> (\<forall>pol. policy = Some pol \<longrightarrow> validate_nla b p maxtype pol = Some 0)"

lemma validate_values:
  assumes "validate_nla b p maxtype pol = Some err" shows "err = 0 \<or> err = -1"
  using assms by (auto simp: validate_nla_def Let_def split: bind_splits if_splits)

definition index_ok :: "byte list \<Rightarrow> nat option list \<Rightarrow> int \<Rightarrow> libbpf_nla_policy list option \<Rightarrow> nat \<Rightarrow> int \<Rightarrow> bool" where
  "index_ok b tb maxtype policy lo hi \<longleftrightarrow>
     (\<forall>t p. t < length tb \<longrightarrow> tb ! t = Some p \<longrightarrow> attr_at b t p lo hi \<and> passes b maxtype policy p)"

lemma index_okI:
  "(\<And>t p. t < length tb \<Longrightarrow> tb ! t = Some p \<Longrightarrow> attr_at b t p lo hi \<and> passes b maxtype policy p) \<Longrightarrow>
     index_ok b tb maxtype policy lo hi"
  by (simp add: index_ok_def)

lemma index_okD:
  "index_ok b tb maxtype policy lo hi \<Longrightarrow> t < length tb \<Longrightarrow> tb ! t = Some p \<Longrightarrow>
     attr_at b t p lo hi \<and> passes b maxtype policy p"
  by (simp add: index_ok_def)

lemma index_ok_update:
  assumes "index_ok b tb maxtype policy lo hi" "attr_at b t p lo hi" "passes b maxtype policy p"
  shows "index_ok b (tb[t := Some p]) maxtype policy lo hi"
proof (rule index_okI)
  fix u q assume a: "u < length (tb[t := Some p])" "tb[t := Some p] ! u = Some q"
  show "attr_at b u q lo hi \<and> passes b maxtype policy q"
  proof (cases "u = t")
    case True then show ?thesis using a assms(2,3) by simp
  next
    case False then show ?thesis using a index_okD [OF assms(1), of u q] by simp
  qed
qed

lemma next_hi: "nla_next b p rem = Some (p', rem') \<Longrightarrow> int p' + rem' = int p + rem \<and> p \<le> p'"
  by (auto simp: nla_next_def Let_def split: bind_splits)

text \<open>One turn of the loop.\<close>

lemma parse_loop_cases:
  assumes "parse_loop b tb maxtype p rem policy = Some (err, tb')"
  obtains (stop) "err = 0" "tb' = tb"
    | (skip) type p' rem' where "nla_ok b p rem = Some True" "nla_next b p rem = Some (p', rem')" "nla_type b p = Some type"
        "maxtype < int type" "parse_loop b tb maxtype p' rem' policy = Some (err, tb')"
    | (bad) pol where "policy = Some pol" "validate_nla b p maxtype pol = Some err" "err < 0" "tb' = tb"
    | (store) type p' rem' where "nla_ok b p rem = Some True" "nla_next b p rem = Some (p', rem')" "nla_type b p = Some type"
        "passes b maxtype policy p" "type < length tb" "parse_loop b (tb[type := Some p]) maxtype p' rem' policy = Some (err, tb')"
proof -
  note body = assms [unfolded parse_loop.simps [of b tb maxtype p rem policy]]
  show thesis
  proof (cases "nla_ok b p rem")
    case (Some ok)
    show thesis
    proof (cases ok)
      case True
      then have okT: "nla_ok b p rem = Some True" using Some by simp
      obtain type p' rem' where t: "nla_type b p = Some type" "nla_next b p rem = Some (p', rem')"
        using body okT by (auto split: option.splits)
      show thesis
      proof (cases "maxtype < int type")
        case True then show thesis using body okT t skip by simp
      next
        case False
        obtain e where e: "(case policy of None \<Rightarrow> Some 0 | Some pol \<Rightarrow> validate_nla b p maxtype pol) = Some e"
          using body okT t False by (auto split: option.splits)
        show thesis
        proof (cases "e < 0")
          case True
          then have "err = e" "tb' = tb" using body okT t False e by simp_all
          then show thesis using True e bad by (cases policy) auto
        next
          case F2: False
          have "passes b maxtype policy p" using e F2 validate_values [of b p maxtype] by (force simp: passes_def)
          moreover have "type < length tb" "parse_loop b (tb[type := Some p]) maxtype p' rem' policy = Some (err, tb')"
            using body okT t False e F2 by (simp_all split: if_splits)
          ultimately show thesis using okT t store by simp
        qed
      qed
    qed (use body Some stop in simp)
  qed (use body in simp)
qed

lemma parse_loop_index:
  "parse_loop b tb maxtype p rem policy = Some (err, tb') \<Longrightarrow> index_ok b tb maxtype policy lo hi \<Longrightarrow>
     int p + rem = hi \<Longrightarrow> lo \<le> p \<Longrightarrow> length tb' = length tb \<and> index_ok b tb' maxtype policy lo hi \<and> (err = 0 \<or> err = -1)"
proof (induction "nat rem" arbitrary: tb p rem rule: less_induct)
  case less
  from less.prems(1) show ?case
  proof (cases rule: parse_loop_cases)
    case stop then show ?thesis using less.prems by simp
  next
    case (skip type p' rem')
    then show ?thesis using less.hyps [OF nla_next_less [OF skip(1,2)] skip(5)] less.prems next_hi [OF skip(2)] by simp
  next
    case (bad pol) then show ?thesis using less.prems validate_values by blast
  next
    case (store type p' rem')
    have "attr_at b type p lo hi" using store(1,3) less.prems(3,4) by (auto simp: attr_at_def nla_ok_True)
    then have "index_ok b (tb[type := Some p]) maxtype policy lo hi" by (rule index_ok_update [OF less.prems(2) _ store(4)])
    then show ?thesis using less.hyps [OF nla_next_less [OF store(1,2)] store(6)] less.prems next_hi [OF store(2)] by simp
  qed
qed

lemma parse_index:
  assumes "libbpf_nla_parse b maxtype head len policy = Some (err, tb)"
  shows "(err = 0 \<or> err = -1) \<and> length tb = nat (maxtype + 1) \<and>
     (\<forall>t p. t < length tb \<longrightarrow> tb ! t = Some p \<longrightarrow>
        nla_type b p = Some t \<and> head \<le> p \<and> (\<exists>l. nla_len b p = Some l \<and> 4 \<le> l \<and> int p + int l \<le> int head + len) \<and>
        (\<forall>pol. policy = Some pol \<longrightarrow> validate_nla b p maxtype pol = Some 0))"
proof -
  have "index_ok b (replicate (nat (maxtype + 1)) None) maxtype policy head (int head + len)" by (simp add: index_ok_def)
  note r = parse_loop_index [OF assms [unfolded libbpf_nla_parse_def] this refl order_refl]
  then show ?thesis unfolding index_ok_def attr_at_def passes_def by simp
qed

text \<open>
  C19. Whatever the stream holds, when \<open>libbpf_nla_parse\<close> returns it returns 0 or -1, and the index
  it leaves has \<open>maxtype + 1\<close> slots; every pointer in it is to an attribute of the type of its slot
  that lies, header and payload, inside the stream and satisfies the policy.
\<close>

theorem nla_parse_index:
  assumes "libbpf_nla_parse b maxtype head len policy = Some (err, tb)"
  shows "(err = 0 \<or> err = -1) \<and> length tb = nat (maxtype + 1) \<and>
     (\<forall>t p. t < length tb \<longrightarrow> tb ! t = Some p \<longrightarrow>
        nla_type b p = Some t \<and> head \<le> p \<and> (\<exists>l. nla_len b p = Some l \<and> 4 \<le> l \<and> int p + int l \<le> int head + len) \<and>
        (\<forall>pol. policy = Some pol \<longrightarrow> validate_nla b p maxtype pol = Some 0))"
  by (rule parse_index [OF assms])

definition two_attrs :: "byte list" where
  "two_attrs = [8, 0, 1, 0, 7, 0, 0, 0, 5, 0, 2, 0, 9, 0, 0, 0]"

lemma two_attrs_parse: "libbpf_nla_parse two_attrs 2 0 16 None = Some (0, [None, Some 0, Some 8])"
  by code_simp

theorem nla_parse_index_witness:
  "nla_type two_attrs 8 = Some 2 \<and> (\<exists>l. nla_len two_attrs 8 = Some l \<and> 4 \<le> l \<and> 8 + int l \<le> 16)"
  using nla_parse_index [OF two_attrs_parse] by (force simp: numeral_2_eq_2)

section \<open>Where it is defined\<close>

lemma rd16_Some: "p + 2 \<le> length b \<Longrightarrow> \<exists>x. rd16 b p = Some x" by (simp add: rd16_def)

lemma validate_defined:
  assumes "nla_len b p = Some l" "4 \<le> l" "p + l \<le> length b" "maxtype < int (length pol)"
  shows "\<exists>err. validate_nla b p maxtype pol = Some err"
proof -
  have "l < 2 ^ 16" using assms(1) by (auto simp: nla_len_def)
  then have u: "uint (word_of_int (int l - 4) :: u32) = int l - 4" using assms(2)
    by (simp only: uint_word_of_int) (simp add: mod_pos_pos_trivial)
  obtain t where t: "nla_type b p = Some t" using rd16_Some [of "p + 2" b] assms(2,3) by (auto simp: nla_type_def)
  have nz: "nla_attr_minlen ! LIBBPF_NLA_STRING = 1" by (simp add: nla_attr_minlen_def LIBBPF_NLA_STRING_def)
  have c: "nat (int p + int l - 1) < length b" using assms(2,3) by linarith
  show ?thesis
  proof (cases "maxtype < int t")
    case False
    then have "t < length pol" using assms(4) by linarith
    then show ?thesis
      using assms(1,2) t u nz c False
      by (auto simp: validate_nla_def libbpf_nla_len_def libbpf_nla_data_def NLA_HDRLEN_def rd8_def Let_def
          LIBBPF_NLA_UNSPEC_def LIBBPF_NLA_STRING_def)
  qed (use t in \<open>simp add: validate_nla_def\<close>)
qed

text \<open>The stream is padded, or bytes behind it may be read.\<close>

definition readable :: "byte list \<Rightarrow> nat \<Rightarrow> int \<Rightarrow> bool" where
  "readable b p rem \<longleftrightarrow> (if rem mod 4 = 0 then 0 \<le> rem \<and> int p + rem \<le> int (length b)
     else -4 < rem \<and> int p + rem + 5 \<le> int (length b))"

lemma align_mod: "NLA_ALIGN l mod 4 = 0" "l \<le> NLA_ALIGN l" "NLA_ALIGN l < l + 4"
  by (auto simp: NLA_ALIGN_def)

lemma readable_next:
  assumes "readable b p rem" "nla_ok b p rem = Some True" "nla_next b p rem = Some (p', rem')"
  shows "readable b p' rem'"
proof -
  obtain l where l: "nla_len b p = Some l" "int l \<le> rem" using assms(2) by (auto simp: nla_ok_True)
  then have n: "p' = p + NLA_ALIGN l" "rem' = rem - int (NLA_ALIGN l)" using assms(3) by (auto simp: nla_next_def Let_def)
  have a: "int (NLA_ALIGN l) mod 4 = 0" "int l \<le> int (NLA_ALIGN l)" "int (NLA_ALIGN l) < int l + 4"
    using align_mod [of l] by (auto simp: zmod_int [symmetric, of _ 4, simplified])
  have m: "rem' mod 4 = rem mod 4" unfolding n using a(1) by presburger
  show ?thesis
  proof (cases "rem mod 4 = 0")
    case True
    then have "0 \<le> rem'" using a l(2) n by presburger
    then show ?thesis using assms(1) True m n by (simp add: readable_def)
  qed (use assms(1) m n a l(2) in \<open>simp add: readable_def\<close>)
qed

lemma readable_ok: "readable b p rem \<Longrightarrow> \<exists>ok. nla_ok b p rem = Some ok"
  by (auto simp: nla_ok_def nla_len_def readable_def rd16_def split: if_splits)

lemma readable_attr:
  assumes "readable b p rem" "nla_ok b p rem = Some True"
  obtains l type p' rem' where "nla_len b p = Some l" "4 \<le> l" "p + l \<le> length b" "nla_type b p = Some type"
    "nla_next b p rem = Some (p', rem')"
proof -
  obtain l where l: "nla_len b p = Some l" "4 \<le> l" "int l \<le> rem" using assms(2) by (auto simp: nla_ok_True)
  then have pl: "p + l \<le> length b" using assms(1) by (auto simp: readable_def split: if_splits)
  obtain t where "rd16 b (p + 2) = Some t" using rd16_Some [of "p + 2" b] pl l(2) by auto
  then show thesis using that [OF l(1,2) pl] l(1) by (simp add: nla_type_def nla_next_def Let_def)
qed

lemma parse_loop_defined:
  "readable b p rem \<Longrightarrow> maxtype < int (length tb) \<Longrightarrow> (\<And>pol. policy = Some pol \<Longrightarrow> maxtype < int (length pol)) \<Longrightarrow>
     \<exists>r. parse_loop b tb maxtype p rem policy = Some r"
proof (induction "nat rem" arbitrary: tb p rem rule: less_induct)
  case less
  obtain ok where ok: "nla_ok b p rem = Some ok" using readable_ok [OF less.prems(1)] by blast
  show ?case
  proof (cases ok)
    case True
    then have okT: "nla_ok b p rem = Some True" using ok by simp
    obtain l type p' rem' where a: "nla_len b p = Some l" "4 \<le> l" "p + l \<le> length b" "nla_type b p = Some type"
      "nla_next b p rem = Some (p', rem')" by (rule readable_attr [OF less.prems(1) okT])
    note IH = less.hyps [OF nla_next_less [OF okT a(5)] readable_next [OF less.prems(1) okT a(5)]]
    obtain err where e: "(case policy of None \<Rightarrow> Some 0 | Some pol \<Rightarrow> validate_nla b p maxtype pol) = Some err"
      using validate_defined [OF a(1-3)] less.prems(3) by (cases policy) auto
    have "\<exists>r. parse_loop b tb maxtype p' rem' policy = Some r" "\<exists>r. parse_loop b (tb[type := Some p]) maxtype p' rem' policy = Some r"
      using IH [of tb] IH [of "tb[type := Some p]"] less.prems(2,3) by simp_all
    then show ?thesis using okT a(4,5) e less.prems(2) by (auto simp: parse_loop.simps [of b tb maxtype p rem])
  qed (use ok in \<open>simp add: parse_loop.simps [of b tb maxtype p rem]\<close>)
qed

text \<open>
  C20. The parser never reads outside its buffer on a stream whose length is a multiple of four, the
  form the kernel sends; on any other stream it needs five readable bytes behind the end. The
  policy has to have an entry for every type up to \<open>maxtype\<close>.
\<close>

theorem nla_parse_defined:
  assumes "0 \<le> len" "int head + len \<le> int (length b)" "len mod 4 = 0 \<or> int head + len + 5 \<le> int (length b)"
    and "\<And>pol. policy = Some pol \<Longrightarrow> maxtype < int (length pol)"
  shows "\<exists>err tb. libbpf_nla_parse b maxtype head len policy = Some (err, tb)"
  using parse_loop_defined [of b head len maxtype "replicate (nat (maxtype + 1)) None" policy] assms
  by (auto simp: libbpf_nla_parse_def readable_def)

theorem nla_parse_defined_witness:
  "\<exists>err tb. libbpf_nla_parse two_attrs 2 0 16 (Some (take 3 extack_policy)) = Some (err, tb)"
  using nla_parse_defined [of 16 0 two_attrs "Some (take 3 extack_policy)" 2] by (auto simp: two_attrs_def extack_policy_def Let_def)

text \<open>Without the padding the loop reads the length of an attribute behind the end of the stream.\<close>

lemma nla_parse_overread: "libbpf_nla_parse [5, 0, 1, 0, 7] 2 0 5 None = None"
  by code_simp

section \<open>Encoding and parsing\<close>

text \<open>The wire format of an attribute, and the payload of the attribute at a position.\<close>

definition enc_attr :: "nat \<times> byte list \<Rightarrow> byte list" where
  "enc_attr a = le16 (of_nat (4 + length (snd a))) @ le16 (of_nat (fst a)) @ snd a @
     replicate (NLA_ALIGN (length (snd a)) - length (snd a)) 0"

definition attr_fits :: "nat \<times> byte list \<Rightarrow> bool" where
  "attr_fits a \<longleftrightarrow> fst a < 2 ^ 14 \<and> 4 + length (snd a) < 2 ^ 16"

definition attr_payload :: "byte list \<Rightarrow> nat \<Rightarrow> byte list" where
  "attr_payload b p = (case nla_len b p of None \<Rightarrow> [] | Some l \<Rightarrow> take (l - 4) (drop (p + 4) b))"

lemma rd16_le16: "rd16 (pre @ le16 x @ post) (length pre) = Some x"
  by (simp add: rd16_def le16_def nth_append get16_le16)

lemma enc_attr_length: "length (enc_attr a) = 4 + NLA_ALIGN (length (snd a))"
  using align_mod(2) [of "length (snd a)"] by (simp add: enc_attr_def)

lemma align_hdr: "NLA_ALIGN (4 + n) = 4 + NLA_ALIGN n"
  unfolding NLA_ALIGN_def by presburger

lemma mask14:
  assumes "t < 2 ^ 14" shows "unat ((of_nat t :: u16) AND NLA_TYPE_MASK) = t"
proof -
  have m: "NLA_TYPE_MASK = mask 14" by (simp add: NLA_TYPE_MASK_def mask_eq_exp_minus_1)
  have "unat ((of_nat t :: u16) AND NLA_TYPE_MASK) = take_bit 14 (unat (of_nat t :: u16))"
    unfolding m take_bit_eq_mask [symmetric] by (rule unsigned_take_bit_eq)
  also have "unat (of_nat t :: u16) = t" using assms by (simp add: unsigned_of_nat take_bit_nat_eq_self)
  finally show ?thesis using assms by (simp add: take_bit_nat_eq_self)
qed

text \<open>Reading back an attribute that was written.\<close>

lemma enc_attr_read:
  assumes "attr_fits a" and b: "b = pre @ enc_attr a @ post"
  shows "nla_len b (length pre) = Some (4 + length (snd a))" "nla_type b (length pre) = Some (fst a)"
    "attr_payload b (length pre) = snd a"
proof -
  have l: "unat (of_nat (4 + length (snd a)) :: u16) = 4 + length (snd a)"
    using assms(1) by (simp only: unsigned_of_nat attr_fits_def) (simp add: take_bit_nat_eq_self)
  show 1: "nla_len b (length pre) = Some (4 + length (snd a))"
    using rd16_le16 [of pre "of_nat (4 + length (snd a))"] l by (simp add: nla_len_def b enc_attr_def del: of_nat_add)
  have "rd16 b (length pre + 2) = Some (of_nat (fst a))"
    using rd16_le16 [of "pre @ le16 (of_nat (4 + length (snd a)))" "of_nat (fst a)"] by (simp add: b enc_attr_def)
  then show "nla_type b (length pre) = Some (fst a)" using mask14 assms(1) by (simp add: nla_type_def attr_fits_def)
  show "attr_payload b (length pre) = snd a" unfolding attr_payload_def 1 by (simp add: b enc_attr_def le16_def)
qed

lemma parse_enc:
  assumes "\<forall>a \<in> set attrs. attr_fits a" "b = pre @ concat (map enc_attr attrs) @ post" "length tb = nat (maxtype + 1)"
  shows "\<exists>tb'. parse_loop b tb maxtype (length pre) (int (length (concat (map enc_attr attrs)))) None = Some (0, tb') \<and>
     length tb' = length tb \<and> (\<forall>t < length tb. map_option (attr_payload b) (tb' ! t) =
       (case map_of (rev attrs) t of None \<Rightarrow> map_option (attr_payload b) (tb ! t) | Some d \<Rightarrow> Some d))"
  using assms
proof (induction attrs arbitrary: pre tb)
  case Nil
  then show ?case by (simp add: parse_loop.simps nla_ok_def)
next
  case (Cons a attrs)
  let ?rest = "concat (map enc_attr attrs)" and ?p = "length pre"
  let ?rem = "int (length (enc_attr a @ ?rest))"
  have b: "b = pre @ enc_attr a @ (?rest @ post)" and fit: "attr_fits a" using Cons.prems by simp_all
  note rd = enc_attr_read [OF fit b]
  have len: "length (enc_attr a) = NLA_ALIGN (4 + length (snd a))" by (simp add: enc_attr_length align_hdr)
  have ok: "nla_ok b ?p ?rem = Some True"
    unfolding nla_ok_True using rd(1) align_mod(2) [of "4 + length (snd a)"] by (simp add: len)
  have nx: "nla_next b ?p ?rem = Some (length (pre @ enc_attr a), int (length ?rest))"
    by (simp add: nla_next_def rd(1) len Let_def)
  have b': "b = (pre @ enc_attr a) @ ?rest @ post" using b by simp
  let ?tb = "if int (fst a) > maxtype then tb else tb[fst a := Some ?p]"
  have l: "length ?tb = nat (maxtype + 1)" using Cons.prems(3) by simp
  have fits: "\<forall>a \<in> set attrs. attr_fits a" using Cons.prems(1) by simp
  obtain tb' where r: "parse_loop b ?tb maxtype (length (pre @ enc_attr a)) (int (length ?rest)) None = Some (0, tb')"
    "length tb' = length ?tb" and v: "\<And>t. t < length ?tb \<Longrightarrow> map_option (attr_payload b) (tb' ! t) =
       (case map_of (rev attrs) t of None \<Rightarrow> map_option (attr_payload b) (?tb ! t) | Some d \<Rightarrow> Some d)"
    using Cons.IH [OF fits b' l] by blast
  have "parse_loop b tb maxtype ?p ?rem None = Some (0, tb')"
    unfolding parse_loop.simps [of b tb maxtype ?p ?rem] ok nx rd(2) using r(1) Cons.prems(3) by (auto split: if_splits)
  moreover have "map_option (attr_payload b) (tb' ! t) =
       (case map_of (rev (a # attrs)) t of None \<Rightarrow> map_option (attr_payload b) (tb ! t) | Some d \<Rightarrow> Some d)" if "t < length tb" for t
    using v [of t] that l Cons.prems(3) rd(3)
    by (cases a, cases "map_of (rev attrs) t") (auto simp: map_add_def nth_list_update split: if_splits)
  ultimately show ?case using r(2) l Cons.prems(3) by auto
qed

lemma parse_encoded:
  assumes "\<forall>a \<in> set attrs. attr_fits a" "b = pre @ concat (map enc_attr attrs) @ post"
  shows "\<exists>tb. libbpf_nla_parse b maxtype (length pre) (int (length (concat (map enc_attr attrs)))) None = Some (0, tb) \<and>
     length tb = nat (maxtype + 1) \<and>
     (\<forall>t < length tb. map_option (attr_payload b) (tb ! t) = map_of (rev attrs) t)"
  using parse_enc [OF assms, of "replicate (nat (maxtype + 1)) None" maxtype]
  by (fastforce simp: libbpf_nla_parse_def split: option.splits)

text \<open>
  C18. Encoding and parsing are inverse: on the encoding of any list of attributes, wherever it lies
  in the buffer, \<open>libbpf_nla_parse\<close> returns 0 and an index in which every type up to \<open>maxtype\<close> has the
  payload of the last attribute of that type, and no entry if there is none; types beyond
  \<open>maxtype\<close> are ignored.
\<close>

theorem nla_parse_roundtrip:
  assumes "\<forall>a \<in> set attrs. attr_fits a" "b = pre @ concat (map enc_attr attrs) @ post"
  shows "\<exists>tb. libbpf_nla_parse b maxtype (length pre) (int (length (concat (map enc_attr attrs)))) None = Some (0, tb) \<and>
     length tb = nat (maxtype + 1) \<and>
     (\<forall>t < length tb. map_option (attr_payload b) (tb ! t) = map_of (rev attrs) t)"
  by (rule parse_encoded [OF assms])

definition three_attrs :: "(nat \<times> byte list) list" where
  "three_attrs = [(1, [7]), (5, [1, 2]), (1, [8, 9])]"

theorem nla_parse_roundtrip_witness:
  "\<exists>tb. libbpf_nla_parse ([9] @ concat (map enc_attr three_attrs)) 2 1 24 None = Some (0, tb) \<and>
     length tb = 3 \<and> map_option (attr_payload ([9] @ concat (map enc_attr three_attrs))) (tb ! 1) = Some [8, 9]"
proof -
  have fit: "\<forall>a \<in> set three_attrs. attr_fits a" by (simp add: three_attrs_def attr_fits_def)
  have len: "int (length (concat (map enc_attr three_attrs))) = 24" by (simp add: three_attrs_def enc_attr_length NLA_ALIGN_def)
  have last: "map_of (rev three_attrs) 1 = Some [8, 9]" by (simp add: three_attrs_def)
  let ?b = "[9] @ concat (map enc_attr three_attrs) @ []"
  obtain tb where tb: "libbpf_nla_parse ?b 2 1 24 None = Some (0, tb)" "length tb = 3"
    "\<forall>t < length tb. map_option (attr_payload ?b) (tb ! t) = map_of (rev three_attrs) t"
    using nla_parse_roundtrip [OF fit refl, of "[9]" "[]" 2] unfolding len by auto
  have "map_option (attr_payload ?b) (tb ! 1) = Some [8, 9]" using tb(3) [rule_format, of 1] tb(2) last by simp
  then show ?thesis using tb(1,2) by auto
qed

end
