(* ===== verification/Netlink.thy ===== *)
theory Netlink
  imports Nlattr
begin

unbundle bit_operations_syntax

text \<open>
  The netlink client of libbpf, \<^verbatim>\<open>lib/libbpf/src/netlink.c\<close>: the request that puts an XDP program on an
  interface, the query for the program that is there, and the loop that reads the kernel's answers.
  The launcher reaches the kernel through the first two. A message is a byte list; the buffer on
  the stack of the receive loop starts with arbitrary contents, the argument \<open>junk\<close>.
\<close>

section \<open>Constants\<close>

definition LIBBPF_ERRNO__INTERNAL :: int where "LIBBPF_ERRNO__INTERNAL = 4004"
definition LIBBPF_ERRNO__WRNGPID :: int where "LIBBPF_ERRNO__WRNGPID = 4011"
definition LIBBPF_ERRNO__INVSEQ :: int where "LIBBPF_ERRNO__INVSEQ = 4012"
definition LIBBPF_ERRNO__NLPARSE :: int where "LIBBPF_ERRNO__NLPARSE = 4013"
definition NL_EINVAL :: int where "NL_EINVAL = 22"

definition NLM_F_REQUEST :: u16 where "NLM_F_REQUEST = 1"
definition NLM_F_MULTI :: u16 where "NLM_F_MULTI = 2"
definition NLM_F_ACK :: u16 where "NLM_F_ACK = 4"
definition NLM_F_DUMP :: u16 where "NLM_F_DUMP = 0x300"
definition NLMSG_ERROR :: u16 where "NLMSG_ERROR = 2"
definition NLMSG_DONE :: u16 where "NLMSG_DONE = 3"
definition RTM_GETLINK :: u16 where "RTM_GETLINK = 18"
definition RTM_SETLINK :: u16 where "RTM_SETLINK = 19"
definition RTM_GETQDISC :: u16 where "RTM_GETQDISC = 38"
definition RTM_GETTCLASS :: u16 where "RTM_GETTCLASS = 42"
definition RTM_GETTFILTER :: u16 where "RTM_GETTFILTER = 46"
definition AF_PACKET :: byte where "AF_PACKET = 17"
definition NLA_F_NESTED :: u16 where "NLA_F_NESTED = 0x8000"
definition IFLA_XDP :: nat where "IFLA_XDP = 43"
definition IFLA_MAX :: nat where "IFLA_MAX = 51"
definition IFLA_XDP_UNSPEC :: nat where "IFLA_XDP_UNSPEC = 0"
definition IFLA_XDP_FD :: nat where "IFLA_XDP_FD = 1"
definition IFLA_XDP_ATTACHED :: nat where "IFLA_XDP_ATTACHED = 2"
definition IFLA_XDP_FLAGS :: nat where "IFLA_XDP_FLAGS = 3"
definition IFLA_XDP_PROG_ID :: nat where "IFLA_XDP_PROG_ID = 4"
definition IFLA_XDP_DRV_PROG_ID :: nat where "IFLA_XDP_DRV_PROG_ID = 5"
definition IFLA_XDP_SKB_PROG_ID :: nat where "IFLA_XDP_SKB_PROG_ID = 6"
definition IFLA_XDP_HW_PROG_ID :: nat where "IFLA_XDP_HW_PROG_ID = 7"
definition IFLA_XDP_MAX :: nat where "IFLA_XDP_MAX = 7"
definition XDP_ATTACHED_NONE :: byte where "XDP_ATTACHED_NONE = 0"
definition XDP_ATTACHED_MULTI :: byte where "XDP_ATTACHED_MULTI = 4"
definition NL_XDP_FLAGS_SKB_MODE :: u32 where "NL_XDP_FLAGS_SKB_MODE = 2"
definition NL_XDP_FLAGS_DRV_MODE :: u32 where "NL_XDP_FLAGS_DRV_MODE = 4"
definition NL_XDP_FLAGS_HW_MODE :: u32 where "NL_XDP_FLAGS_HW_MODE = 8"
definition XDP_FLAGS_MASK :: u32 where "XDP_FLAGS_MASK = 15"
definition SOL_NETLINK :: int where "SOL_NETLINK = 270"
definition NL_BUFSIZE :: nat where "NL_BUFSIZE = 4096"

record xdp_id_md =
  md_ifindex :: int
  md_flags :: u32
  md_id :: u32

section \<open>The socket\<close>

text \<open>The result is the descriptor, or a negative error, and the port the kernel assigned.\<close>

definition libbpf_netlink_open :: "env \<Rightarrow> 'a world_scheme \<Rightarrow> (int \<times> u32 \<times> 'a world_scheme) option" where
  "libbpf_netlink_open env w =
     (let (sock, w) = call env (Sock (Socket 16 3 0)) w
      in if sock < 0 then Some (- errno w, 0, w)
         else let (_, w) = call env (Sock (Setsockopt sock SOL_NETLINK 11)) w;
                  (r, w) = call env (Sock (Bind_nl sock)) w
         in if r < 0 then let ret = - errno w; (_, w) = call env (Sock (Close sock)) w in Some (ret, 0, w)
         else let (sa, w) = sys env (Sock (Getsockname sock)) w
         in if rv sa < 0 then let ret = - errno w; (_, w) = call env (Sock (Close sock)) w in Some (ret, 0, w)
         else if length (rdata sa) \<noteq> 12
         then let (_, w) = call env (Sock (Close sock)) w in Some (- LIBBPF_ERRNO__INTERNAL, 0, w)
         else map_option (\<lambda>pid. (sock, pid, w)) (rd32 (rdata sa) 4))"

section \<open>Receiving\<close>

text \<open>A handler of messages gets the buffer, the offset of the message and the cookie.\<close>

type_synonym 'c dump_fn = "byte list \<Rightarrow> nat \<Rightarrow> 'c \<Rightarrow> (int \<times> 'c) option"

definition NLMSG_OK :: "byte list \<Rightarrow> nat \<Rightarrow> int \<Rightarrow> bool option" where
  "NLMSG_OK b nh len =
     (if len < 16 then Some False
      else map_option (\<lambda>l. 16 \<le> unat l \<and> int (unat l) \<le> len) (rd32 b nh))"

definition NLMSG_NEXT :: "byte list \<Rightarrow> nat \<Rightarrow> int \<Rightarrow> (nat \<times> int) option" where
  "NLMSG_NEXT b nh len =
     map_option (\<lambda>l. (nh + NLA_ALIGN (unat l), len - int (NLA_ALIGN (unat l)))) (rd32 b nh)"

text \<open>
  What one message does: end the call with a value, go on to the next message, or go on to the
  handler.
\<close>

datatype verdict = Ret int | Skip | Handle

definition nl_header :: "byte list \<Rightarrow> nat \<Rightarrow> u32 \<Rightarrow> u32 \<Rightarrow> (verdict \<times> bool) option" where
  "nl_header b nh nl_pid seq = do {
     pid \<leftarrow> rd32 b (nh + 12);
     if pid \<noteq> nl_pid then Some (Ret (- LIBBPF_ERRNO__WRNGPID), False)
     else do {
       sq \<leftarrow> rd32 b (nh + 8);
       if sq \<noteq> seq then Some (Ret (- LIBBPF_ERRNO__INVSEQ), False)
       else do {
         flags \<leftarrow> rd16 b (nh + 6);
         let multi = (flags AND NLM_F_MULTI \<noteq> 0);
         type \<leftarrow> rd16 b (nh + 4);
         if type = NLMSG_ERROR
         then do {
           e \<leftarrow> rd32 b (nh + NLMSG_HDRLEN);
           if e = 0 then Some (Skip, multi)
           else do { _ \<leftarrow> libbpf_nla_dump_errormsg b nh; Some (Ret (int32 e), multi) }
         }
         else if type = NLMSG_DONE then Some (Ret 0, multi)
         else Some (Handle, multi)
       }
     }
   }"

text \<open>The messages of one buffer: \<open>Inl\<close> is a return, \<open>Inr\<close> the flag \<open>multipart\<close> at the end.\<close>

function (sequential) nl_messages ::
    "'c dump_fn option \<Rightarrow> byte list \<Rightarrow> u32 \<Rightarrow> u32 \<Rightarrow> nat \<Rightarrow> int \<Rightarrow> bool \<Rightarrow> 'c \<Rightarrow> ((int + bool) \<times> 'c) option" where
  "nl_messages fn b nl_pid seq nh len multipart c =
     (case NLMSG_OK b nh len of
        None \<Rightarrow> None
      | Some False \<Rightarrow> Some (Inr multipart, c)
      | Some True \<Rightarrow>
         (case (nl_header b nh nl_pid seq, NLMSG_NEXT b nh len) of
            (Some (v, multi), Some (nh', len')) \<Rightarrow>
              (case v of
                 Ret r \<Rightarrow> Some (Inl r, c)
               | Skip \<Rightarrow> nl_messages fn b nl_pid seq nh' len' (multipart \<or> multi) c
               | Handle \<Rightarrow>
                   (case (case fn of None \<Rightarrow> Some (0, c) | Some f \<Rightarrow> f b nh c) of
                      None \<Rightarrow> None
                    | Some (r, c') \<Rightarrow>
                        if r \<noteq> 0 then Some (Inl r, c')
                        else nl_messages fn b nl_pid seq nh' len' (multipart \<or> multi) c'))
          | _ \<Rightarrow> None))"
  by pat_completeness auto

lemma NLMSG_OK_True: "NLMSG_OK b nh len = Some True \<longleftrightarrow> (\<exists>l. rd32 b nh = Some l \<and> 16 \<le> unat l \<and> int (unat l) \<le> len)"
  by (auto simp: NLMSG_OK_def simp del: of_nat_unat)

lemma NLMSG_NEXT_less:
  "NLMSG_OK b nh len = Some True \<Longrightarrow> NLMSG_NEXT b nh len = Some (nh', len') \<Longrightarrow> nat len' < nat len"
  by (auto simp: NLMSG_OK_True NLMSG_NEXT_def NLA_ALIGN_def simp del: of_nat_unat)

termination nl_messages
  by (relation "measure (\<lambda>(fn, b, nl_pid, seq, nh, len, multipart, c). nat len)")
    (auto simp del: nat_less_iff zless_nat_conj dest: NLMSG_NEXT_less [OF _ sym])

declare nl_messages.simps [simp del]

text \<open>\<open>recv\<close> overwrites the start of the buffer with what arrived.\<close>

definition store_recv :: "reply \<Rightarrow> byte list \<Rightarrow> byte list" where
  "store_recv r b = (let n = nat (rv r) in take n (rdata r @ replicate n 0) @ drop n b)"

text \<open>The loop goes on as long as the kernel announces more parts, which may be for ever.\<close>

partial_function (option) nl_recv_loop ::
    "env \<Rightarrow> int \<Rightarrow> u32 \<Rightarrow> u32 \<Rightarrow> 'c dump_fn option \<Rightarrow> byte list \<Rightarrow> 'c \<Rightarrow> 'a world_scheme \<Rightarrow> (int \<times> 'c \<times> 'a world_scheme) option" where
  "nl_recv_loop env sock nl_pid seq fn b c w =
     (let (r, w) = sys env (Sock (Recv sock NL_BUFSIZE)) w
      in if rv r < 0 then Some (- errno w, c, w)
         else if rv r = 0 then Some (0, c, w)
         else (case nl_messages fn (store_recv r b) nl_pid seq 0 (rv r) False c of
                 None \<Rightarrow> None
               | Some (Inl ret, c) \<Rightarrow> Some (ret, c, w)
               | Some (Inr multipart, c) \<Rightarrow>
                   if multipart then nl_recv_loop env sock nl_pid seq fn (store_recv r b) c w else Some (0, c, w)))"

definition bpf_netlink_recv ::
    "env \<Rightarrow> byte list \<Rightarrow> int \<Rightarrow> u32 \<Rightarrow> u32 \<Rightarrow> 'c dump_fn option \<Rightarrow> 'c \<Rightarrow> 'a world_scheme \<Rightarrow> (int \<times> 'c \<times> 'a world_scheme) option" where
  "bpf_netlink_recv env junk sock nl_pid seq fn c w = nl_recv_loop env sock nl_pid seq fn junk c w"

section \<open>Attaching a program\<close>

text \<open>The request is built in place in a cleared structure of 96 bytes.\<close>

definition xdp_request :: "int \<Rightarrow> int \<Rightarrow> u32 \<Rightarrow> u32 \<Rightarrow> byte list option" where
  "xdp_request ifindex fd flags seq = do {
     let req = replicate 96 0;
     req \<leftarrow> memcpy req 4 (le16 RTM_SETLINK @ le16 (NLM_F_REQUEST OR NLM_F_ACK) @ le32 seq @ le32 0);
     req \<leftarrow> memcpy req 20 (le32 (word_of_int ifindex));
     let nla = NLA_ALIGN 32;
     req \<leftarrow> memcpy req (nla + 2) (le16 (NLA_F_NESTED OR of_nat IFLA_XDP));
     req \<leftarrow> memcpy req (nla + 4) (le16 8 @ le16 (of_nat IFLA_XDP_FD) @ le32 (word_of_int fd));
     req \<leftarrow> (if flags \<noteq> 0
            then memcpy req (nla + 12) (le16 8 @ le16 (of_nat IFLA_XDP_FLAGS) @ le32 flags)
            else Some req);
     let len = (if flags \<noteq> 0 then 20 else 12);
     req \<leftarrow> memcpy req nla (le16 (of_nat len));
     req \<leftarrow> memcpy req 0 (le32 (of_nat (32 + NLA_ALIGN len)));
     Some (take (32 + NLA_ALIGN len) req)
   }"

definition bpf_set_link_xdp_fd ::
    "env \<Rightarrow> byte list \<Rightarrow> int \<Rightarrow> int \<Rightarrow> u32 \<Rightarrow> 'a world_scheme \<Rightarrow> (int \<times> 'a world_scheme) option" where
  "bpf_set_link_xdp_fd env junk ifindex fd flags w = do {
     (sock, nl_pid, w) \<leftarrow> libbpf_netlink_open env w;
     if sock < 0 then Some (sock, w)
     else do {
       req \<leftarrow> xdp_request ifindex fd flags 1;
       let (n, w) = call env (Sock (Send sock req)) w;
       (ret, _, w) \<leftarrow> (if n < 0 then Some (- errno w, (), w) else bpf_netlink_recv env junk sock nl_pid 1 None () w);
       let (_, w) = call env (Sock (Close sock)) w;
       Some (ret, w)
     }
   }"

section \<open>Dumping links\<close>

text \<open>The caller's function gets the cookie, the position of the message body and the index of its attributes.\<close>

type_synonym 'c dump_nlmsg = "byte list \<Rightarrow> 'c \<Rightarrow> nat \<Rightarrow> nat option list \<Rightarrow> (int \<times> 'c) option"

definition dump_nlmsg :: "nat \<Rightarrow> nat \<Rightarrow> 'c dump_nlmsg \<Rightarrow> 'c dump_fn" where
  "dump_nlmsg maxtype body fn b nlh c = do {
     l \<leftarrow> rd32 b nlh;
     let ifi = nlh + NLMSG_HDRLEN;
     let len = int (unat l) - int (body + NLMSG_HDRLEN);
     (err, tb) \<leftarrow> libbpf_nla_parse b (int maxtype) (ifi + NLA_ALIGN body) len None;
     if err \<noteq> 0 then Some (- LIBBPF_ERRNO__NLPARSE, c) else fn b c ifi tb
   }"

definition dump_link_nlmsg' :: "'c dump_nlmsg \<Rightarrow> 'c dump_fn" where
  "dump_link_nlmsg' fn = dump_nlmsg IFLA_MAX 16 fn"

definition get_xdp_id_attr :: "byte \<Rightarrow> u32 \<Rightarrow> nat" where
  "get_xdp_id_attr mode flags =
     (if mode \<noteq> XDP_ATTACHED_MULTI then IFLA_XDP_PROG_ID
      else if flags AND NL_XDP_FLAGS_DRV_MODE \<noteq> 0 then IFLA_XDP_DRV_PROG_ID
      else if flags AND NL_XDP_FLAGS_HW_MODE \<noteq> 0 then IFLA_XDP_HW_PROG_ID
      else if flags AND NL_XDP_FLAGS_SKB_MODE \<noteq> 0 then IFLA_XDP_SKB_PROG_ID
      else IFLA_XDP_UNSPEC)"

definition get_xdp_id :: "xdp_id_md dump_nlmsg" where
  "get_xdp_id b c msg tb = do {
     idx \<leftarrow> rd32 b (msg + 4);
     if md_ifindex c \<noteq> 0 \<and> md_ifindex c \<noteq> int32 idx then Some (0, c)
     else (case tb ! IFLA_XDP of
       None \<Rightarrow> Some (0, c)
     | Some xdp \<Rightarrow> do {
         (ret, xdp_tb) \<leftarrow> libbpf_nla_parse_nested b (int IFLA_XDP_MAX) xdp None;
         if ret \<noteq> 0 then Some (ret, c)
         else (case xdp_tb ! IFLA_XDP_ATTACHED of
           None \<Rightarrow> Some (0, c)
         | Some att \<Rightarrow> do {
             mode \<leftarrow> libbpf_nla_getattr_u8 b att;
             if mode = XDP_ATTACHED_NONE then Some (0, c)
             else let xdp_attr = get_xdp_id_attr mode (md_flags c)
             in if xdp_attr = 0 then Some (0, c)
             else (case xdp_tb ! xdp_attr of
               None \<Rightarrow> Some (0, c)
             | Some p \<Rightarrow> map_option (\<lambda>id. (0, c\<lparr>md_id := id\<rparr>)) (libbpf_nla_getattr_u32 b p))
           })
       })
   }"

text \<open>The dump requests: header, cleared body with a few fields, a sequence number from the clock.\<close>

definition dump_request :: "u16 \<Rightarrow> byte list \<Rightarrow> u32 \<Rightarrow> byte list" where
  "dump_request type body seq =
     le32 (of_nat (NLMSG_HDRLEN + length body)) @ le16 type @ le16 (NLM_F_DUMP OR NLM_F_REQUEST) @ le32 seq @ le32 0 @ body"

definition nl_dump ::
    "env \<Rightarrow> byte list \<Rightarrow> int \<Rightarrow> u32 \<Rightarrow> u16 \<Rightarrow> byte list \<Rightarrow> 'c dump_fn \<Rightarrow> 'c \<Rightarrow> 'a world_scheme \<Rightarrow> (int \<times> 'c \<times> 'a world_scheme) option" where
  "nl_dump env junk sock nl_pid type body fn c w =
     (let (t, w) = call env (Sock Time) w; seq = word_of_int t;
          (n, w) = call env (Sock (Send sock (dump_request type body seq))) w
      in if n < 0 then Some (- errno w, c, w)
         else bpf_netlink_recv env junk sock nl_pid seq (Some fn) c w)"

definition libbpf_nl_get_link ::
    "env \<Rightarrow> byte list \<Rightarrow> int \<Rightarrow> u32 \<Rightarrow> 'c dump_nlmsg \<Rightarrow> 'c \<Rightarrow> 'a world_scheme \<Rightarrow> (int \<times> 'c \<times> 'a world_scheme) option" where
  "libbpf_nl_get_link env junk sock nl_pid fn c w =
     nl_dump env junk sock nl_pid RTM_GETLINK (AF_PACKET # replicate 15 0) (dump_link_nlmsg' fn) c w"

text \<open>\<open>None\<close> for the identifier: \<open>*prog_id\<close> was not written.\<close>

definition bpf_get_link_xdp_id ::
    "env \<Rightarrow> byte list \<Rightarrow> int \<Rightarrow> u32 \<Rightarrow> 'a world_scheme \<Rightarrow> (int \<times> u32 option \<times> 'a world_scheme) option" where
  "bpf_get_link_xdp_id env junk ifindex flags w =
     (if flags AND NOT XDP_FLAGS_MASK \<noteq> 0 then Some (- NL_EINVAL, None, w)
      else let flags = flags AND (NL_XDP_FLAGS_SKB_MODE OR NL_XDP_FLAGS_DRV_MODE OR NL_XDP_FLAGS_HW_MODE);
               mask = flags - 1
      in if flags \<noteq> 0 \<and> flags AND mask \<noteq> 0 then Some (- NL_EINVAL, None, w)
      else do {
        (sock, nl_pid, w) \<leftarrow> libbpf_netlink_open env w;
        if sock < 0 then Some (sock, None, w)
        else do {
          (ret, c, w) \<leftarrow> libbpf_nl_get_link env junk sock nl_pid get_xdp_id \<lparr>md_ifindex = ifindex, md_flags = flags, md_id = 0\<rparr> w;
          let (_, w) = call env (Sock (Close sock)) w;
          Some (ret, if ret = 0 then Some (md_id c) else None, w)
        }
      })"

section \<open>Dumping traffic control\<close>

text \<open>
  Classes, queueing disciplines and filters. \<open>TCA_MAX\<close> belongs to the system's headers and is the
  argument \<open>tca_max\<close>; \<open>struct tcmsg\<close> has 20 bytes.
\<close>

definition dump_class_nlmsg' :: "nat \<Rightarrow> 'c dump_nlmsg \<Rightarrow> 'c dump_fn" where
  "dump_class_nlmsg' tca_max fn = dump_nlmsg tca_max 20 fn"

definition dump_qdisc_nlmsg' :: "nat \<Rightarrow> 'c dump_nlmsg \<Rightarrow> 'c dump_fn" where
  "dump_qdisc_nlmsg' tca_max fn = dump_nlmsg tca_max 20 fn"

definition dump_filter_nlmsg' :: "nat \<Rightarrow> 'c dump_nlmsg \<Rightarrow> 'c dump_fn" where
  "dump_filter_nlmsg' tca_max fn = dump_nlmsg tca_max 20 fn"

definition tcmsg_body :: "int \<Rightarrow> int \<Rightarrow> byte list" where
  "tcmsg_body ifindex parent = replicate 4 0 @ le32 (word_of_int ifindex) @ replicate 4 0 @ le32 (word_of_int parent) @ replicate 4 0"

definition libbpf_nl_get_class ::
    "env \<Rightarrow> byte list \<Rightarrow> nat \<Rightarrow> int \<Rightarrow> u32 \<Rightarrow> int \<Rightarrow> 'c dump_nlmsg \<Rightarrow> 'c \<Rightarrow> 'a world_scheme \<Rightarrow> (int \<times> 'c \<times> 'a world_scheme) option" where
  "libbpf_nl_get_class env junk tca_max sock nl_pid ifindex fn c w =
     nl_dump env junk sock nl_pid RTM_GETTCLASS (tcmsg_body ifindex 0) (dump_class_nlmsg' tca_max fn) c w"

definition libbpf_nl_get_qdisc ::
    "env \<Rightarrow> byte list \<Rightarrow> nat \<Rightarrow> int \<Rightarrow> u32 \<Rightarrow> int \<Rightarrow> 'c dump_nlmsg \<Rightarrow> 'c \<Rightarrow> 'a world_scheme \<Rightarrow> (int \<times> 'c \<times> 'a world_scheme) option" where
  "libbpf_nl_get_qdisc env junk tca_max sock nl_pid ifindex fn c w =
     nl_dump env junk sock nl_pid RTM_GETQDISC (tcmsg_body ifindex 0) (dump_qdisc_nlmsg' tca_max fn) c w"

definition libbpf_nl_get_filter ::
    "env \<Rightarrow> byte list \<Rightarrow> nat \<Rightarrow> int \<Rightarrow> u32 \<Rightarrow> int \<Rightarrow> int \<Rightarrow> 'c dump_nlmsg \<Rightarrow> 'c \<Rightarrow> 'a world_scheme \<Rightarrow> (int \<times> 'c \<times> 'a world_scheme) option" where
  "libbpf_nl_get_filter env junk tca_max sock nl_pid ifindex handle fn c w =
     nl_dump env junk sock nl_pid RTM_GETTFILTER (tcmsg_body ifindex handle) (dump_filter_nlmsg' tca_max fn) c w"

section \<open>Reading what was written\<close>

lemma le32_length [simp]: "length (le32 x) = 4" by (simp add: le32_def)

lemma split32: "ucast (ucast (x :: u32) :: u16) + 65536 * ucast (ucast (drop_bit 16 x) :: u16) = x"
proof -
  have h: "unat x div 65536 < 65536" using unat_u32_less [of x] by linarith
  have "unat (ucast (ucast x :: u16) + 65536 * ucast (ucast (drop_bit 16 x) :: u16) :: u32) = unat x mod 65536 + 65536 * (unat x div 65536)"
    using h by (simp add: unat_word_ariths unsigned_ucast_eq drop_bit_eq_div unat_div take_bit_eq_mod)
  then have "unat (ucast (ucast x :: u16) + 65536 * ucast (ucast (drop_bit 16 x) :: u16) :: u32) = unat x" by presburger
  then show ?thesis by (rule unsigned_word_eqI)
qed

lemma rd32_le32: "rd32 (pre @ le32 x @ post) (length pre) = Some x"
proof -
  have lo: "rd16 (pre @ le32 x @ post) (length pre) = Some (ucast x)"
    using rd16_le16 [of pre "ucast x"] by (simp add: le32_def)
  have hi: "rd16 (pre @ le32 x @ post) (length pre + 2) = Some (ucast (drop_bit 16 x))"
    using rd16_le16 [of "pre @ le16 (ucast x)" "ucast (drop_bit 16 x)"] by (simp add: le32_def)
  show ?thesis unfolding rd32_def lo hi by (simp add: split32)
qed

lemma rd16_at: "b = pre @ le16 x @ post \<Longrightarrow> p = length pre \<Longrightarrow> rd16 b p = Some x"
  using rd16_le16 by simp

lemma rd32_at: "b = pre @ le32 x @ post \<Longrightarrow> p = length pre \<Longrightarrow> rd32 b p = Some x"
  using rd32_le32 by simp

section \<open>The request\<close>

text \<open>The bytes that \<open>bpf_set_link_xdp_fd\<close> sends.\<close>

definition set_link_msg :: "int \<Rightarrow> int \<Rightarrow> u32 \<Rightarrow> u32 \<Rightarrow> byte list" where
  "set_link_msg ifindex fd flags seq =
     (let attrs = (le16 8 @ le16 1 @ le32 (word_of_int fd)) @ (if flags = 0 then [] else le16 8 @ le16 3 @ le32 flags)
      in le32 (of_nat (36 + length attrs)) @ le16 19 @ le16 5 @ le32 seq @ le32 0 @
         replicate 4 0 @ le32 (word_of_int ifindex) @ replicate 8 0 @
         le16 (of_nat (4 + length attrs)) @ le16 0x802B @ attrs)"

lemma xdp_request_bytes: "xdp_request ifindex fd flags seq = Some (set_link_msg ifindex fd flags seq)"
  by (simp add: xdp_request_def set_link_msg_def memcpy_def NLA_ALIGN_def RTM_SETLINK_def NLM_F_REQUEST_def NLM_F_ACK_def
      NLA_F_NESTED_def IFLA_XDP_def IFLA_XDP_FD_def IFLA_XDP_FLAGS_def le32_def le16_def Let_def)

lemma payload_u32:
  assumes "attr_payload b p = le32 x" shows "libbpf_nla_getattr_u32 b p = Some x"
proof -
  obtain l where "nla_len b p = Some l" and t: "take (l - 4) (drop (p + 4) b) = le32 x"
    using assms by (cases "nla_len b p") (auto simp: attr_payload_def le32_def le16_def)
  have "drop (p + 4) b = le32 x @ drop (l - 4) (drop (p + 4) b)" using t by (metis append_take_drop_id)
  then have "b = take (p + 4) b @ le32 x @ drop (l - 4) (drop (p + 4) b)" by (metis append_take_drop_id)
  moreover have "p + 4 = length (take (p + 4) b)"
    using arg_cong [OF t, of length] by auto
  ultimately show ?thesis unfolding libbpf_nla_getattr_u32_def libbpf_nla_data_def NLA_HDRLEN_def by (rule rd32_at)
qed

lemma payload_u8:
  assumes "attr_payload b p = [x]" shows "libbpf_nla_getattr_u8 b p = Some x"
proof -
  obtain l where "take (l - 4) (drop (p + 4) b) = [x]" using assms by (cases "nla_len b p") (auto simp: attr_payload_def)
  then obtain r where d: "drop (p + 4) b = x # r" by (metis append_Cons append_take_drop_id)
  then have "p + 4 < length b" by (metis drop_eq_Nil leI list.distinct(1))
  then show ?thesis using nth_via_drop [OF d] by (simp add: libbpf_nla_getattr_u8_def libbpf_nla_data_def NLA_HDRLEN_def rd8_def)
qed

definition set_link_attrs :: "int \<Rightarrow> u32 \<Rightarrow> (nat \<times> byte list) list" where
  "set_link_attrs fd flags = (1, le32 (word_of_int fd)) # (if flags = 0 then [] else [(3, le32 flags)])"

lemma set_link_msg_nested:
  assumes "m = set_link_msg ifindex fd flags seq"
  shows "m = take 36 m @ concat (map enc_attr (set_link_attrs fd flags)) @ []"
    "\<forall>a \<in> set (set_link_attrs fd flags). attr_fits a" "length (take 36 m) = 36"
  using assms by (simp_all add: set_link_msg_def set_link_attrs_def enc_attr_def NLA_ALIGN_def attr_fits_def Let_def le32_def le16_def)

lemma set_link_msg_fields:
  assumes m_def: "m = set_link_msg ifindex fd flags seq"
  shows "length m = (if flags = 0 then 44 else 52)" "rd32 m 0 = Some (of_nat (length m))" "rd16 m 4 = Some RTM_SETLINK"
    "rd32 m 8 = Some seq" "rd32 m 20 = Some (word_of_int ifindex)" "nla_len m 32 = Some (length m - 32)" "nla_type m 32 = Some IFLA_XDP"
proof -
  show len: "length m = (if flags = 0 then 44 else 52)" by (simp add: m_def set_link_msg_def Let_def)
  show "rd32 m 0 = Some (of_nat (length m))"
    unfolding len by (rule rd32_at [of _ "[]" _ "drop 4 m"]) (simp_all add: m_def set_link_msg_def Let_def)
  show "rd16 m 4 = Some RTM_SETLINK"
    by (rule rd16_at [of _ "take 4 m" _ "drop 6 m"]) (simp_all add: m_def set_link_msg_def Let_def RTM_SETLINK_def)
  show "rd32 m 8 = Some seq"
    by (rule rd32_at [of _ "take 8 m" _ "drop 12 m"]) (simp_all add: m_def set_link_msg_def Let_def)
  show "rd32 m 20 = Some (word_of_int ifindex)"
    by (rule rd32_at [of _ "take 20 m" _ "drop 24 m"]) (simp_all add: m_def set_link_msg_def Let_def)
  have "rd16 m 32 = Some (of_nat (length m - 32))"
    unfolding len by (rule rd16_at [of _ "take 32 m" _ "drop 34 m"]) (simp_all add: m_def set_link_msg_def Let_def)
  then show "nla_len m 32 = Some (length m - 32)" by (simp add: nla_len_def len)
  have "rd16 m 34 = Some 0x802B"
    by (rule rd16_at [of _ "take 34 m" _ "drop 36 m"]) (simp_all add: m_def set_link_msg_def Let_def)
  then show "nla_type m 32 = Some IFLA_XDP" by (simp add: nla_type_def NLA_TYPE_MASK_def IFLA_XDP_def)
qed

lemma set_link_outer:
  assumes m_def: "m = set_link_msg ifindex fd flags seq"
  shows "libbpf_nla_parse m (int IFLA_MAX) 32 (int (length m - 32)) None = Some (0, (replicate 52 None)[IFLA_XDP := Some 32])"
proof -
  note f = set_link_msg_fields [OF m_def]
  have a: "NLA_ALIGN (length m - 32) = length m - 32" using f(1) by (simp add: NLA_ALIGN_def)
  have ok: "nla_ok m 32 (int (length m - 32)) = Some True" using f(1,6) by (simp add: nla_ok_True)
  have nx: "nla_next m 32 (int (length m - 32)) = Some (32 + (length m - 32), 0)" unfolding nla_next_def f(6) by (simp add: a)
  have stop: "parse_loop m tb maxtype p 0 None = Some (0, tb)" for tb maxtype p by (simp add: parse_loop.simps nla_ok_def)
  show ?thesis unfolding libbpf_nla_parse_def
    by (subst parse_loop.simps) (simp add: ok nx f(7) stop IFLA_XDP_def IFLA_MAX_def)
qed

text \<open>
  C16. The request that \<open>bpf_set_link_xdp_fd\<close> sends says what it was asked to say. Its length field is
  its length, it is a \<open>RTM_SETLINK\<close> for the interface, and read with libbpf's own parser it has one
  \<open>IFLA_XDP\<close> attribute, in which \<open>IFLA_XDP_FD\<close> is the descriptor and \<open>IFLA_XDP_FLAGS\<close> the flags, absent
  when they are zero.
\<close>

theorem set_link_request_parses:
  "\<exists>m tb xdp_tb. xdp_request ifindex fd flags seq = Some m \<and>
     rd32 m 0 = Some (of_nat (length m)) \<and> rd16 m 4 = Some RTM_SETLINK \<and> rd32 m 8 = Some seq \<and>
     rd32 m 20 = Some (word_of_int ifindex) \<and>
     libbpf_nla_parse m (int IFLA_MAX) 32 (int (length m - 32)) None = Some (0, tb) \<and> tb ! IFLA_XDP = Some 32 \<and>
     libbpf_nla_parse_nested m (int IFLA_XDP_MAX) 32 None = Some (0, xdp_tb) \<and>
     Option.bind (xdp_tb ! IFLA_XDP_FD) (libbpf_nla_getattr_u32 m) = Some (word_of_int fd) \<and>
     Option.bind (xdp_tb ! IFLA_XDP_FLAGS) (libbpf_nla_getattr_u32 m) = (if flags = 0 then None else Some flags)"
proof -
  obtain m where m: "m = set_link_msg ifindex fd flags seq" by simp
  note f = set_link_msg_fields [OF m]
  note nested = set_link_msg_nested [OF m]
  have l: "int (length (concat (map enc_attr (set_link_attrs fd flags)))) = int (length m - 36)"
    using arg_cong [OF nested(1), of length] f(1) by simp
  obtain x where x: "libbpf_nla_parse m (int IFLA_XDP_MAX) 36 (int (length m - 36)) None = Some (0, x)" "length x = 8"
    "\<forall>t < length x. map_option (attr_payload m) (x ! t) = map_of (rev (set_link_attrs fd flags)) t"
    using parse_encoded [OF nested(2,1), of "int IFLA_XDP_MAX"] unfolding nested(3) l by (auto simp: IFLA_XDP_MAX_def)
  have n: "libbpf_nla_parse_nested m (int IFLA_XDP_MAX) 32 None = Some (0, x)"
    using x(1) f(1) unfolding libbpf_nla_parse_nested_def libbpf_nla_len_def f(6)
    by (simp add: libbpf_nla_data_def NLA_HDRLEN_def split: if_splits)
  have fd: "map_option (attr_payload m) (x ! 1) = Some (le32 (word_of_int fd))"
    using x(3) [rule_format, of 1] x(2) by (simp add: set_link_attrs_def)
  have fl: "map_option (attr_payload m) (x ! 3) = (if flags = 0 then None else Some (le32 flags))"
    using x(3) [rule_format, of 3] x(2) by (simp add: set_link_attrs_def)
  have "Option.bind (x ! IFLA_XDP_FD) (libbpf_nla_getattr_u32 m) = Some (word_of_int fd)"
    "Option.bind (x ! IFLA_XDP_FLAGS) (libbpf_nla_getattr_u32 m) = (if flags = 0 then None else Some flags)"
    using fd fl payload_u32 by (auto simp: IFLA_XDP_FD_def IFLA_XDP_FLAGS_def split: if_splits)
  then show ?thesis using n f(2-5) set_link_outer [OF m] xdp_request_bytes [of ifindex fd flags seq, folded m]
    by (simp add: IFLA_XDP_def)
qed

section \<open>The kernel's acknowledgement\<close>

definition ack_msg :: "u32 \<Rightarrow> u32 \<Rightarrow> u16 \<Rightarrow> u32 \<Rightarrow> byte list \<Rightarrow> byte list" where
  "ack_msg pid seq fl e hdr = le32 36 @ le16 NLMSG_ERROR @ le16 fl @ le32 seq @ le32 pid @ le32 e @ hdr"

text \<open>A kernel that opens socket \<open>s\<close> on port \<open>pid\<close>, accepts what is sent and answers with a message.\<close>

definition sockaddr_nl :: "u32 \<Rightarrow> byte list" where
  "sockaddr_nl pid = le16 16 @ le16 0 @ le32 pid @ le32 0"

definition netlink_kernel :: "env \<Rightarrow> int \<Rightarrow> u32 \<Rightarrow> byte list \<Rightarrow> bool" where
  "netlink_kernel env s pid msg \<longleftrightarrow> (\<forall>t.
     rv (answer env t (Sock (Socket 16 3 0))) = s \<and> 0 \<le> rv (answer env t (Sock (Bind_nl s))) \<and>
     0 \<le> rv (answer env t (Sock (Getsockname s))) \<and> rdata (answer env t (Sock (Getsockname s))) = sockaddr_nl pid \<and>
     (\<forall>m. 0 \<le> rv (answer env t (Sock (Send s m)))) \<and>
     rv (answer env t (Sock (Recv s NL_BUFSIZE))) = int (length msg) \<and> rdata (answer env t (Sock (Recv s NL_BUFSIZE))) = msg)"

lemma rd32_pid: "rd32 (sockaddr_nl pid) 4 = Some pid"
  by (rule rd32_at [of _ "le16 16 @ le16 0" _ "le32 0"]) (simp_all add: sockaddr_nl_def)

lemma ack_fields:
  assumes "b = ack_msg pid seq fl e hdr @ rest"
  shows "rd32 b 0 = Some 36" "rd16 b 4 = Some NLMSG_ERROR" "rd16 b 6 = Some fl" "rd32 b 8 = Some seq" "rd32 b 12 = Some pid"
    "rd32 b 16 = Some e"
proof -
  show "rd32 b 0 = Some 36" by (rule rd32_at [of _ "[]" _ "drop 4 b"]) (simp_all add: assms ack_msg_def)
  show "rd16 b 4 = Some NLMSG_ERROR" by (rule rd16_at [of _ "take 4 b" _ "drop 6 b"]) (simp_all add: assms ack_msg_def)
  show "rd16 b 6 = Some fl" by (rule rd16_at [of _ "take 6 b" _ "drop 8 b"]) (simp_all add: assms ack_msg_def)
  show "rd32 b 8 = Some seq" by (rule rd32_at [of _ "take 8 b" _ "drop 12 b"]) (simp_all add: assms ack_msg_def)
  show "rd32 b 12 = Some pid" by (rule rd32_at [of _ "take 12 b" _ "drop 16 b"]) (simp_all add: assms ack_msg_def)
  show "rd32 b 16 = Some e" by (rule rd32_at [of _ "take 16 b" _ "drop 20 b"]) (simp_all add: assms ack_msg_def)
qed

lemma ack_messages:
  assumes b: "b = ack_msg pid seq fl e hdr @ rest" and fl: "fl AND NLM_F_MULTI = 0" "fl AND NLM_F_ACK_TLVS = 0"
  shows "nl_messages fn b pid seq 0 36 False c = Some (if e = 0 then Inr False else Inl (int32 e), c)"
proof -
  note f = ack_fields [OF b]
  have d: "libbpf_nla_dump_errormsg b 0 = Some None" using f(3) fl(2) by (simp add: libbpf_nla_dump_errormsg_def)
  have h: "nl_header b 0 pid seq = Some (if e = 0 then Skip else Ret (int32 e), False)"
    using f d fl(1) by (simp add: nl_header_def NLMSG_HDRLEN_def)
  have ok: "NLMSG_OK b 0 36 = Some True" using f(1) by (simp add: NLMSG_OK_True)
  have nx: "NLMSG_NEXT b 0 36 = Some (36, 0)" using f(1) by (simp add: NLMSG_NEXT_def NLA_ALIGN_def)
  have "nl_messages fn b pid seq 36 0 False c = Some (Inr False, c)" by (simp add: nl_messages.simps NLMSG_OK_def)
  then show ?thesis by (subst nl_messages.simps) (simp add: ok nx h)
qed

lemma call_answer: "call env c w = (rv (answer env (trace w) c), snd (sys env c w))"
  by (simp add: call_def sys_def Let_def)

lemma sys_answer: "fst (sys env c w) = answer env (trace w) c" by (simp add: sys_def Let_def)

lemma trace_sys [simp]: "trace (snd (sys env c w)) = trace w @ [(c, answer env (trace w) c)]" by (simp add: sys_def Let_def)

lemma open_ok:
  assumes "netlink_kernel env s pid msg" "0 \<le> s"
  obtains w' t where "libbpf_netlink_open env w = Some (s, pid, w')" "trace w' = trace w @ t"
    "map fst t = [Sock (Socket 16 3 0), Sock (Setsockopt s SOL_NETLINK 11), Sock (Bind_nl s), Sock (Getsockname s)]"
proof -
  let ?w1 = "snd (sys env (Sock (Socket 16 3 0)) w)"
  let ?w2 = "snd (sys env (Sock (Setsockopt s SOL_NETLINK 11)) ?w1)"
  let ?w3 = "snd (sys env (Sock (Bind_nl s)) ?w2)" and ?c4 = "Sock (Getsockname s)"
  let ?w4 = "snd (sys env ?c4 ?w3)"
  have k: "rv (answer env t (Sock (Socket 16 3 0))) = s" "\<not> rv (answer env t (Sock (Bind_nl s))) < 0" "\<not> rv (answer env t ?c4) < 0"
    "rdata (answer env t ?c4) = sockaddr_nl pid" for t
    using assms(1) by (simp_all add: netlink_kernel_def not_less)
  have "length (sockaddr_nl pid) = 12" by (simp add: sockaddr_nl_def)
  then have "libbpf_netlink_open env w = Some (s, pid, ?w4)"
    using assms(2) by (simp add: k libbpf_netlink_open_def call_answer case_prod_unfold sys_answer rd32_pid not_less Let_def)
  then show thesis by (rule that) (simp, simp)
qed

lemma recv_ack:
  assumes k: "netlink_kernel env s pid (ack_msg pid seq fl e hdr)" "length hdr = 16"
    and fl: "fl AND NLM_F_MULTI = 0" "fl AND NLM_F_ACK_TLVS = 0"
  shows "bpf_netlink_recv env junk s pid seq fn c w = Some (int32 e, c, snd (sys env (Sock (Recv s NL_BUFSIZE)) w))"
proof -
  let ?c = "Sock (Recv s NL_BUFSIZE)"
  have a: "rv (answer env (trace w) ?c) = 36" "rdata (answer env (trace w) ?c) = ack_msg pid seq fl e hdr"
    using k unfolding netlink_kernel_def by (simp_all add: ack_msg_def)
  have "length (ack_msg pid seq fl e hdr) = 36" using k(2) by (simp add: ack_msg_def)
  then have "store_recv (answer env (trace w) ?c) junk = ack_msg pid seq fl e hdr @ drop 36 junk"
    using a by (simp add: store_recv_def)
  from ack_messages [OF this fl, of fn c] show ?thesis
    unfolding bpf_netlink_recv_def by (subst nl_recv_loop.simps) (simp add: case_prod_unfold sys_answer a int32_def)
qed

lemma set_link_exchange:
  assumes "netlink_kernel env s pid (ack_msg pid 1 fl e hdr)" "0 \<le> s" "length hdr = 16"
    and "fl AND NLM_F_MULTI = 0" "fl AND NLM_F_ACK_TLVS = 0"
  shows "\<exists>w' t req. bpf_set_link_xdp_fd env junk ifindex fd flags w = Some (int32 e, w') \<and> trace w' = trace w @ t \<and>
     xdp_request ifindex fd flags 1 = Some req \<and>
     map fst t = [Sock (Socket 16 3 0), Sock (Setsockopt s SOL_NETLINK 11), Sock (Bind_nl s), Sock (Getsockname s),
       Sock (Send s req), Sock (Recv s NL_BUFSIZE), Sock (Close s)]"
proof -
  obtain w1 t where o: "libbpf_netlink_open env w = Some (s, pid, w1)" "trace w1 = trace w @ t"
    "map fst t = [Sock (Socket 16 3 0), Sock (Setsockopt s SOL_NETLINK 11), Sock (Bind_nl s), Sock (Getsockname s)]"
    by (rule open_ok [OF assms(1,2)])
  have send: "0 \<le> rv (answer env (trace w1) (Sock (Send s m)))" for m using assms(1) by (simp add: netlink_kernel_def)
  show ?thesis
    unfolding bpf_set_link_xdp_fd_def xdp_request_bytes
    using o assms(2) send by (simp add: call_answer not_less recv_ack [OF assms(1,3-5)])
qed


definition netlink_env :: env where
  "netlink_env = good_env\<lparr>answer := (\<lambda>t c. case c of
       Sock (Socket d k p) \<Rightarrow> good_reply 3
     | Sock (Getsockname s) \<Rightarrow> (good_reply 0)\<lparr>rdata := sockaddr_nl 77\<rparr>
     | Sock (Recv s n) \<Rightarrow> (good_reply 36)\<lparr>rdata := ack_msg 77 1 0 (-17) (replicate 16 0)\<rparr>
     | _ \<Rightarrow> good_reply 0)\<rparr>"

lemma netlink_env_kernel: "netlink_kernel netlink_env 3 77 (ack_msg 77 1 0 (-17) (replicate 16 0))"
  by (simp add: netlink_kernel_def netlink_env_def good_reply_def) (simp add: ack_msg_def)

lemma netlink_exchange: "\<exists>w'. bpf_set_link_xdp_fd netlink_env [] 2 5 4 init_world = Some (-17, w')"
  using set_link_exchange [OF netlink_env_kernel, where junk = "[]" and ifindex = 2 and fd = 5 and flags = 4 and w = init_world]
  by (auto simp: int32_def)


section \<open>The socket is closed\<close>

definition sets_errno :: "env \<Rightarrow> bool" where
  "sets_errno env \<longleftrightarrow> (\<forall>t c. rv (answer env t c) < 0 \<longrightarrow> 0 < rerr (answer env t c))"

lemma errno_sys: "sets_errno env \<Longrightarrow> sys env c w = (r, w') \<Longrightarrow> rv r < 0 \<Longrightarrow> 0 < errno w'"
  by (auto simp: sets_errno_def sys_def Let_def) (metis less_irrefl)

lemma sys_trace: "sys env c w = (r, w') \<Longrightarrow> trace w' = trace w @ [(c, r)]"
  by (auto simp: sys_def Let_def)

definition neutral :: "sys_call \<Rightarrow> bool" where
  "neutral c \<longleftrightarrow> (case c of Sock (Socket _ _ _) \<Rightarrow> False | Sock (Close _) \<Rightarrow> False | _ \<Rightarrow> True)"

text \<open>A session: the socket is opened, used, and closed; or it could not be opened.\<close>

definition session :: "int \<Rightarrow> (sys_call \<times> reply) list \<Rightarrow> bool" where
  "session ret t \<longleftrightarrow> (\<exists>r. t = [(Sock (Socket 16 3 0), r)] \<and> rv r < 0 \<and> ret < 0) \<or>
     (\<exists>r mid r'. t = (Sock (Socket 16 3 0), r) # mid @ [(Sock (Close (rv r)), r')] \<and> 0 \<le> rv r \<and> (\<forall>cr \<in> set mid. neutral (fst cr)))"

lemma sessionI:
  "t = (Sock (Socket 16 3 0), r) # mid @ [(Sock (Close (rv r)), r')] \<Longrightarrow> 0 \<le> rv r \<Longrightarrow> \<forall>cr \<in> set mid. neutral (fst cr) \<Longrightarrow> session ret t"
  unfolding session_def by blast

definition opened :: "int \<Rightarrow> (sys_call \<times> reply) list \<Rightarrow> bool" where
  "opened s t \<longleftrightarrow> (\<exists>r mid. t = (Sock (Socket 16 3 0), r) # mid \<and> rv r = s \<and> 0 \<le> s \<and> (\<forall>cr \<in> set mid. neutral (fst cr)))"

lemma open_trace:
  assumes "sets_errno env" "libbpf_netlink_open env w = Some (s, pid, w')"
  shows "\<exists>t. trace w' = trace w @ t \<and> (s < 0 \<and> session s t \<or> opened s t)"
proof -
  obtain r1 w1 where 1: "sys env (Sock (Socket 16 3 0)) w = (r1, w1)" by fastforce
  obtain r2 w2 where 2: "sys env (Sock (Setsockopt (rv r1) SOL_NETLINK 11)) w1 = (r2, w2)" by fastforce
  obtain r3 w3 where 3: "sys env (Sock (Bind_nl (rv r1))) w2 = (r3, w3)" by fastforce
  obtain r4 w4 where 4: "sys env (Sock (Getsockname (rv r1))) w3 = (r4, w4)" by fastforce
  obtain r5 w5 where 5: "sys env (Sock (Close (rv r1))) w3 = (r5, w5)" by fastforce
  obtain r6 w6 where 6: "sys env (Sock (Close (rv r1))) w4 = (r6, w6)" by fastforce
  note b = assms(2) [unfolded libbpf_netlink_open_def call_def, simplified 1 2 3 4 5 6 Let_def prod.case, simplified]
  note tr = 1 [THEN sys_trace] 2 [THEN sys_trace] 3 [THEN sys_trace] 4 [THEN sys_trace] 5 [THEN sys_trace] 6 [THEN sys_trace]
  note er = errno_sys [OF assms(1) 1] errno_sys [OF assms(1) 3] errno_sys [OF assms(1) 4]
  consider (failed) "rv r1 < 0" | (bind) "0 \<le> rv r1" "rv r3 < 0" | (name) "0 \<le> rv r1" "\<not> rv r3 < 0" "rv r4 < 0 \<or> length (rdata r4) \<noteq> 12"
    | (ok) "0 \<le> rv r1" "\<not> rv r3 < 0" "\<not> (rv r4 < 0 \<or> length (rdata r4) \<noteq> 12)" by linarith
  then show ?thesis
  proof cases
    case failed then show ?thesis using b tr er by (auto simp: session_def)
  next
    case bind
    then have "s < 0" "trace w' = trace w5" using b er by auto
    then show ?thesis using bind tr 2 3
      by (auto simp: session_def neutral_def intro!: exI [of _ "[(Sock (Setsockopt (rv r1) SOL_NETLINK 11), r2), (Sock (Bind_nl (rv r1)), r3)]"])
  next
    case name
    then have "s < 0" "trace w' = trace w6" using b er by (auto simp: LIBBPF_ERRNO__INTERNAL_def split: if_splits)
    then show ?thesis using name tr
      by (auto simp: session_def neutral_def intro!: exI [of _ "[(Sock (Setsockopt (rv r1) SOL_NETLINK 11), r2), (Sock (Bind_nl (rv r1)), r3), (Sock (Getsockname (rv r1)), r4)]"])
  next
    case ok
    then have "s = rv r1" "w' = w4" using b by (auto split: if_splits)
    then show ?thesis using ok tr by (auto simp: opened_def neutral_def)
  qed
qed

definition calm :: "'a world_scheme \<Rightarrow> 'a world_scheme \<Rightarrow> bool" where
  "calm w w' \<longleftrightarrow> (\<exists>t. trace w' = trace w @ t \<and> (\<forall>cr \<in> set t. neutral (fst cr)))"

lemma calm_trans: "calm w w1 \<Longrightarrow> calm w1 w2 \<Longrightarrow> calm w w2"
  unfolding calm_def by fastforce

lemma calm_sys: "sys env c w = (r, w') \<Longrightarrow> neutral c \<Longrightarrow> calm w w'"
  using sys_trace [of env c w r w'] by (auto simp: calm_def)

lemma recv_loop_calm:
  "nl_recv_loop env sock nl_pid seq fn b c w = Some y \<Longrightarrow> calm w (snd (snd y))"
proof (induction rule: nl_recv_loop.raw_induct [rotated, consumes 1, case_names step])
  case (step loop env sock nl_pid seq fn b c w y)
  obtain r w1 where s: "sys env (Sock (Recv sock NL_BUFSIZE)) w = (r, w1)" by fastforce
  have q: "calm w w1" using calm_sys [OF s] by (simp add: neutral_def)
  show ?case
  proof (cases "rv r \<le> 0")
    case True
    then show ?thesis using step(2) q by (auto simp: s split: if_splits)
  next
    case False
    then obtain o' c' where m: "nl_messages fn (store_recv r b) nl_pid seq 0 (rv r) False c = Some (o', c')"
      using step(2) by (auto simp: s split: option.splits)
    show ?thesis
    proof (cases "o' = Inr True")
      case True
      then have "loop env sock nl_pid seq fn (store_recv r b) c' w1 = Some y" using step(2) False m by (simp add: s)
      then show ?thesis using step(1) q calm_trans by blast
    next
      case F2: False
      then have "snd (snd y) = w1" using step(2) False m by (auto simp: s split: sum.splits if_splits)
      then show ?thesis using q by simp
    qed
  qed
qed

text \<open>
  C15. When \<open>bpf_set_link_xdp_fd\<close> returns, on whatever path and whatever the kernel answered, it has
  opened one socket and closed it as its last call, or it could not open one and returns a
  negative error.
\<close>

theorem set_link_closes_socket:
  assumes "sets_errno env" "bpf_set_link_xdp_fd env junk ifindex fd flags w = Some (ret, w')"
  shows "\<exists>t. trace w' = trace w @ t \<and> session ret t"
proof -
  obtain s pid w1 where o: "libbpf_netlink_open env w = Some (s, pid, w1)"
    using assms(2) by (auto simp: bpf_set_link_xdp_fd_def split: bind_splits)
  obtain t where t: "trace w1 = trace w @ t" "s < 0 \<and> session s t \<or> opened s t" using open_trace [OF assms(1) o] by blast
  show ?thesis
  proof (cases "s < 0")
    case True
    then have "ret = s" "w' = w1" using assms(2) by (simp_all add: bpf_set_link_xdp_fd_def o)
    then show ?thesis using t True by (auto simp: opened_def)
  next
    case False
    then obtain r mid where op: "t = (Sock (Socket 16 3 0), r) # mid" "rv r = s" "0 \<le> s" "\<forall>cr \<in> set mid. neutral (fst cr)"
      using t(2) by (auto simp: opened_def)
    obtain r2 w2 where send: "sys env (Sock (Send s (set_link_msg ifindex fd flags 1))) w1 = (r2, w2)" by fastforce
    obtain w3 where c: "calm w1 w3" and w': "w' = snd (sys env (Sock (Close s)) w3)"
    proof (cases "rv r2 < 0")
      case True
      then show thesis using that [of w2] assms(2) False o send calm_sys [OF send]
        by (simp add: bpf_set_link_xdp_fd_def xdp_request_bytes call_def neutral_def case_prod_unfold Let_def)
    next
      case F2: False
      then obtain y where y: "bpf_netlink_recv env junk s pid 1 None () w2 = Some y" "w' = snd (sys env (Sock (Close s)) (snd (snd y)))"
        using assms(2) False o send
        by (cases "bpf_netlink_recv env junk s pid 1 None () w2")
          (auto simp: bpf_set_link_xdp_fd_def xdp_request_bytes call_def case_prod_unfold Let_def)
      have "calm w1 w2" using calm_sys [OF send] by (simp add: neutral_def)
      then show thesis using that [of "snd (snd y)"] y recv_loop_calm [of env s pid 1 None junk "()" w2 y] calm_trans
        unfolding bpf_netlink_recv_def by blast
    qed
    obtain m2 where m2: "trace w3 = trace w1 @ m2" "\<forall>cr \<in> set m2. neutral (fst cr)" using c by (auto simp: calm_def)
    have "session ret (t @ m2 @ [(Sock (Close s), answer env (trace w3) (Sock (Close s)))])"
      by (rule sessionI [where mid = "mid @ m2"]) (use op m2(2) in auto)
    then show ?thesis using t(1) m2(1) w' by auto
  qed
qed

theorem set_link_closes_socket_witness:
  "\<exists>ret w' t. bpf_set_link_xdp_fd netlink_env [] 2 5 4 init_world = Some (ret, w') \<and> trace w' = [] @ t \<and> session ret t"
proof -
  have "sets_errno netlink_env" by (simp add: sets_errno_def netlink_env_def good_reply_def split: sys_call.splits sock_call.splits)
  moreover obtain w' where r: "bpf_set_link_xdp_fd netlink_env [] 2 5 4 init_world = Some (-17, w')"
    using netlink_exchange by blast
  ultimately show ?thesis using set_link_closes_socket [OF _ r] by (auto simp: init_world_def)
qed

section \<open>Reading the program of an interface\<close>

lemma nested_encoded:
  assumes "attr_payload b p = concat (map enc_attr xs)" "nla_len b p = Some l" "4 \<le> l" "p + l \<le> length b" "\<forall>a \<in> set xs. attr_fits a"
  shows "\<exists>tb. libbpf_nla_parse_nested b maxtype p None = Some (0, tb) \<and> length tb = nat (maxtype + 1) \<and>
     (\<forall>t < length tb. map_option (attr_payload b) (tb ! t) = map_of (rev xs) t)"
proof -
  have pay: "take (l - 4) (drop (p + 4) b) = concat (map enc_attr xs)" using assms(1,2) by (simp add: attr_payload_def)
  have b: "b = take (p + 4) b @ concat (map enc_attr xs) @ drop (l - 4) (drop (p + 4) b)"
    unfolding pay [symmetric] by (simp only: append_take_drop_id)
  have "length (take (p + 4) b) = p + 4" using assms(3,4) by simp
  moreover have "length (concat (map enc_attr xs)) = l - 4" unfolding pay [symmetric] using assms(3,4) by simp
  ultimately show ?thesis using parse_encoded [OF assms(5) b, of maxtype] assms(2,3)
    by (simp add: libbpf_nla_parse_nested_def libbpf_nla_len_def libbpf_nla_data_def NLA_HDRLEN_def of_nat_diff)
qed

text \<open>A message of the kernel's dump: header, \<open>ifinfomsg\<close> with the index, attributes.\<close>

definition link_msg :: "byte list \<Rightarrow> byte list \<Rightarrow> u32 \<Rightarrow> byte list \<Rightarrow> (nat \<times> byte list) list \<Rightarrow> byte list" where
  "link_msg hdr ifi idx ifi' attrs =
     le32 (of_nat (32 + length (concat (map enc_attr attrs)))) @ hdr @ ifi @ le32 idx @ ifi' @ concat (map enc_attr attrs)"

lemma link_msg_parse:
  assumes "\<forall>a \<in> set attrs. attr_fits a" "length hdr = 12" "length ifi = 4" "length ifi' = 8"
    and "32 + length (concat (map enc_attr attrs)) < 2 ^ 32" and b: "b = pre @ link_msg hdr ifi idx ifi' attrs @ post"
  shows "rd32 b (length pre + 20) = Some idx"
    "\<exists>tb. dump_link_nlmsg' fn b (length pre) c = fn b c (length pre + 16) tb \<and> length tb = 52 \<and>
       (\<forall>t < length tb. map_option (attr_payload b) (tb ! t) = map_of (rev attrs) t) \<and>
       (\<forall>t p. t < length tb \<longrightarrow> tb ! t = Some p \<longrightarrow> (\<exists>l. nla_len b p = Some l \<and> 4 \<le> l \<and> p + l \<le> length b))"
proof -
  let ?A = "concat (map enc_attr attrs)"
  show "rd32 b (length pre + 20) = Some idx"
    by (rule rd32_at [of _ "pre @ le32 (of_nat (32 + length ?A)) @ hdr @ ifi" _ "ifi' @ ?A @ post"]) (simp_all add: b link_msg_def assms(2-4))
  have len: "rd32 b (length pre) = Some (of_nat (32 + length ?A))"
    by (rule rd32_at [of _ pre _ "hdr @ ifi @ le32 idx @ ifi' @ ?A @ post"]) (simp_all add: b link_msg_def)
  have un: "unat (of_nat (32 + length ?A) :: u32) = 32 + length ?A"
    using assms(5) by (simp only: unsigned_of_nat) (simp add: take_bit_nat_eq_self)
  then have un': "int (unat (of_nat (32 + length ?A) :: u32)) - 32 = int (length ?A)" by simp
  let ?pre = "pre @ le32 (of_nat (32 + length ?A)) @ hdr @ ifi @ le32 idx @ ifi'"
  have b': "b = ?pre @ ?A @ post" and l: "length ?pre = length pre + 32" by (simp_all add: b link_msg_def assms(2-4))
  obtain tb where tb: "libbpf_nla_parse b (int IFLA_MAX) (length pre + 32) (int (length ?A)) None = Some (0, tb)" "length tb = 52"
    "\<forall>t < length tb. map_option (attr_payload b) (tb ! t) = map_of (rev attrs) t"
    using parse_encoded [OF assms(1) b', of "int IFLA_MAX"] unfolding l by (auto simp: IFLA_MAX_def)
  have "dump_link_nlmsg' fn b (length pre) c = fn b c (length pre + 16) tb"
    using tb(1) [unfolded add.commute [of "length pre" 32]]
    by (simp add: dump_link_nlmsg'_def dump_nlmsg_def len un' NLMSG_HDRLEN_def NLA_ALIGN_def del: of_nat_add of_nat_unat)
  moreover have "\<exists>l. nla_len b p = Some l \<and> 4 \<le> l \<and> p + l \<le> length b" if "t < length tb" "tb ! t = Some p" for t p
  proof -
    have "length pre + 32 + length ?A \<le> length b" using l by (subst b') simp
    then show ?thesis using parse_index [OF tb(1)] that by fastforce
  qed
  ultimately show "\<exists>tb. dump_link_nlmsg' fn b (length pre) c = fn b c (length pre + 16) tb \<and> length tb = 52 \<and>
       (\<forall>t < length tb. map_option (attr_payload b) (tb ! t) = map_of (rev attrs) t) \<and>
       (\<forall>t p. t < length tb \<longrightarrow> tb ! t = Some p \<longrightarrow> (\<exists>l. nla_len b p = Some l \<and> 4 \<le> l \<and> p + l \<le> length b))"
    using tb(2,3) by blast
qed


definition some_xattrs :: "(nat \<times> byte list) list" where "some_xattrs = [(2, [2]), (4, le32 9)]"


text \<open>
  The attributes behind a capped error message are looked for up to 16 bytes behind the end of the
  message: the header is counted in their position, not in their length.
\<close>

lemma errormsg_stream_too_long:
  assumes "rd16 b (nlh + 6) = Some fl" "fl AND NLM_F_ACK_TLVS \<noteq> 0" "fl AND NLM_F_CAPPED \<noteq> 0"
    and "rd32 b nlh = Some tot" "20 \<le> unat tot" "unat tot < 2 ^ 31"
  shows "\<exists>alen. libbpf_nla_dump_errormsg b nlh =
       map_option (\<lambda>(ret, tb). if ret \<noteq> 0 then None else map_option libbpf_nla_data (tb ! NLMSGERR_ATTR_MSG))
         (libbpf_nla_parse b 3 (nlh + 36) alen (Some extack_policy)) \<and>
     int (nlh + 36) + alen = int (nlh + unat tot) + 16"
proof -
  have u: "unat (tot - 20) = unat tot - 20" using assms(5) by (simp add: unat_sub word_le_nat_alt)
  have ui: "uint (tot - 20) = int (unat tot) - 20" unfolding uint_nat u using assms(5) by simp
  have "sint (tot - 20) = int (unat tot) - 20"
    unfolding sint_uint ui using assms(5,6) by (intro signed_take_bit_int_eq_self) (simp_all del: of_nat_unat)
  moreover have "nat (36 + int nlh) = nlh + 36" by simp
  ultimately show ?thesis using assms
    by (intro exI [of _ "int (unat tot) - 20"])
      (auto simp: libbpf_nla_dump_errormsg_def NLMSG_HDRLEN_def NLMSGERR_ATTR_MAX_def int32_def Let_def case_prod_unfold
        split: option.splits bind_splits)
qed

end
