(* ===== verification/Bpf_Tests.thy ===== *)
theory Bpf_Tests
  imports Kern_Progs Launcher Util
begin

unbundle bit_operations_syntax

text \<open>
  The experiments with BPF programs under \<^verbatim>\<open>bpf_test\<close>: an XDP program that answers pings and
  reports them (\<^verbatim>\<open>bpf/xdp_ack_kern.c\<close>), programs that call each other through a table
  (\<^verbatim>\<open>bpf/tail_call_kern.c\<close>) with the program that sets the table up (\<^verbatim>\<open>tail_call.c\<close>), and two programs
  that count packets in a shared map (\<^verbatim>\<open>bpf/xdp_kern.c\<close>, \<^verbatim>\<open>bpf/tc_kern.c\<close>). What is printed is left out.
\<close>

section \<open>Answering pings\<close>

definition IPPROTO_ICMP :: byte where "IPPROTO_ICMP = 1"
definition ICMP_ECHOREPLY :: byte where "ICMP_ECHOREPLY = 0"
definition SIZEOF_ICMPHDR :: nat where "SIZEOF_ICMPHDR = 8"

text \<open>The source address of the Ethernet header is at 6, the addresses of the IPv4 header at 26 and 30.\<close>

definition swap_src_dst_mac :: "byte list \<Rightarrow> byte list option" where
  "swap_src_dst_mac pkt = do {
     let h_tmp = take 6 (drop 6 pkt);
     pkt \<leftarrow> memcpy pkt 6 (take 6 pkt);
     memcpy pkt 0 h_tmp
   }"

definition swap_src_dst_ipv4 :: "byte list \<Rightarrow> byte list option" where
  "swap_src_dst_ipv4 pkt = do {
     let tmp = take 4 (drop 26 pkt);
     pkt \<leftarrow> memcpy pkt 26 (take 4 (drop 30 pkt));
     memcpy pkt 30 tmp
   }"

text \<open>
  The last call passes an address cut down to an \<open>int\<close> to \<open>bpf_xdp_adjust_tail\<close>; what the kernel makes
  of it is the argument \<open>adjust_tail\<close>. The result has the perf event that was asked for, as in
  \<open>xdp_arqin_prog\<close>; whether it was accepted only changes what is printed.
\<close>

definition xdp_ack_prog ::
    "(byte list \<Rightarrow> byte list) \<Rightarrow> byte list \<Rightarrow> (xdp_action \<times> (u64 \<times> arqin_metadata) option \<times> byte list) option" where
  "xdp_ack_prog adjust_tail pkt =
     (if SIZEOF_ETHHDR > length pkt then Some (XDP_PASS, None, pkt)
      else if SIZEOF_ETHHDR + SIZEOF_IPHDR > length pkt then Some (XDP_PASS, None, pkt)
      else do {
        protocol \<leftarrow> ip_protocol pkt;
        if protocol \<noteq> IPPROTO_ICMP then Some (XDP_PASS, None, pkt)
        else if SIZEOF_ETHHDR + SIZEOF_IPHDR + SIZEOF_ICMPHDR > length pkt then Some (XDP_PASS, None, pkt)
        else do {
          let metadata = \<lparr>cookie = 0xdead, pkt_len = of_nat (length pkt)\<rparr>;
          let flags = BPF_F_CURRENT_CPU OR push_bit 32 (ucast (pkt_len metadata));
          pkt \<leftarrow> swap_src_dst_mac pkt;
          pkt \<leftarrow> swap_src_dst_ipv4 pkt;
          pkt \<leftarrow> memcpy pkt (SIZEOF_ETHHDR + SIZEOF_IPHDR) [ICMP_ECHOREPLY];
          Some (XDP_TX, Some (flags, metadata), adjust_tail pkt)
        }
      })"

section \<open>Tail calls\<close>

datatype tail_prog = Xdp_entry_point | Xdp_1 | Xdp_5

text \<open>
  \<open>bpf_tail_call\<close> jumps if the table has a program there and the kernel's limit on nested tail calls
  is not used up; otherwise it returns. The result has the programs that ran.
\<close>

fun run_tail :: "nat \<Rightarrow> (nat \<Rightarrow> tail_prog option) \<Rightarrow> tail_prog \<Rightarrow> byte list \<Rightarrow> xdp_action \<times> tail_prog list" where
  "run_tail n table Xdp_entry_point pkt =
     (if SIZEOF_ETHHDR > length pkt then (XDP_ABORTED, [Xdp_entry_point])
      else (case (n, table 1) of
              (Suc m, Some p) \<Rightarrow> (let (a, ps) = run_tail m table p pkt in (a, Xdp_entry_point # ps))
            | _ \<Rightarrow> (XDP_PASS, [Xdp_entry_point])))"
| "run_tail n table Xdp_1 pkt =
     (case (n, table 5) of
        (Suc m, Some p) \<Rightarrow> (let (a, ps) = run_tail m table p pkt in (a, Xdp_1 # ps))
      | _ \<Rightarrow> (XDP_PASS, [Xdp_1]))"
| "run_tail n table Xdp_5 pkt = (XDP_PASS, [Xdp_5])"

section \<open>The program that sets up the table\<close>

text \<open>\<open>exit(code)\<close> is \<open>Inl code\<close>; the main program ends in an endless loop, \<open>Inr\<close> with its globals.\<close>

definition EXIT_FAIL_MAP :: int where "EXIT_FAIL_MAP = 20"
definition EXIT_FAILURE :: int where "EXIT_FAILURE = 1"

definition jmp_table_add_prog :: "env \<Rightarrow> int \<Rightarrow> u32 \<Rightarrow> int \<Rightarrow> 'a world_scheme \<Rightarrow> (int + unit) \<times> 'a world_scheme" where
  "jmp_table_add_prog env table idx bpf_prog_fd w =
     (if bpf_prog_fd = 0 then (Inl EXIT_FAIL_MAP, w)
      else let (err, w) = call env (Bpf (Map_update32 table idx bpf_prog_fd)) w
      in if err \<noteq> 0 then (Inl EXIT_FAIL_MAP, w) else (Inr (), w))"

definition extract_prog_fd :: "env \<Rightarrow> int \<Rightarrow> string \<Rightarrow> int + int" where
  "extract_prog_fd env obj progsec =
     (let bpf_prog = find_program_by_title env progsec (obj_programs env obj)
      in if bpf_prog = 0 then Inl EXIT_FAIL_BPF
         else let prog_fd = prog_fd_of env bpf_prog
         in if prog_fd \<le> 0 then Inl EXIT_FAIL_BPF else Inr prog_fd)"

definition extract_map_fd :: "env \<Rightarrow> int \<Rightarrow> string \<Rightarrow> int + int" where
  "extract_map_fd env obj mapname =
     (let map_fd = bpf_map__fd env (find_map_by_name env mapname (obj_maps env obj))
      in if map_fd < 0 then Inl EXIT_FAILURE else Inr map_fd)"

text \<open>The static \<open>prog_id\<close> is never assigned, because \<open>do_attach\<close> is commented out: it is 0.\<close>

definition tail_do_detach :: "env \<Rightarrow> u32 \<Rightarrow> int \<Rightarrow> 'a world_scheme \<Rightarrow> int \<times> 'a world_scheme" where
  "tail_do_detach env prog_id idx w =
     (let (r, w) = sys env (Bpf (Get_link_xdp_id idx 0)) w;
          curr_prog_id = get32 (rdata r) 0
      in if rv r \<noteq> 0 then (rv r, w)
         else if prog_id = curr_prog_id then call env (Bpf (Set_link_xdp_fd idx (-1) 0)) w
         else (0, w))"

definition tail_int_exit :: "env \<Rightarrow> int \<Rightarrow> 'a world_scheme \<Rightarrow> int \<times> 'a world_scheme" where
  "tail_int_exit env ifindex w =
     (EXIT_OK, if ifindex > -1 then snd (tail_do_detach env 0 ifindex w) else w)"

text \<open>The table is filled; the interface is \<^verbatim>\<open>ens33\<close>, and its index is not checked.\<close>

definition tail_attach :: "env \<Rightarrow> int \<Rightarrow> 'a world_scheme \<Rightarrow> (int + int) \<times> 'a world_scheme" where
  "tail_attach env prog_xdp_main w =
     (let (ifindex, w) = call env (Sock (If_nametoindex ''ens33'')) w;
          (err, w) = xdp_link_attach env ifindex XDP_FLAGS_UPDATE_IF_NOEXIST prog_xdp_main w
      in if err \<noteq> 0 then (Inl EXIT_FAIL_XDP, w) else (Inr ifindex, w))"

definition tail_call_main :: "env \<Rightarrow> 'a world_scheme \<Rightarrow> (int + int) \<times> 'a world_scheme" where
  "tail_call_main env w =
     (let (r, w) = sys env (Bpf (Prog_load_xattr ''./bpf/tail_call_kern.o'' 0)) w
      in if rv r \<noteq> 0 then (Inl EXIT_FAIL_BPF, w)
         else let obj = obj_of r
         in case extract_prog_fd env obj ''xdp_entry_point'' of Inl e \<Rightarrow> (Inl e, w)
         | Inr prog_xdp_main \<Rightarrow>
        (case extract_prog_fd env obj ''xdp_1'' of Inl e \<Rightarrow> (Inl e, w)
         | Inr prog_xdp_1 \<Rightarrow>
        (case extract_prog_fd env obj ''xdp_5'' of Inl e \<Rightarrow> (Inl e, w)
         | Inr prog_xdp_5 \<Rightarrow>
        (case extract_map_fd env obj ''jmp_table1'' of Inl e \<Rightarrow> (Inl e, w)
         | Inr jmp_table1 \<Rightarrow>
           (let (r, w) = jmp_table_add_prog env jmp_table1 1 prog_xdp_1 w
            in case r of Inl e \<Rightarrow> (Inl e, w)
            | Inr _ \<Rightarrow>
              (let (r, w) = jmp_table_add_prog env jmp_table1 5 prog_xdp_5 w
               in case r of Inl e \<Rightarrow> (Inl e, w) | Inr _ \<Rightarrow> tail_attach env prog_xdp_main w))))))"

section \<open>Counting in a shared map\<close>

record bpf_count =
  xdp_cnt :: u32
  tc_cnt :: u32
  tot_cnt :: u32

text \<open>\<open>None\<close> is a map without the entry.\<close>

definition xdp_count_prog :: "bpf_count option \<Rightarrow> xdp_action \<times> bpf_count option" where
  "xdp_count_prog m =
     (case m of None \<Rightarrow> (XDP_ABORTED, None)
      | Some cnt \<Rightarrow> (XDP_DROP, Some (cnt\<lparr>xdp_cnt := xdp_cnt cnt + 1\<rparr>)))"

definition tc_count_prog :: "bpf_count option \<Rightarrow> int \<times> bpf_count option" where
  "tc_count_prog m =
     (case m of None \<Rightarrow> (TC_ACT_OK, None)
      | Some cnt \<Rightarrow>
          (let cnt = cnt\<lparr>tc_cnt := tc_cnt cnt + 1\<rparr>
           in (TC_ACT_OK, Some (cnt\<lparr>tot_cnt := xdp_cnt cnt + tc_cnt cnt\<rparr>))))"

section \<open>What the programs do\<close>

definition is_ping :: "byte list \<Rightarrow> bool" where
  "is_ping pkt \<longleftrightarrow> 42 \<le> length pkt \<and> pkt ! 23 = IPPROTO_ICMP"

definition ack_packet :: "byte list \<Rightarrow> byte list" where
  "ack_packet pkt = take 6 (drop 6 pkt) @ take 6 pkt @ take 14 (drop 12 pkt) @ take 4 (drop 30 pkt) @ take 4 (drop 26 pkt) @
     [ICMP_ECHOREPLY] @ drop 35 pkt"

lemma split_packet:
  assumes "42 \<le> length pkt"
  obtains dm sm mid sa da t rest where "pkt = dm @ sm @ mid @ sa @ da @ t # rest" "length dm = 6" "length sm = 6" "length mid = 14"
    "length sa = 4" "length da = 4" "7 \<le> length rest"
proof -
  have "pkt = take 6 pkt @ take 6 (drop 6 pkt) @ take 14 (drop 12 pkt) @ take 4 (drop 26 pkt) @ take 4 (drop 30 pkt) @ drop 34 pkt"
    using append_take_drop_id [of 6 "drop 6 pkt"] append_take_drop_id [of 14 "drop 12 pkt"]
      append_take_drop_id [of 4 "drop 26 pkt"] append_take_drop_id [of 4 "drop 30 pkt"] by simp
  moreover obtain t rest where r: "drop 34 pkt = t # rest" using assms by (cases "drop 34 pkt") auto
  moreover have "7 \<le> length rest" using assms arg_cong [OF r, of length] unfolding length_drop by simp
  ultimately show thesis using that [of "take 6 pkt" "take 6 (drop 6 pkt)" "take 14 (drop 12 pkt)" "take 4 (drop 26 pkt)" "take 4 (drop 30 pkt)" t rest]
    assms by simp
qed

lemma swap_both:
  assumes "pkt = dm @ sm @ mid @ sa @ da @ t # rest" "length dm = 6" "length sm = 6" "length mid = 14" "length sa = 4" "length da = 4"
  shows "Option.bind (swap_src_dst_mac pkt) swap_src_dst_ipv4 = Some (sm @ dm @ mid @ da @ sa @ t # rest)"
  using assms(2-) by (simp add: assms(1) swap_src_dst_mac_def swap_src_dst_ipv4_def memcpy_def)

lemma ack_cases:
  "xdp_ack_prog adj pkt = Some (if is_ping pkt
     then (XDP_TX, Some (BPF_F_CURRENT_CPU OR push_bit 32 (ucast (of_nat (length pkt) :: u16)),
             \<lparr>cookie = 0xdead, pkt_len = of_nat (length pkt)\<rparr>), adj (ack_packet pkt))
     else (XDP_PASS, None, pkt))"
proof (cases "is_ping pkt")
  case True
  then have l: "42 \<le> length pkt" "pkt ! 23 = IPPROTO_ICMP" by (simp_all add: is_ping_def)
  obtain dm sm mid sa da t rest where s: "pkt = dm @ sm @ mid @ sa @ da @ t # rest" "length dm = 6" "length sm = 6" "length mid = 14"
    "length sa = 4" "length da = 4" "7 \<le> length rest" by (rule split_packet [OF l(1)])
  have a: "ack_packet pkt = sm @ dm @ mid @ da @ sa @ ICMP_ECHOREPLY # rest" using s by (simp add: ack_packet_def)
  have sw: "Option.bind (swap_src_dst_mac pkt) (\<lambda>p. Option.bind (swap_src_dst_ipv4 p) f) = f (sm @ dm @ mid @ da @ sa @ t # rest)" for f
    using swap_both [OF s(1-6)] by (cases "swap_src_dst_mac pkt") simp_all
  show ?thesis
    using l True s(2-7) a by (simp add: sw xdp_ack_prog_def ip_protocol_some kern_sizes SIZEOF_ICMPHDR_def Let_def memcpy_def)
qed (auto simp: xdp_ack_prog_def ip_protocol_some is_ping_def kern_sizes SIZEOF_ICMPHDR_def not_less)

lemma words16_pair: "length a = 4 \<Longrightarrow> length b = 4 \<Longrightarrow> sum_list (words16 (a @ b)) = sum_list (words16 (b @ a))"
  by (simp add: words16_append)

text \<open>
  The ping program passes on everything but ICMP packets with a complete header. Such a packet goes back
  with its Ethernet and its IPv4 addresses swapped and the ICMP type of a reply, nothing else
  changed, and is reported with its length; the checksum of its IPv4 header stays what it was.
\<close>

lemma ping_answered:
  "xdp_ack_prog id pkt = Some (if is_ping pkt
     then (XDP_TX, Some (BPF_F_CURRENT_CPU OR push_bit 32 (ucast (of_nat (length pkt) :: u16)),
             \<lparr>cookie = 0xdead, pkt_len = of_nat (length pkt)\<rparr>), ack_packet pkt)
     else (XDP_PASS, None, pkt)) \<and>
   (is_ping pkt \<longrightarrow> length (ack_packet pkt) = length pkt \<and>
     checksum (take 20 (drop 14 (ack_packet pkt))) 20 = checksum (take 20 (drop 14 pkt)) 20)"
proof (intro conjI impI)
  assume "is_ping pkt"
  then have l: "42 \<le> length pkt" by (simp add: is_ping_def)
  obtain dm sm mid sa da t rest where s: "pkt = dm @ sm @ mid @ sa @ da @ t # rest" "length dm = 6" "length sm = 6" "length mid = 14"
    "length sa = 4" "length da = 4" "7 \<le> length rest" by (rule split_packet [OF l])
  have a: "ack_packet pkt = sm @ dm @ mid @ da @ sa @ ICMP_ECHOREPLY # rest" using s by (simp add: ack_packet_def)
  show "length (ack_packet pkt) = length pkt" using s a by simp
  let ?m = "drop 2 mid"
  have h: "take 20 (drop 14 pkt) = ?m @ sa @ da" "take 20 (drop 14 (ack_packet pkt)) = ?m @ da @ sa" using s a by simp_all
  have len: "length (?m @ sa @ da) = 20" "length (?m @ da @ sa) = 20" using s by simp_all
  have "sum_list (words16 (?m @ da @ sa)) = sum_list (words16 (?m @ sa @ da))" using s by (simp add: words16_append)
  moreover obtain c where "checksum (?m @ da @ sa) 20 = Some c" "unat c = 65535 - oc_norm (sum_list (words16 (?m @ da @ sa)))"
    using checksum_value [of "?m @ da @ sa", unfolded len] by auto
  moreover obtain c' where "checksum (?m @ sa @ da) 20 = Some c'" "unat c' = 65535 - oc_norm (sum_list (words16 (?m @ sa @ da)))"
    using checksum_value [of "?m @ sa @ da", unfolded len] by auto
  ultimately have "checksum (?m @ da @ sa) 20 = checksum (?m @ sa @ da) 20" using unsigned_word_eqI [of c c', where ?'a = nat] by simp
  then show "checksum (take 20 (drop 14 (ack_packet pkt))) 20 = checksum (take 20 (drop 14 pkt)) 20" unfolding h .
qed (use ack_cases [of id pkt] in simp)

text \<open>
  Whatever programs are in the table, even one that calls itself, a packet gets a verdict after at most one
  program more than the kernel's limit: it is passed on if it has an Ethernet header. With
  the table that the set-up program fills, the three programs run in turn.
\<close>

lemma tail_calls_end:
  "fst (run_tail n table Xdp_entry_point pkt) = (if length pkt < 14 then XDP_ABORTED else XDP_PASS) \<and>
   length (snd (run_tail n table p pkt)) \<le> Suc n \<and>
   snd (run_tail (n + 2) [1 \<mapsto> Xdp_1, 5 \<mapsto> Xdp_5] Xdp_entry_point pkt) =
     (if length pkt < 14 then [Xdp_entry_point] else [Xdp_entry_point, Xdp_1, Xdp_5])"
proof (intro conjI)
  have pass: "fst (run_tail n table p pkt) = XDP_PASS" if "14 \<le> length pkt" for n p
    using that by (induction n table p pkt rule: run_tail.induct) (auto simp: kern_sizes split: nat.splits option.splits prod.splits)
  then show "fst (run_tail n table Xdp_entry_point pkt) = (if length pkt < 14 then XDP_ABORTED else XDP_PASS)"
    by (cases "length pkt < 14") (auto simp: kern_sizes case_prod_unfold split: nat.split option.split)
  show "length (snd (run_tail n table p pkt)) \<le> Suc n"
    by (induction n table p pkt rule: run_tail.induct) (auto split: nat.splits option.splits prod.splits)
  show "snd (run_tail (n + 2) [1 \<mapsto> Xdp_1, 5 \<mapsto> Xdp_5] Xdp_entry_point pkt) =
     (if length pkt < 14 then [Xdp_entry_point] else [Xdp_entry_point, Xdp_1, Xdp_5])"
    by (simp add: kern_sizes)
qed

section \<open>Setting up\<close>

lemma jmp_table_calls:
  assumes "jmp_table_add_prog env table idx fd w = (Inr (), w')"
  shows "fd \<noteq> 0 \<and> (\<exists>r. trace w' = trace w @ [(Bpf (Map_update32 table idx fd), r)] \<and> rv r = 0)"
  using assms call_effect [of env "Bpf (Map_update32 table idx fd)" w]
  by (auto simp: jmp_table_add_prog_def split: if_splits prod.splits)

lemma extract_prog_pos: "extract_prog_fd env obj t = Inr fd \<Longrightarrow> 0 < fd"
  by (auto simp: extract_prog_fd_def Let_def split: if_splits)

text \<open>
  When the set-up program reaches its loop it has written both entries of the jump table, with valid descriptors
  and before the entry program was attached, so that no packet meets a half-filled table.
\<close>

lemma tail_table_before_attach:
  assumes "tail_call_main env w = (Inr ifindex, w')"
  shows "\<exists>table p1 p5 t. trace w' = trace w @ t \<and> 0 < p1 \<and> 0 < p5 \<and>
     take 4 (map fst t) = [Bpf (Prog_load_xattr ''./bpf/tail_call_kern.o'' 0), Bpf (Map_update32 table 1 p1),
       Bpf (Map_update32 table 5 p5), Sock (If_nametoindex ''ens33'')] \<and>
     rv (snd (t ! 1)) = 0 \<and> rv (snd (t ! 2)) = 0"
proof -
  obtain r w1 where l: "sys env (Bpf (Prog_load_xattr ''./bpf/tail_call_kern.o'' 0)) w = (r, w1)" by fastforce
  note main = assms [unfolded tail_call_main_def l prod.case Let_def]
  obtain p0 p1 p5 table where x: "rv r = 0" "extract_prog_fd env (obj_of r) ''xdp_entry_point'' = Inr p0"
    "extract_prog_fd env (obj_of r) ''xdp_1'' = Inr p1" "extract_prog_fd env (obj_of r) ''xdp_5'' = Inr p5"
    "extract_map_fd env (obj_of r) ''jmp_table1'' = Inr table"
    using main by (auto split: if_splits sum.splits)
  obtain w2 where 1: "jmp_table_add_prog env table 1 p1 w1 = (Inr (), w2)"
    using main x by (auto split: sum.splits prod.splits)
  obtain w3 where 2: "jmp_table_add_prog env table 5 p5 w2 = (Inr (), w3)"
    using main x 1 by (auto split: sum.splits prod.splits)
  have at: "tail_attach env p0 w3 = (Inr ifindex, w')" using main x 1 2 by simp
  obtain v w4 where n: "call env (Sock (If_nametoindex ''ens33'')) w3 = (v, w4)" by fastforce
  obtain e w5 where k: "xdp_link_attach env v XDP_FLAGS_UPDATE_IF_NOEXIST p0 w4 = (e, w5)" by fastforce
  have "w5 = w'" using at by (simp add: tail_attach_def n k split: if_splits)
  moreover have "\<exists>t. trace w5 = trace w4 @ t"
    using k call_effect [of env "Bpf (Set_link_xdp_fd v p0 XDP_FLAGS_UPDATE_IF_NOEXIST)" w4]
    by (auto simp: xdp_link_attach_def XDP_FLAGS_UPDATE_IF_NOEXIST_def split: prod.splits if_splits)
  ultimately obtain t where t: "trace w' = trace w4 @ t" by blast
  obtain rn where "trace w4 = trace w3 @ [(Sock (If_nametoindex ''ens33''), rn)]" using call_effect [OF n] by blast
  moreover note jmp_table_calls [OF 1] jmp_table_calls [OF 2] sys_effect [OF l] extract_prog_pos [OF x(3)] extract_prog_pos [OF x(4)]
  ultimately show ?thesis unfolding t by auto
qed

definition tail_env :: env where
  "tail_env = good_env\<lparr>answer := (\<lambda>t c. case c of
       Bpf (Prog_load_xattr f i) \<Rightarrow> (good_reply 0)\<lparr>rdata := [1, 0, 0, 0]\<rparr>
     | Sock (If_nametoindex s) \<Rightarrow> good_reply 2
     | _ \<Rightarrow> good_reply 0),
   obj_programs := (\<lambda>ob. [5, 6, 7]), prog_title := (\<lambda>p. if p = 5 then ''xdp_entry_point'' else if p = 6 then ''xdp_1'' else ''xdp_5''),
   map_name := (\<lambda>m. ''jmp_table1'')\<rparr>"

lemma tail_env_run: "\<exists>w'. tail_call_main tail_env init_world = (Inr 2, w')"
  by (simp add: tail_call_main_def tail_env_def sys_def call_def good_reply_def extract_prog_fd_def extract_map_fd_def
      jmp_table_add_prog_def tail_attach_def xdp_link_attach_def XDP_FLAGS_UPDATE_IF_NOEXIST_def EEXIST_def EXIT_OK_def
      bpf_map__fd_def obj_of_def good_env_def init_world_def Let_def case_prod_unfold)

text \<open>
  The interrupt handler compares the identifier of the attached program with one that was never set, so it only
  ever detaches when nothing is attached.
\<close>

lemma interrupt_leaves_program:
  assumes "\<forall>t. rv (answer env t (Bpf (Get_link_xdp_id i 0))) = 0 \<and> get32 (rdata (answer env t (Bpf (Get_link_xdp_id i 0)))) 0 \<noteq> 0"
  shows "\<exists>r. trace (snd (tail_int_exit env i w)) = trace w @ r \<and> set (map fst r) \<subseteq> {Bpf (Get_link_xdp_id i 0)}"
  using assms by (auto simp: tail_int_exit_def tail_do_detach_def sys_def Let_def)

section \<open>Counting\<close>

datatype count_event = Ev_xdp | Ev_tc

fun count_run :: "count_event list \<Rightarrow> bpf_count option \<Rightarrow> bpf_count option" where
  "count_run [] m = m"
| "count_run (Ev_xdp # es) m = count_run es (snd (xdp_count_prog m))"
| "count_run (Ev_tc # es) m = count_run es (snd (tc_count_prog m))"

lemma count_run_append: "count_run (es @ fs) m = count_run fs (count_run es m)"
  by (induction es m rule: count_run.induct) auto

definition zero_count :: bpf_count where "zero_count = \<lparr>xdp_cnt = 0, tc_cnt = 0, tot_cnt = 0\<rparr>"

text \<open>
  The shared entry counts the packets of both hooks for any interleaving, modulo \<open>2\<close> to the power
  32; the total is the one at the last packet that the TC program saw, and lags behind
  after XDP packets.
\<close>

lemma counters_exact:
  "\<exists>c. count_run es (Some zero_count) = Some c \<and>
     xdp_cnt c = of_nat (length (filter (\<lambda>e. e = Ev_xdp) es)) \<and> tc_cnt c = of_nat (length (filter (\<lambda>e. e = Ev_tc) es)) \<and>
     tot_cnt c = of_nat (length (dropWhile (\<lambda>e. e = Ev_xdp) (rev es)))"
proof (induction es rule: rev_induct)
  case (snoc e es)
  obtain c where c: "count_run es (Some zero_count) = Some c" "xdp_cnt c = of_nat (length (filter (\<lambda>e. e = Ev_xdp) es))"
    "tc_cnt c = of_nat (length (filter (\<lambda>e. e = Ev_tc) es))" "tot_cnt c = of_nat (length (dropWhile (\<lambda>e. e = Ev_xdp) (rev es)))"
    using snoc.IH by blast
  have "length es = length (filter (\<lambda>e. e = Ev_xdp) es) + length (filter (\<lambda>e. e = Ev_tc) es)"
    by (induction es) (auto split: count_event.splits, metis count_event.exhaust)
  then show ?case using c by (cases e) (auto simp: count_run_append xdp_count_prog_def tc_count_prog_def Let_def)
qed (simp add: zero_count_def)

end
