(* ===== verification/Shared_Map.thy ===== *)
theory Shared_Map
  imports Bpf_Tests
begin

text \<open>
  \<^verbatim>\<open>bpf_test/shared_map.c\<close>: a TC program and an XDP program that share a pinned map. The program makes
  sure that the BPF file system is mounted, puts the TC program on a device with commands, loads
  the XDP program with the pinned map as replacement for its own, reads the counters until that fails,
  and takes both programs off. What is printed is left out.
\<close>

section \<open>The BPF file system\<close>

definition SM_ENOMEM :: int where "SM_ENOMEM = 12"
definition EACCES :: int where "EACCES = 13"
definition EMEDIUMTYPE :: int where "EMEDIUMTYPE = 124"
definition BPF_FS_MAGIC :: u64 where "BPF_FS_MAGIC = 0xcafe4a11"
definition FILEMODE :: int where "FILEMODE = 7 * 64 + 5 * 8 + 5"
definition BPF_DIR_MNT :: string where "BPF_DIR_MNT = ''/sys/fs/bpf''"
definition BASEDIR_MAPS :: string where "BASEDIR_MAPS = ''/sys/fs/bpf/tc/globals''"
definition mapfile_map_shared :: string where "mapfile_map_shared = BASEDIR_MAPS @ ''/map_shared''"
definition EXIT_FAIL_MAP_FS :: int where "EXIT_FAIL_MAP_FS = 23"

text \<open>The function of the C library, on the characters of a path.\<close>

definition strip_slashes :: "string \<Rightarrow> string" where
  "strip_slashes s = rev (dropWhile (\<lambda>c. c = CHR ''/'') (rev s))"

definition dirname :: "string \<Rightarrow> string" where
  "dirname path =
     (let d = strip_slashes (rev (dropWhile (\<lambda>c. c \<noteq> CHR ''/'') (rev (strip_slashes path))))
      in if d \<noteq> [] then d else if take 1 path = ''/'' then ''/'' else ''.'')"

text \<open>A null path is \<^term>\<open>None\<close>. The copy made by \<open>strdup\<close> is only cut by \<open>dirname\<close> and given back.\<close>

definition bpf_fs_check_path :: "env \<Rightarrow> string option \<Rightarrow> 'a world_scheme \<Rightarrow> (int \<times> 'a world_scheme) option" where
  "bpf_fs_check_path env path w =
     (case path of None \<Rightarrow> Some (- EINVAL, w)
      | Some path \<Rightarrow>
          (let (dname, w) = c_malloc env (Suc (length path)) w
           in if dname = 0 then Some (- SM_ENOMEM, w)
              else let dir = dirname path;
                       (r, w) = sys env (Sock (Statfs dir)) w;
                       err = (if rv r \<noteq> 0 then - errno w else 0)
              in do {
                w \<leftarrow> c_free dname w;
                if err = 0 \<and> get64 (rdata r) 0 \<noteq> BPF_FS_MAGIC then Some (- EMEDIUMTYPE, w) else Some (err, w)
              }))"

definition bpf_fs_subdir_check_and_fix :: "env \<Rightarrow> string \<Rightarrow> 'a world_scheme \<Rightarrow> int \<times> 'a world_scheme" where
  "bpf_fs_subdir_check_and_fix env dir w =
     (let (err, w) = call env (Sock (Access dir)) w
      in if err \<noteq> 0
         then if errno w = EACCES then (-1, w)
              else let (err, w) = call env (Sock (Mkdir dir FILEMODE)) w
                   in if err \<noteq> 0 then (-1, w) else (err, w)
         else (err, w))"

definition bpf_fs_check :: "env \<Rightarrow> 'a world_scheme \<Rightarrow> (int \<times> 'a world_scheme) option" where
  "bpf_fs_check env w = bpf_fs_check_path env (Some (BPF_DIR_MNT @ ''/some_file'')) w"

text \<open>\<open>did_mkdir\<close> and an early return of the first step.\<close>

definition fs_fix_mount_point :: "env \<Rightarrow> int \<Rightarrow> 'a world_scheme \<Rightarrow> (int + bool) \<times> 'a world_scheme" where
  "fs_fix_mount_point env err w =
     (if err \<noteq> 0
      then let (ret, w) = call env (Sock (Stat BPF_DIR_MNT)) w
           in if ret \<noteq> 0
              then let (ret, w) = call env (Sock (Mkdir BPF_DIR_MNT FILEMODE)) w
                   in if ret \<noteq> 0 then (Inl ret, w) else (Inr True, w)
              else (Inr False, w)
      else (Inr False, w))"

definition fs_fix_subdirs :: "env \<Rightarrow> 'a world_scheme \<Rightarrow> int \<times> 'a world_scheme" where
  "fs_fix_subdirs env w =
     (let (err, w) = bpf_fs_subdir_check_and_fix env (BPF_DIR_MNT @ ''/tc'') w
      in if err \<noteq> 0 then (err, w)
         else let (err, w) = bpf_fs_subdir_check_and_fix env (BPF_DIR_MNT @ ''/tc/globals'') w
         in if err \<noteq> 0 then (err, w) else (0, w))"

definition bpf_fs_check_and_fix :: "env \<Rightarrow> 'a world_scheme \<Rightarrow> (int \<times> 'a world_scheme) option" where
  "bpf_fs_check_and_fix env w = do {
     (err, w) \<leftarrow> bpf_fs_check_path env (Some (BPF_DIR_MNT @ ''/some_file'')) w;
     let (fixed, w) = fs_fix_mount_point env err w;
     case fixed of
       Inl ret \<Rightarrow> Some (ret, w)
     | Inr did_mkdir \<Rightarrow>
         if err = - EMEDIUMTYPE \<or> did_mkdir
         then let (e, w) = call env (Sock (Mount ''bpf'' BPF_DIR_MNT ''bpf'')) w
              in if e \<noteq> 0 then Some (-1, w) else Some (fs_fix_subdirs env w)
         else Some (fs_fix_subdirs env w)
   }"

definition open_pinned_map_file :: "env \<Rightarrow> string \<Rightarrow> 'a world_scheme \<Rightarrow> int \<times> 'a world_scheme" where
  "open_pinned_map_file env file w = call env (Bpf (Obj_get file)) w"

section \<open>The TC program\<close>

definition tc_ingress_cmd :: "string \<Rightarrow> string \<Rightarrow> string \<Rightarrow> string" where
  "tc_ingress_cmd dev bpf_obj sec_name = tc_cmd @ '' filter add dev '' @ dev @ '' '' @
     ''ingress prio 1 handle 1 bpf da obj '' @ bpf_obj @ '' sec '' @ sec_name"

text \<open>\<open>Inl\<close> is an exit of the program.\<close>

definition tc_ingress_attach_bpf ::
    "env \<Rightarrow> string \<Rightarrow> string \<Rightarrow> string \<Rightarrow> 'a world_scheme \<Rightarrow> (int + int) \<times> 'a world_scheme" where
  "tc_ingress_attach_bpf env dev bpf_obj sec_name w =
     (let (ret, w) = call env (Sock (System (snprintf CMD_MAX (tc_del_cmd dev)))) w
      in if \<not> WIFEXITED ret then (Inl EXIT_FAILURE, w)
         else let (ret, w) = call env (Sock (System (snprintf CMD_MAX (tc_add_cmd dev)))) w
         in if ret \<noteq> 0 then (Inl EXIT_FAILURE, w)
         else let (ret, w) = call env (Sock (System (snprintf CMD_MAX (tc_ingress_cmd dev bpf_obj sec_name)))) w
         in if ret \<noteq> 0 then (Inl EXIT_FAILURE, w) else (Inr ret, w))"

text \<open>The command names the egress filters.\<close>

definition tc_remove_ingress_filter :: "env \<Rightarrow> string \<Rightarrow> 'a world_scheme \<Rightarrow> (int + int) \<times> 'a world_scheme" where
  "tc_remove_ingress_filter env dev w =
     (let (ret, w) = call env (Sock (System (snprintf CMD_MAX (tc_remove_cmd dev)))) w
      in if ret \<noteq> 0 then (Inl EXIT_FAILURE, w) else (Inr ret, w))"

section \<open>Loading with pinned maps\<close>

record bpf_pinned_map =
  pin_name :: string
  pin_filename :: string
  pin_fd :: int

text \<open>\<open>nr_pinned_maps\<close> is the length of the list; a null file name is \<^term>\<open>None\<close>; \<open>ifindex\<close> is not used.\<close>

record bpf_prog_load_attr_maps =
  attr_file :: "string option"
  attr_prog_type :: int
  attr_expected_attach_type :: int
  pinned_maps :: "bpf_pinned_map list"

text \<open>The last entry of that name wins.\<close>

fun last_pin_fd :: "string \<Rightarrow> bpf_pinned_map list \<Rightarrow> int \<Rightarrow> int" where
  "last_pin_fd mapname [] map_fd = map_fd"
| "last_pin_fd mapname (p # ps) map_fd = last_pin_fd mapname ps (if mapname \<noteq> pin_name p then map_fd else pin_fd p)"

definition find_map_fd_by_name :: "env \<Rightarrow> int \<Rightarrow> string \<Rightarrow> bpf_prog_load_attr_maps \<Rightarrow> int" where
  "find_map_fd_by_name env obj mapname attr =
     (let map_fd = bpf_map__fd env (find_map_by_name env mapname (obj_maps env obj))
      in if map_fd > 0 then map_fd else last_pin_fd mapname (pinned_maps attr) map_fd)"

fun prepare_programs :: "env \<Rightarrow> int \<Rightarrow> int \<Rightarrow> int list \<Rightarrow> 'a world_scheme \<Rightarrow> 'a world_scheme" where
  "prepare_programs env ty at [] w = w"
| "prepare_programs env ty at (p # ps) w =
     (let (_, w) = call env (Bpf (Set_prog_type p ty)) w;
          (_, w) = call env (Bpf (Set_attach_type p at)) w
      in prepare_programs env ty at ps w)"

text \<open>Before loading: a map takes the descriptor of the file it is pinned to, if that can be opened.\<close>

fun reuse_pins :: "env \<Rightarrow> int \<Rightarrow> bpf_pinned_map list \<Rightarrow> 'a world_scheme \<Rightarrow> bpf_pinned_map list \<times> 'a world_scheme" where
  "reuse_pins env m [] w = ([], w)"
| "reuse_pins env m (p # ps) w =
     (if map_name env m \<noteq> pin_name p then let (ps, w) = reuse_pins env m ps w in (p # ps, w)
      else let (fd, w) = call env (Bpf (Obj_get (pin_filename p))) w
      in if fd > 0
         then let (_, w) = call env (Bpf (Map_reuse_fd m fd)) w;
                  (ps, w) = reuse_pins env m ps w
              in (p\<lparr>pin_fd := fd\<rparr> # ps, w)
         else let (ps, w) = reuse_pins env m ps w in (p # ps, w))"

text \<open>After loading: what was not opened is pinned.\<close>

fun make_pins :: "env \<Rightarrow> int \<Rightarrow> bpf_pinned_map list \<Rightarrow> 'a world_scheme \<Rightarrow> bpf_pinned_map list \<times> 'a world_scheme" where
  "make_pins env m [] w = ([], w)"
| "make_pins env m (p # ps) w =
     (if map_name env m \<noteq> pin_name p \<or> pin_fd p \<noteq> -1 then let (ps, w) = make_pins env m ps w in (p # ps, w)
      else let (err, w) = call env (Bpf (Map_pin m (pin_filename p))) w
      in if err \<noteq> 0 then let (ps, w) = make_pins env m ps w in (p # ps, w)
         else let (ps, w) = make_pins env m ps w in (p\<lparr>pin_fd := map_fd_of env m\<rparr> # ps, w))"

fun for_maps :: "(int \<Rightarrow> bpf_pinned_map list \<Rightarrow> 'w \<Rightarrow> bpf_pinned_map list \<times> 'w) \<Rightarrow> int list \<Rightarrow>
    bpf_pinned_map list \<Rightarrow> 'w \<Rightarrow> bpf_pinned_map list \<times> 'w" where
  "for_maps f [] ps w = (ps, w)"
| "for_maps f (m # ms) ps w = (let (ps, w) = f m ps w in for_maps f ms ps w)"

text \<open>The result is \<open>Inl\<close> an error, or \<open>Inr\<close> the object and the descriptor of its first program.\<close>

definition bpf_prog_load_xattr_maps ::
    "env \<Rightarrow> bpf_prog_load_attr_maps \<Rightarrow> 'a world_scheme \<Rightarrow> (int + int \<times> int) \<times> bpf_prog_load_attr_maps \<times> 'a world_scheme" where
  "bpf_prog_load_xattr_maps env attr w =
     (case attr_file attr of None \<Rightarrow> (Inl (- EINVAL), attr, w)
      | Some file \<Rightarrow>
     (let (obj, w) = call env (Bpf (Object_open_xattr file)) w
      in if IS_ERR_OR_NULL obj then (Inl (- ENOENT), attr, w)
         else let w = prepare_programs env (attr_prog_type attr) (attr_expected_attach_type attr) (obj_programs env obj) w;
                  ps = map (\<lambda>p. p\<lparr>pin_fd := -1\<rparr>) (pinned_maps attr);
                  (ps, w) = for_maps (reuse_pins env) (obj_maps env obj) ps w
         in (case obj_programs env obj of
               [] \<Rightarrow> let (_, w) = call env (Bpf (Object_close obj)) w in (Inl (- ENOENT), attr\<lparr>pinned_maps := ps\<rparr>, w)
             | first_prog # _ \<Rightarrow>
                 let (err, w) = call env (Bpf (Object_load obj)) w
                 in if err \<noteq> 0
                    then let (_, w) = call env (Bpf (Object_close obj)) w in (Inl (- EINVAL), attr\<lparr>pinned_maps := ps\<rparr>, w)
                    else let (ps, w) = for_maps (make_pins env) (obj_maps env obj) ps w
                    in (Inr (obj, prog_fd_of env first_prog), attr\<lparr>pinned_maps := ps\<rparr>, w))))"

section \<open>The program\<close>

definition remove_xdp_program :: "env \<Rightarrow> int \<Rightarrow> u32 \<Rightarrow> 'a world_scheme \<Rightarrow> 'a world_scheme" where
  "remove_xdp_program env ifindex xdp_flags w =
     (if ifindex > -1 then snd (call env (Bpf (Set_link_xdp_fd ifindex (-1) xdp_flags)) w) else w)"

partial_function (option) read_counters :: "env \<Rightarrow> int \<Rightarrow> 'a world_scheme \<Rightarrow> 'a world_scheme option" where
  "read_counters env map_fd w =
     (let (err, w) = call env (Bpf (Map_lookup map_fd [0, 0, 0, 0])) w
      in if err < 0 then Some w else read_counters env map_fd w)"

definition sm_remove_xdp :: "env \<Rightarrow> int \<Rightarrow> 'a world_scheme \<Rightarrow> int \<times> 'a world_scheme" where
  "sm_remove_xdp env ifindex w = (0, remove_xdp_program env ifindex XDP_FLAGS_SKB_MODE w)"

definition sm_remove_tc :: "env \<Rightarrow> int \<Rightarrow> 'a world_scheme \<Rightarrow> int \<times> 'a world_scheme" where
  "sm_remove_tc env ifindex w =
     (let (ret, w) = tc_remove_ingress_filter env ''ens33'' w
      in case ret of Inl e \<Rightarrow> (e, w) | Inr _ \<Rightarrow> sm_remove_xdp env ifindex w)"

text \<open>From the point where the map is initialised. The descriptor of the pin has no value yet, and is given one before it is read.\<close>

definition sm_attr :: bpf_prog_load_attr_maps where
  "sm_attr = \<lparr>attr_file = Some ''./bpf/xdp_kern.o'', attr_prog_type = BPF_PROG_TYPE_XDP, attr_expected_attach_type = 0,
     pinned_maps = [\<lparr>pin_name = ''map_shared'', pin_filename = mapfile_map_shared, pin_fd = 0\<rparr>]\<rparr>"

definition sm_run_xdp :: "env \<Rightarrow> int \<Rightarrow> 'a world_scheme \<Rightarrow> (int \<times> 'a world_scheme) option" where
  "sm_run_xdp env map_shared_fd w =
     (let (ifindex, w) = call env (Sock (If_nametoindex ''ens33'')) w
      in if ifindex = 0 then Some (-1, w)
         else let (loaded, attr, w) = bpf_prog_load_xattr_maps env sm_attr w
         in case loaded of Inl _ \<Rightarrow> Some (sm_remove_tc env ifindex w)
         | Inr (xdp_obj, prog_fd) \<Rightarrow>
             if find_map_fd_by_name env xdp_obj ''map_shared'' attr < 0 then Some (sm_remove_tc env ifindex w)
             else let (err, w) = call env (Bpf (Set_link_xdp_fd ifindex prog_fd XDP_FLAGS_SKB_MODE)) w
             in if err < 0 then Some (sm_remove_xdp env ifindex w)
                else do {
                  w \<leftarrow> read_counters env map_shared_fd w;
                  Some (sm_remove_tc env ifindex w)
                })"

text \<open>The exit status. The shared entry is cleared only if the map was not there before.\<close>

definition shared_map_main :: "env \<Rightarrow> 'a world_scheme \<Rightarrow> (int \<times> 'a world_scheme) option" where
  "shared_map_main env w = do {
     (err, w) \<leftarrow> bpf_fs_check_and_fix env w;
     if err \<noteq> 0 then Some (EXIT_FAIL_MAP_FS, w)
     else let (map_shared_fd, w) = open_pinned_map_file env mapfile_map_shared w;
              (att, w) = tc_ingress_attach_bpf env ''ens33'' ''./bpf/tc_kern.o'' ''tc_count'' w
     in case att of Inl e \<Rightarrow> Some (e, w)
     | Inr err \<Rightarrow>
         if err \<noteq> 0 then Some (err, w)
         else if map_shared_fd < 0
         then let (map_shared_fd, w) = open_pinned_map_file env mapfile_map_shared w;
                  (err, w) = call env (Bpf (Map_update_elem map_shared_fd [0, 0, 0, 0] (replicate 12 0) 0)) w
              in if err \<noteq> 0 then Some (-1, w) else sm_run_xdp env map_shared_fd w
         else sm_run_xdp env map_shared_fd w
   }"

section \<open>The kernel's side of the file system\<close>

text \<open>
  The mount point, whether a BPF file system is mounted there, and the directories below. A new
  BPF file system is empty. A directory is made if the one above it is there and it is not.
\<close>

record bpf_mount =
  mnt_exists :: bool
  mnt_bpf :: bool
  mnt_dirs :: "string set"

definition fs_reply :: "bpf_mount \<Rightarrow> sock_call \<Rightarrow> int \<times> int \<times> byte list" where
  "fs_reply s c = (case c of
       Statfs p \<Rightarrow> if p = BPF_DIR_MNT \<and> mnt_exists s
         then (0, 0, if mnt_bpf s then [0x11, 0x4a, 0xfe, 0xca, 0, 0, 0, 0] else [0x94, 0x19, 0x02, 0x01, 0, 0, 0, 0])
         else (-1, ENOENT, [])
     | Stat p \<Rightarrow> if p = BPF_DIR_MNT \<and> mnt_exists s then (0, 0, []) else (-1, ENOENT, [])
     | Access p \<Rightarrow> if p \<in> mnt_dirs s then (0, 0, []) else (-1, ENOENT, [])
     | Mkdir p mode \<Rightarrow> if p = BPF_DIR_MNT then (if mnt_exists s then (-1, EEXIST, []) else (0, 0, []))
         else if p \<in> mnt_dirs s then (-1, EEXIST, [])
         else if mnt_exists s \<and> (dirname p = BPF_DIR_MNT \<or> dirname p \<in> mnt_dirs s) then (0, 0, []) else (-1, ENOENT, [])
     | _ \<Rightarrow> if mnt_exists s then (0, 0, []) else (-1, ENOENT, []))"

definition fs_next :: "bpf_mount \<Rightarrow> sock_call \<Rightarrow> bpf_mount" where
  "fs_next s c = (if fst (fs_reply s c) \<noteq> 0 then s else case c of
       Mkdir p mode \<Rightarrow> if p = BPF_DIR_MNT then s\<lparr>mnt_exists := True\<rparr> else s\<lparr>mnt_dirs := insert p (mnt_dirs s)\<rparr>
     | Mount src p ty \<Rightarrow> s\<lparr>mnt_bpf := True, mnt_dirs := {}\<rparr>
     | _ \<Rightarrow> s)"

definition fs_call :: "sock_call \<Rightarrow> bool" where
  "fs_call c = (case c of Statfs p \<Rightarrow> True | Stat p \<Rightarrow> True | Access p \<Rightarrow> True | Mkdir p mode \<Rightarrow> True
     | Mount src p ty \<Rightarrow> p = BPF_DIR_MNT | _ \<Rightarrow> False)"

fun fs_after :: "bpf_mount \<Rightarrow> (sys_call \<times> reply) list \<Rightarrow> bpf_mount" where
  "fs_after s [] = s"
| "fs_after s ((Sock c, r) # t) = fs_after (if fs_call c then fs_next s c else s) t"
| "fs_after s (_ # t) = fs_after s t"

definition fs_kernel :: "env \<Rightarrow> bpf_mount \<Rightarrow> bool" where
  "fs_kernel env s \<longleftrightarrow> (\<forall>t c. fs_call c \<longrightarrow>
     (let r = answer env t (Sock c) in (rv r, rerr r, rdata r) = fs_reply (fs_after s t) c))"

lemma fs_after_append: "fs_after s (t @ u) = fs_after (fs_after s t) u"
  by (induction s t rule: fs_after.induct) auto

lemma fs_sys:
  assumes "fs_kernel env s0" and "sys env (Sock c) w = (r, w')" and "fs_call c"
  shows "(rv r, rerr r, rdata r) = fs_reply (fs_after s0 (trace w)) c \<and>
    fs_after s0 (trace w') = fs_next (fs_after s0 (trace w)) c \<and> calls w' = calls w @ [Sock c] \<and>
    errno w' = (if rerr r = 0 then errno w else rerr r) \<and> heap w' = heap w \<and> fresh w' = fresh w"
proof -
  have r: "r = answer env (trace w) (Sock c)" using assms(2) by (simp add: sys_def Let_def)
  have "(rv r, rerr r, rdata r) = fs_reply (fs_after s0 (trace w)) c"
    using assms(1,3) unfolding fs_kernel_def r Let_def by blast
  then show ?thesis using assms(2,3) by (auto simp: sys_def Let_def fs_after_append calls_def)
qed

lemma fs_sys_call:
  assumes "fs_kernel env s0" and "call env (Sock c) w = (v, w')" and "fs_call c"
  shows "v = fst (fs_reply (fs_after s0 (trace w)) c) \<and> fs_after s0 (trace w') = fs_next (fs_after s0 (trace w)) c \<and>
    calls w' = calls w @ [Sock c] \<and> heap w' = heap w \<and> fresh w' = fresh w \<and>
    errno w' = (let e = fst (snd (fs_reply (fs_after s0 (trace w)) c)) in if e = 0 then errno w else e)"
proof -
  obtain r where r: "sys env (Sock c) w = (r, w')" "v = rv r" using assms(2) by (auto simp: call_def split: prod.splits)
  show ?thesis using fs_sys [OF assms(1) r(1) assms(3)] r(2)
    by (cases "fs_reply (fs_after s0 (trace w)) c") (simp add: Let_def)
qed

lemma fs_dirnames:
  "dirname (BPF_DIR_MNT @ ''/some_file'') = BPF_DIR_MNT" "dirname (BPF_DIR_MNT @ ''/tc'') = BPF_DIR_MNT"
  "dirname (BPF_DIR_MNT @ ''/tc/globals'') = BPF_DIR_MNT @ ''/tc''"
  by (simp_all add: dirname_def strip_slashes_def BPF_DIR_MNT_def Let_def)

lemma fs_magic: "get64 [0x11, 0x4a, 0xfe, 0xca, 0, 0, 0, 0] 0 = BPF_FS_MAGIC" "get64 [0x94, 0x19, 0x02, 0x01, 0, 0, 0, 0] 0 \<noteq> BPF_FS_MAGIC"
  by (simp_all add: get64_def get32_def BPF_FS_MAGIC_def Let_def)

text \<open>One directory.\<close>

lemma subdir_made:
  assumes "fs_kernel env s0" and "mnt_exists (fs_after s0 (trace w))" and "d \<noteq> BPF_DIR_MNT"
    and "dirname d = BPF_DIR_MNT \<or> dirname d \<in> mnt_dirs (fs_after s0 (trace w))"
    and "bpf_fs_subdir_check_and_fix env d w = (e, w')"
  shows "e = 0 \<and> heap w' = heap w \<and> fresh w' = fresh w \<and>
    fs_after s0 (trace w') = (fs_after s0 (trace w))\<lparr>mnt_dirs := insert d (mnt_dirs (fs_after s0 (trace w)))\<rparr> \<and>
    calls w' = calls w @ Sock (Access d) # (if d \<in> mnt_dirs (fs_after s0 (trace w)) then [] else [Sock (Mkdir d FILEMODE)])"
proof -
  let ?s = "fs_after s0 (trace w)"
  obtain v1 w1 where c1: "call env (Sock (Access d)) w = (v1, w1)" by fastforce
  obtain v2 w2 where c2: "call env (Sock (Mkdir d FILEMODE)) w1 = (v2, w2)" by fastforce
  have "fs_call (Access d)" "fs_call (Mkdir d FILEMODE)" by (simp_all add: fs_call_def)
  note a = fs_sys_call [OF assms(1) c1 this(1)] fs_sys_call [OF assms(1) c2 this(2)]
  have "fs_after s0 (trace w1) = ?s" using a(1) by (simp add: fs_next_def)
  then show ?thesis
    using a assms(2-) by (cases "d \<in> mnt_dirs ?s")
      (auto simp: bpf_fs_subdir_check_and_fix_def c1 c2 fs_reply_def fs_next_def ENOENT_def EACCES_def insert_absorb)
qed

text \<open>The question what is mounted, and the two directories.\<close>

lemma fs_checked:
  assumes "fs_kernel env s0" and "\<forall>t n. rv (answer env t (Malloc n)) \<noteq> 0" and "heap_ok w" and "dirname p = BPF_DIR_MNT"
  obtains w' where "bpf_fs_check_path env (Some p) w =
      Some (if \<not> mnt_exists (fs_after s0 (trace w)) then - ENOENT
            else if \<not> mnt_bpf (fs_after s0 (trace w)) then - EMEDIUMTYPE else 0, w')"
    "fs_after s0 (trace w') = fs_after s0 (trace w)" "heap w' = heap w" "fresh w \<le> fresh w'"
    "calls w' = calls w @ [Malloc (Suc (length p)), Sock (Statfs BPF_DIR_MNT)]"
proof -
  let ?s = "fs_after s0 (trace w)"
  obtain q w1 where m: "c_malloc env (Suc (length p)) w = (q, w1)" by fastforce
  obtain bs r0 where w1: "q = Suc (fresh w)" "heap w1 = (heap w)(q \<mapsto> bs)" "fresh w1 = q"
    "trace w1 = trace w @ [(Malloc (Suc (length p)), r0)]"
  proof -
    have nz: "rv (answer env (trace w) (Malloc (Suc (length p)))) \<noteq> 0" using assms(2) by blast
    show thesis using m nz by (intro that) (auto simp: c_malloc_def sys_def new_block_def Let_def)
  qed
  obtain r w2 where c: "sys env (Sock (Statfs BPF_DIR_MNT)) w1 = (r, w2)" by fastforce
  have s1: "fs_after s0 (trace w1) = ?s" by (simp add: w1 fs_after_append)
  have "fs_call (Statfs BPF_DIR_MNT)" by (simp add: fs_call_def)
  note st = fs_sys [OF assms(1) c this, unfolded s1]
  have free: "heap w q = None" using assms(3) w1(1) unfolding heap_ok_def by (metis Suc_n_not_le_n domIff)
  have fr: "c_free q w2 = Some (w2\<lparr>heap := heap w\<rparr>)"
    using st w1 free by (simp add: c_free_def fun_upd_idem)
  have val: "bpf_fs_check_path env (Some p) w =
      Some (if \<not> mnt_exists ?s then - ENOENT else if \<not> mnt_bpf ?s then - EMEDIUMTYPE else 0, w2\<lparr>heap := heap w\<rparr>)"
  proof -
    have q: "(q = 0) = False" using w1(1) by simp
    have "bpf_fs_check_path env (Some p) w = (let err = (if rv r \<noteq> 0 then - errno w2 else 0)
      in if err = 0 \<and> get64 (rdata r) 0 \<noteq> BPF_FS_MAGIC then Some (- EMEDIUMTYPE, w2\<lparr>heap := heap w\<rparr>) else Some (err, w2\<lparr>heap := heap w\<rparr>))"
      by (simp only: bpf_fs_check_path_def m c assms(4) fr q option.case prod.case Let_def if_False bind.bind_lunit)
    then show ?thesis
      using st by (cases "mnt_exists ?s"; cases "mnt_bpf ?s") (simp_all add: fs_reply_def fs_magic ENOENT_def)
  qed
  have cw: "calls w2 = calls w @ [Malloc (Suc (length p)), Sock (Statfs BPF_DIR_MNT)]"
    using st w1(4) by (simp add: calls_def)
  have sw: "fs_after s0 (trace w2) = ?s" using st by (simp add: fs_next_def)
  have "fresh w2 = fresh w1" using sys_effect [OF c] by blast
  then show thesis
    using w1(1,3) cw sw by (intro that [OF val]) (simp_all add: calls_def)
qed

lemma tc_dirs_made:
  assumes "fs_kernel env s0" and "mnt_exists (fs_after s0 (trace w))" and "fs_fix_subdirs env w = (e, w')"
  shows "e = 0 \<and> heap w' = heap w \<and> fresh w' = fresh w \<and>
    fs_after s0 (trace w') = (fs_after s0 (trace w))\<lparr>mnt_dirs := {BPF_DIR_MNT @ ''/tc'', BPF_DIR_MNT @ ''/tc/globals''} \<union>
      mnt_dirs (fs_after s0 (trace w))\<rparr> \<and>
    ({BPF_DIR_MNT @ ''/tc'', BPF_DIR_MNT @ ''/tc/globals''} \<subseteq> mnt_dirs (fs_after s0 (trace w)) \<longrightarrow>
     calls w' = calls w @ [Sock (Access (BPF_DIR_MNT @ ''/tc'')), Sock (Access (BPF_DIR_MNT @ ''/tc/globals''))])"
proof -
  obtain e1 w1 where c1: "bpf_fs_subdir_check_and_fix env (BPF_DIR_MNT @ ''/tc'') w = (e1, w1)" by fastforce
  obtain e2 w2 where c2: "bpf_fs_subdir_check_and_fix env (BPF_DIR_MNT @ ''/tc/globals'') w1 = (e2, w2)" by fastforce
  have a: "e1 = 0 \<and> heap w1 = heap w \<and> fresh w1 = fresh w \<and>
    fs_after s0 (trace w1) = (fs_after s0 (trace w))\<lparr>mnt_dirs := insert (BPF_DIR_MNT @ ''/tc'') (mnt_dirs (fs_after s0 (trace w)))\<rparr> \<and>
    calls w1 = calls w @ Sock (Access (BPF_DIR_MNT @ ''/tc'')) #
      (if BPF_DIR_MNT @ ''/tc'' \<in> mnt_dirs (fs_after s0 (trace w)) then [] else [Sock (Mkdir (BPF_DIR_MNT @ ''/tc'') FILEMODE)])"
    by (rule subdir_made [OF assms(1,2) _ _ c1]) (simp_all add: fs_dirnames)
  have b: "e2 = 0 \<and> heap w2 = heap w1 \<and> fresh w2 = fresh w1 \<and>
    fs_after s0 (trace w2) = (fs_after s0 (trace w1))\<lparr>mnt_dirs := insert (BPF_DIR_MNT @ ''/tc/globals'') (mnt_dirs (fs_after s0 (trace w1)))\<rparr> \<and>
    calls w2 = calls w1 @ Sock (Access (BPF_DIR_MNT @ ''/tc/globals'')) #
      (if BPF_DIR_MNT @ ''/tc/globals'' \<in> mnt_dirs (fs_after s0 (trace w1)) then [] else [Sock (Mkdir (BPF_DIR_MNT @ ''/tc/globals'') FILEMODE)])"
    by (rule subdir_made [OF assms(1) _ _ _ c2]) (use a assms(2) in \<open>simp_all add: fs_dirnames\<close>)
  show ?thesis using assms(3) a b by (auto simp: fs_fix_subdirs_def c1 c2 insert_commute)
qed

text \<open>What the directories should be.\<close>

definition pins_ready :: "bpf_mount \<Rightarrow> bpf_mount" where
  "pins_ready s = \<lparr>mnt_exists = True, mnt_bpf = True, mnt_dirs = {BPF_DIR_MNT @ ''/tc'', BPF_DIR_MNT @ ''/tc/globals''} \<union>
     (if mnt_exists s \<and> mnt_bpf s then mnt_dirs s else {})\<rparr>"

lemma fs_prepared:
  assumes "fs_kernel env s0" and "\<forall>t n. rv (answer env t (Malloc n)) \<noteq> 0" and "heap_ok w"
  obtains w' where "bpf_fs_check_and_fix env w = Some (0, w')" "heap w' = heap w" "heap_ok w'"
    "fs_after s0 (trace w') = pins_ready (fs_after s0 (trace w))"
    "fs_after s0 (trace w) = pins_ready (fs_after s0 (trace w)) \<Longrightarrow>
     calls w' = calls w @ [Malloc (Suc (length (BPF_DIR_MNT @ ''/some_file''))), Sock (Statfs BPF_DIR_MNT),
       Sock (Access (BPF_DIR_MNT @ ''/tc'')), Sock (Access (BPF_DIR_MNT @ ''/tc/globals''))]"
proof -
  let ?s = "fs_after s0 (trace w)"
  obtain w1 where c: "bpf_fs_check_path env (Some (BPF_DIR_MNT @ ''/some_file'')) w =
      Some (if \<not> mnt_exists ?s then - ENOENT else if \<not> mnt_bpf ?s then - EMEDIUMTYPE else 0, w1)"
    "fs_after s0 (trace w1) = ?s" "heap w1 = heap w" "fresh w \<le> fresh w1"
    "calls w1 = calls w @ [Malloc (Suc (length (BPF_DIR_MNT @ ''/some_file''))), Sock (Statfs BPF_DIR_MNT)]"
    by (rule fs_checked [OF assms fs_dirnames(1)])
  obtain v2 w2 where c2: "call env (Sock (Stat BPF_DIR_MNT)) w1 = (v2, w2)" by fastforce
  obtain v3 w3 where c3: "call env (Sock (Mkdir BPF_DIR_MNT FILEMODE)) w2 = (v3, w3)" by fastforce
  let ?wm = "if mnt_exists ?s then w2 else w3"
  obtain v4 w4 where c4: "call env (Sock (Mount ''bpf'' BPF_DIR_MNT ''bpf'')) ?wm = (v4, w4)" by fastforce
  have f: "fs_call (Stat p)" "fs_call (Mkdir p m)" "fs_call (Mount a BPF_DIR_MNT b)" for p m a b by (simp_all add: fs_call_def)
  note st = fs_sys_call [OF assms(1) c2 f(1), unfolded c(2)]
  note mk = fs_sys_call [OF assms(1) c3 f(2)]
  have s2: "fs_after s0 (trace w2) = ?s" using st by (simp add: fs_next_def)
  have s3: "fs_after s0 (trace w3) = ?s\<lparr>mnt_exists := True\<rparr>" using mk s2 by (simp add: fs_next_def fs_reply_def)
  note mt = fs_sys_call [OF assms(1) c4 f(3)]
  have s4: "fs_after s0 (trace w4) = ?s\<lparr>mnt_exists := True, mnt_bpf := True, mnt_dirs := {}\<rparr>" "v4 = 0"
    using mt s2 s3 by (auto simp: fs_next_def fs_reply_def)
  let ?wd = "if mnt_exists ?s \<and> mnt_bpf ?s then w1 else w4"
  obtain e w' where d: "fs_fix_subdirs env ?wd = (e, w')" by fastforce
  have sd: "mnt_exists (fs_after s0 (trace ?wd))" using s4(1) c(2) by simp
  note fin = tc_dirs_made [OF assms(1) sd d]
  have hf: "heap ?wd = heap w" "fresh w \<le> fresh ?wd" using st mk mt c(3,4) by (auto split: if_splits)
  have codes: "ENOENT \<noteq> 0" "EMEDIUMTYPE \<noteq> 0" "ENOENT \<noteq> EMEDIUMTYPE" by (simp_all add: ENOENT_def EMEDIUMTYPE_def)
  have e: "e = 0" using fin by blast
  have v2: "v2 = 0 \<longleftrightarrow> mnt_exists ?s" using st by (simp add: fs_reply_def)
  have v3: "\<not> mnt_exists ?s \<Longrightarrow> v3 = 0" using mk s2 by (simp add: fs_reply_def)
  have v: "bpf_fs_check_and_fix env w = Some (0, w')"
  proof (cases "mnt_exists ?s")
    case True
    then show ?thesis
      using d c4 codes by (cases "mnt_bpf ?s") (simp_all add: bpf_fs_check_and_fix_def c(1) fs_fix_mount_point_def c2 v2 s4(2) e)
  next
    case False
    then show ?thesis
      using d c4 codes by (simp add: bpf_fs_check_and_fix_def c(1) fs_fix_mount_point_def c2 v2 c3 v3 s4(2) e)
  qed
  show thesis
  proof (rule that [OF v])
    show "heap w' = heap w" using fin hf by simp
    have "heap w' = heap w" "fresh w \<le> fresh w'" using fin hf by simp_all
    then show "heap_ok w'" using assms(3) unfolding heap_ok_def by (metis le_trans)
    show "fs_after s0 (trace w') = pins_ready ?s"
      using fin s4(1) c(2) by (cases "mnt_exists ?s \<and> mnt_bpf ?s") (auto simp: pins_ready_def)
  next
    assume r: "?s = pins_ready ?s"
    have "mnt_exists ?s" by (subst r) (simp add: pins_ready_def)
    moreover have "mnt_bpf ?s" by (subst r) (simp add: pins_ready_def)
    moreover have "{BPF_DIR_MNT @ ''/tc'', BPF_DIR_MNT @ ''/tc/globals''} \<subseteq> mnt_dirs ?s"
      by (subst r) (simp add: pins_ready_def)
    ultimately show "calls w' = calls w @ [Malloc (Suc (length (BPF_DIR_MNT @ ''/some_file''))), Sock (Statfs BPF_DIR_MNT),
       Sock (Access (BPF_DIR_MNT @ ''/tc'')), Sock (Access (BPF_DIR_MNT @ ''/tc/globals''))]"
      using fin c(2,5) by simp
  qed
qed

text \<open>
  C37. On a kernel that follows the rules above and has memory, the preparation succeeds from every state:
  the BPF file system is mounted, the two directories for the pinned maps are in it, what a
  mounted file system already held is kept, and no memory stays allocated. A second run finds everything in
  place and only looks.
\<close>

theorem pin_directories_prepared:
  assumes "fs_kernel env s0" and "\<forall>t n. rv (answer env t (Malloc n)) \<noteq> 0" and "heap_ok w"
  shows "\<exists>w1 w2. bpf_fs_check_and_fix env w = Some (0, w1) \<and> heap w1 = heap w \<and>
     fs_after s0 (trace w1) = pins_ready (fs_after s0 (trace w)) \<and>
     bpf_fs_check_and_fix env w1 = Some (0, w2) \<and> fs_after s0 (trace w2) = fs_after s0 (trace w1) \<and>
     calls w2 = calls w1 @ [Malloc 22, Sock (Statfs ''/sys/fs/bpf''), Sock (Access ''/sys/fs/bpf/tc''), Sock (Access ''/sys/fs/bpf/tc/globals'')]"
proof -
  have again: "pins_ready (pins_ready s) = pins_ready s" for s by (auto simp: pins_ready_def)
  obtain w1 where 1: "bpf_fs_check_and_fix env w = Some (0, w1)" "heap w1 = heap w" "heap_ok w1"
    "fs_after s0 (trace w1) = pins_ready (fs_after s0 (trace w))" by (rule fs_prepared [OF assms])
  obtain w2 where 2: "bpf_fs_check_and_fix env w1 = Some (0, w2)"
    "fs_after s0 (trace w2) = pins_ready (fs_after s0 (trace w1))"
    "fs_after s0 (trace w1) = pins_ready (fs_after s0 (trace w1)) \<Longrightarrow>
     calls w2 = calls w1 @ [Malloc (Suc (length (BPF_DIR_MNT @ ''/some_file''))), Sock (Statfs BPF_DIR_MNT),
       Sock (Access (BPF_DIR_MNT @ ''/tc'')), Sock (Access (BPF_DIR_MNT @ ''/tc/globals''))]"
    by (rule fs_prepared [OF assms(1,2) 1(3)], rule that, assumption+)
  have r: "fs_after s0 (trace w1) = pins_ready (fs_after s0 (trace w1))" by (simp only: 1(4) again)
  show ?thesis using 1 2(1) 2(2) [folded r] 2(3) [OF r] by (simp add: BPF_DIR_MNT_def)
qed

definition fs_env :: "bpf_mount \<Rightarrow> env" where
  "fs_env s = good_env\<lparr>answer := (\<lambda>t c. case c of
       Sock k \<Rightarrow> (case fs_reply (fs_after s t) k of (v, e, bs) \<Rightarrow> \<lparr>rv = v, rerr = e, rdata = bs, rtext = []\<rparr>)
     | _ \<Rightarrow> good_reply 1)\<rparr>"

theorem pin_directories_prepared_witness:
  "\<exists>w1. bpf_fs_check_and_fix (fs_env \<lparr>mnt_exists = True, mnt_bpf = False, mnt_dirs = {}\<rparr>) init_world = Some (0, w1) \<and>
     fs_after \<lparr>mnt_exists = True, mnt_bpf = False, mnt_dirs = {}\<rparr> (trace w1) =
       \<lparr>mnt_exists = True, mnt_bpf = True, mnt_dirs = {''/sys/fs/bpf/tc'', ''/sys/fs/bpf/tc/globals''}\<rparr>"
proof -
  let ?s = "\<lparr>mnt_exists = True, mnt_bpf = False, mnt_dirs = {}\<rparr>"
  have "fs_kernel (fs_env ?s) ?s" by (simp add: fs_kernel_def fs_env_def Let_def split: prod.split)
  moreover have "\<forall>t n. rv (answer (fs_env ?s) t (Malloc n)) \<noteq> 0" by (simp add: fs_env_def good_reply_def)
  moreover have "heap_ok init_world" by (simp add: heap_ok_def init_world_def)
  ultimately have "\<exists>w1 w2. bpf_fs_check_and_fix (fs_env ?s) init_world = Some (0, w1) \<and> heap w1 = heap init_world \<and>
     fs_after ?s (trace w1) = pins_ready (fs_after ?s (trace init_world)) \<and>
     bpf_fs_check_and_fix (fs_env ?s) w1 = Some (0, w2) \<and> fs_after ?s (trace w2) = fs_after ?s (trace w1) \<and>
     calls w2 = calls w1 @ [Malloc 22, Sock (Statfs ''/sys/fs/bpf''), Sock (Access ''/sys/fs/bpf/tc''), Sock (Access ''/sys/fs/bpf/tc/globals'')]"
    by (rule pin_directories_prepared)
  then show ?thesis by (auto simp: init_world_def pins_ready_def BPF_DIR_MNT_def)
qed

section \<open>Where the descriptors of pinned maps come from\<close>

text \<open>
  What happened to a pin during the two passes: \<open>p\<close> before, \<open>p'\<close> after, \<open>T\<close> the calls with their replies.
\<close>

definition pin_reused :: "int \<Rightarrow> (sys_call \<times> reply) set \<Rightarrow> bpf_pinned_map \<Rightarrow> bpf_pinned_map \<Rightarrow> bool" where
  "pin_reused m T p p' \<longleftrightarrow> (\<exists>r. (Bpf (Obj_get (pin_filename p)), r) \<in> T \<and>
     (if rv r > 0 then p' = p\<lparr>pin_fd := rv r\<rparr> \<and> Bpf (Map_reuse_fd m (rv r)) \<in> fst ` T else p' = p))"

definition pin_made :: "env \<Rightarrow> int \<Rightarrow> (sys_call \<times> reply) set \<Rightarrow> bpf_pinned_map \<Rightarrow> bpf_pinned_map \<Rightarrow> bool" where
  "pin_made env m T p p' \<longleftrightarrow> (if pin_fd p \<noteq> -1 then p' = p
     else \<exists>r. (Bpf (Map_pin m (pin_filename p)), r) \<in> T \<and> (if rv r = 0 then p' = p\<lparr>pin_fd := map_fd_of env m\<rparr> else p' = p))"

text \<open>One pass over the pins, and over the maps: a relation that holds for a map and its pins holds for the whole pass.\<close>

definition pin_rel :: "env \<Rightarrow> (int \<Rightarrow> (sys_call \<times> reply) set \<Rightarrow> bpf_pinned_map \<Rightarrow> bpf_pinned_map \<Rightarrow> bool) \<Rightarrow>
    int \<Rightarrow> (sys_call \<times> reply) set \<Rightarrow> bpf_pinned_map \<Rightarrow> bpf_pinned_map \<Rightarrow> bool" where
  "pin_rel env Q m T p p' \<longleftrightarrow> pin_name p' = pin_name p \<and> (if map_name env m \<noteq> pin_name p then p' = p else Q m T p p')"

definition pins_step :: "env \<Rightarrow> (int \<Rightarrow> (sys_call \<times> reply) set \<Rightarrow> bpf_pinned_map \<Rightarrow> bpf_pinned_map \<Rightarrow> bool) \<Rightarrow>
    (int \<Rightarrow> bpf_pinned_map list \<Rightarrow> 'a world_scheme \<Rightarrow> bpf_pinned_map list \<times> 'a world_scheme) \<Rightarrow> bool" where
  "pins_step env Q f \<longleftrightarrow> (\<forall>m ps w ps' w'. f m ps w = (ps', w') \<longrightarrow>
     (\<exists>t. trace w' = trace w @ t \<and>
       list_all2 (pin_rel env Q m (set t)) ps ps'))"

lemma pin_reused_mono: "pin_reused m T p p' \<Longrightarrow> T \<subseteq> U \<Longrightarrow> pin_reused m U p p'"
  unfolding pin_reused_def by (metis image_mono subset_iff)

lemma pin_made_mono: "pin_made env m T p p' \<Longrightarrow> T \<subseteq> U \<Longrightarrow> pin_made env m U p p'"
  unfolding pin_made_def by (auto split: if_splits)

lemma pin_rel_mono:
  assumes "pin_rel env Q m T p p'" and "T \<subseteq> U" and "\<And>T U p p'. Q m T p p' \<Longrightarrow> T \<subseteq> U \<Longrightarrow> Q m U p p'"
  shows "pin_rel env Q m U p p'"
  using assms unfolding pin_rel_def by metis

lemma pins_cons:
  assumes "trace w1 = trace w @ u" and "\<exists>t. trace w3 = trace w1 @ t \<and> list_all2 (pin_rel env Q m (set t)) ps qs"
    and "\<And>T U p p'. Q m T p p' \<Longrightarrow> T \<subseteq> U \<Longrightarrow> Q m U p p'" and "\<And>T. set u \<subseteq> T \<Longrightarrow> pin_rel env Q m T p q"
  shows "\<exists>t. trace w3 = trace w @ t \<and> list_all2 (pin_rel env Q m (set t)) (p # ps) (q # qs)"
proof -
  obtain t where t: "trace w3 = trace w1 @ t" "list_all2 (pin_rel env Q m (set t)) ps qs" using assms(2) by blast
  have "list_all2 (pin_rel env Q m (set (u @ t))) ps qs"
    by (rule list_all2_mono [OF t(2)], erule pin_rel_mono) (use assms(3) in auto)
  then show ?thesis using t(1) assms(1) assms(4) [of "set (u @ t)"] by (intro exI [of _ "u @ t"]) simp
qed

lemma reuse_step: "pins_step env pin_reused (reuse_pins env)"
proof -
  have "\<exists>t. trace w' = trace w @ t \<and> list_all2 (pin_rel env pin_reused m (set t)) ps ps'"
    if "reuse_pins env m ps w = (ps', w')" for m ps w ps' w'
    using that
  proof (induction ps arbitrary: w ps' w')
    case (Cons p ps)
    note cons = pins_cons [where Q = pin_reused and m = m, OF _ _ pin_reused_mono]
    obtain fd w1 where o: "call env (Bpf (Obj_get (pin_filename p))) w = (fd, w1)" by fastforce
    obtain r where r: "fd = rv r" "trace w1 = trace w @ [(Bpf (Obj_get (pin_filename p)), r)]" using call_effect [OF o] by blast
    obtain v w2 where u: "call env (Bpf (Map_reuse_fd m fd)) w1 = (v, w2)" by fastforce
    obtain r2 where r2: "trace w2 = trace w1 @ [(Bpf (Map_reuse_fd m fd), r2)]" using call_effect [OF u] by blast
    consider "map_name env m \<noteq> pin_name p" | "map_name env m = pin_name p" "fd > 0" | "map_name env m = pin_name p" "\<not> fd > 0" by blast
    then show ?case
    proof cases
      case 1
      obtain qs w3 where q: "reuse_pins env m ps w = (qs, w3)" by fastforce
      then have e: "ps' = p # qs" "w' = w3" using Cons.prems 1 by simp_all
      have "pin_rel env pin_reused m T p p" for T using 1 by (simp add: pin_rel_def)
      then show ?thesis unfolding e by (intro cons [where u = "[]", OF _ Cons.IH [OF q]]) simp_all
    next
      case 2
      obtain qs w3 where q: "reuse_pins env m ps w2 = (qs, w3)" by fastforce
      have e: "ps' = p\<lparr>pin_fd := fd\<rparr> # qs" "w' = w3" using Cons.prems 2 by (simp_all add: o u q)
      let ?u = "[(Bpf (Obj_get (pin_filename p)), r), (Bpf (Map_reuse_fd m fd), r2)]"
      have "pin_rel env pin_reused m T p (p\<lparr>pin_fd := fd\<rparr>)" if "set ?u \<subseteq> T" for T
        using 2 r(1) that by (auto simp: pin_rel_def pin_reused_def intro!: exI [of _ r] intro: rev_image_eqI)
      then show ?thesis unfolding e using r(2) r2 by (intro cons [where u = ?u, OF _ Cons.IH [OF q]]) simp_all
    next
      case 3
      obtain qs w3 where q: "reuse_pins env m ps w1 = (qs, w3)" by fastforce
      have e: "ps' = p # qs" "w' = w3" using Cons.prems 3 by (simp_all add: o q)
      let ?u = "[(Bpf (Obj_get (pin_filename p)), r)]"
      have "pin_rel env pin_reused m T p p" if "set ?u \<subseteq> T" for T
        using 3 r(1) that by (auto simp: pin_rel_def pin_reused_def intro!: exI [of _ r])
      then show ?thesis unfolding e by (intro cons [where u = ?u, OF r(2) Cons.IH [OF q]]) simp_all
    qed
  qed simp
  then show ?thesis unfolding pins_step_def by blast
qed

lemma make_step: "pins_step env (pin_made env) (make_pins env)"
proof -
  have "\<exists>t. trace w' = trace w @ t \<and> list_all2 (pin_rel env (pin_made env) m (set t)) ps ps'"
    if "make_pins env m ps w = (ps', w')" for m ps w ps' w'
    using that
  proof (induction ps arbitrary: w ps' w')
    case (Cons p ps)
    note cons = pins_cons [where Q = "pin_made env" and m = m, OF _ _ pin_made_mono]
    obtain e w1 where o: "call env (Bpf (Map_pin m (pin_filename p))) w = (e, w1)" by fastforce
    obtain r where r: "e = rv r" "trace w1 = trace w @ [(Bpf (Map_pin m (pin_filename p)), r)]" using call_effect [OF o] by blast
    show ?case
    proof (cases "map_name env m \<noteq> pin_name p \<or> pin_fd p \<noteq> -1")
      case True
      obtain qs w3 where q: "make_pins env m ps w = (qs, w3)" by fastforce
      then have e: "ps' = p # qs" "w' = w3" using Cons.prems True by auto
      have "pin_rel env (pin_made env) m T p p" for T using True by (auto simp: pin_rel_def pin_made_def)
      then show ?thesis unfolding e by (intro cons [where u = "[]", OF _ Cons.IH [OF q]]) simp_all
    next
      case False
      obtain qs w3 where q: "make_pins env m ps w1 = (qs, w3)" by fastforce
      let ?p = "if e = 0 then p\<lparr>pin_fd := map_fd_of env m\<rparr> else p" and ?u = "[(Bpf (Map_pin m (pin_filename p)), r)]"
      have e: "ps' = ?p # qs" "w' = w3" using Cons.prems False by (simp_all add: o q split: if_splits)
      have "pin_rel env (pin_made env) m T p ?p" if "set ?u \<subseteq> T" for T
        using False r(1) that by (auto simp: pin_rel_def pin_made_def intro!: exI [of _ r])
      then show ?thesis unfolding e by (intro cons [where u = ?u, OF r(2) Cons.IH [OF q]]) simp_all
    qed
  qed simp
  then show ?thesis unfolding pins_step_def by blast
qed

definition pin_rels :: "env \<Rightarrow> (int \<Rightarrow> (sys_call \<times> reply) set \<Rightarrow> bpf_pinned_map \<Rightarrow> bpf_pinned_map \<Rightarrow> bool) \<Rightarrow>
    int list \<Rightarrow> (sys_call \<times> reply) set \<Rightarrow> bpf_pinned_map \<Rightarrow> bpf_pinned_map \<Rightarrow> bool" where
  "pin_rels env Q ms T p p' \<longleftrightarrow> pin_name p' = pin_name p \<and>
     (case find (\<lambda>m. map_name env m = pin_name p) ms of None \<Rightarrow> p' = p | Some m \<Rightarrow> Q m T p p')"

lemma pin_rels_step:
  assumes "pin_rel env Q m T p q" and "pin_rels env Q ms U q p'" and "map_name env m \<notin> map_name env ` set ms"
    and "\<And>m T U p p'. Q m T p p' \<Longrightarrow> T \<subseteq> U \<Longrightarrow> Q m U p p'"
  shows "pin_rels env Q (m # ms) (T \<union> U) p p'"
proof (cases "map_name env m = pin_name p")
  case True
  then have q: "pin_name q = pin_name p" "Q m T p q" using assms(1) by (simp_all add: pin_rel_def)
  have "\<forall>x \<in> set ms. map_name env x \<noteq> pin_name q" using assms(3) True q(1) by (metis imageI)
  then have "find (\<lambda>m. map_name env m = pin_name q) ms = None" by (auto simp: find_None_iff)
  then have "p' = q" using assms(2) by (simp add: pin_rels_def)
  then show ?thesis using True q assms(4) [of m T p q "T \<union> U"] by (simp add: pin_rels_def)
next
  case False
  then have "q = p" using assms(1) by (simp add: pin_rel_def)
  then show ?thesis using False assms(2) assms(4) [of _ U p p' "T \<union> U"] by (auto simp: pin_rels_def split: option.splits)
qed

lemma for_maps_pins:
  assumes "pins_step env Q f" and "\<And>m T U p p'. Q m T p p' \<Longrightarrow> T \<subseteq> U \<Longrightarrow> Q m U p p'"
    and "distinct (map (map_name env) ms)" and "for_maps f ms ps w = (ps', w')"
  shows "\<exists>t. trace w' = trace w @ t \<and> list_all2 (pin_rels env Q ms (set t)) ps ps'"
  using assms(3,4)
proof (induction ms arbitrary: ps w)
  case Nil
  then show ?case by (simp add: pin_rels_def list_all2_same)
next
  case (Cons m ms)
  obtain qs w1 where f: "f m ps w = (qs, w1)" by fastforce
  obtain t1 where t1: "trace w1 = trace w @ t1" "list_all2 (pin_rel env Q m (set t1)) ps qs"
    using assms(1) f unfolding pins_step_def by blast
  have "for_maps f ms qs w1 = (ps', w')" using Cons.prems(2) f by simp
  then obtain t2 where t2: "trace w' = trace w1 @ t2" "list_all2 (pin_rels env Q ms (set t2)) qs ps'"
    using Cons.IH Cons.prems(1) by fastforce
  have "map_name env m \<notin> map_name env ` set ms" using Cons.prems(1) by simp
  then have "list_all2 (pin_rels env Q (m # ms) (set t1 \<union> set t2)) ps ps'"
    by (intro list_all2_trans [OF _ t1(2) t2(2)] pin_rels_step [where Q = Q]) (auto dest: assms(2))
  then show ?case using t1(1) t2(1) by (intro exI [of _ "t1 @ t2"]) simp
qed

lemma prepare_trace: "\<exists>t. trace (prepare_programs env ty at ps w) = trace w @ t \<and> set (map fst t) \<subseteq> range (\<lambda>p. Bpf (Set_prog_type p ty)) \<union> range (\<lambda>p. Bpf (Set_attach_type p at))"
proof (induction ps arbitrary: w)
  case (Cons p ps)
  obtain v1 w1 where 1: "call env (Bpf (Set_prog_type p ty)) w = (v1, w1)" by fastforce
  obtain v2 w2 where 2: "call env (Bpf (Set_attach_type p at)) w1 = (v2, w2)" by fastforce
  obtain t where "trace (prepare_programs env ty at ps w2) = trace w2 @ t"
    "set (map fst t) \<subseteq> range (\<lambda>p. Bpf (Set_prog_type p ty)) \<union> range (\<lambda>p. Bpf (Set_attach_type p at))" using Cons.IH by blast
  then show ?case using call_effect [OF 1] call_effect [OF 2] by (auto simp: 1 2)
qed simp

text \<open>What the loader leaves in a pin: \<open>T\<close> are the calls before the load, \<open>U\<close> those after it.\<close>

definition pin_settled :: "env \<Rightarrow> int list \<Rightarrow> (sys_call \<times> reply) set \<Rightarrow> (sys_call \<times> reply) set \<Rightarrow>
    bpf_pinned_map \<Rightarrow> bpf_pinned_map \<Rightarrow> bool" where
  "pin_settled env ms T U p p' \<longleftrightarrow> pin_name p' = pin_name p \<and> pin_filename p' = pin_filename p \<and>
     (case find (\<lambda>m. map_name env m = pin_name p) ms of
        None \<Rightarrow> pin_fd p' = -1
      | Some m \<Rightarrow> \<exists>r. (Bpf (Obj_get (pin_filename p)), r) \<in> T \<and>
          (if rv r > 0 then pin_fd p' = rv r \<and> Bpf (Map_reuse_fd m (rv r)) \<in> fst ` T
           else \<exists>r2. (Bpf (Map_pin m (pin_filename p)), r2) \<in> U \<and> pin_fd p' = (if rv r2 = 0 then map_fd_of env m else -1)))"

lemma pin_settled_trans:
  assumes "pin_rels env pin_reused ms T (p\<lparr>pin_fd := -1\<rparr>) q" and "pin_rels env (pin_made env) ms U q p'"
  shows "pin_settled env ms T U p p'"
proof (cases "find (\<lambda>m. map_name env m = pin_name p) ms")
  case None
  then have q: "q = p\<lparr>pin_fd := -1\<rparr>" using assms(1) by (simp add: pin_rels_def)
  then have "p' = q" using assms(2) None by (simp add: pin_rels_def)
  then show ?thesis using q None by (simp add: pin_settled_def)
next
  case (Some m)
  then obtain r where r: "(Bpf (Obj_get (pin_filename p)), r) \<in> T"
    "if rv r > 0 then q = p\<lparr>pin_fd := rv r\<rparr> \<and> Bpf (Map_reuse_fd m (rv r)) \<in> fst ` T else q = p\<lparr>pin_fd := -1\<rparr>"
    using assms(1) by (auto simp: pin_rels_def pin_reused_def)
  have m: "pin_made env m U q p'" using assms Some by (simp add: pin_rels_def)
  show ?thesis
  proof (cases "rv r > 0")
    case True
    then have "p' = q" using m r(2) by (simp add: pin_made_def)
    then show ?thesis using True r Some by (auto simp: pin_settled_def)
  next
    case False
    then obtain r2 where r2: "(Bpf (Map_pin m (pin_filename p)), r2) \<in> U" "if rv r2 = 0 then p' = q\<lparr>pin_fd := map_fd_of env m\<rparr> else p' = q"
      using m r(2) by (auto simp: pin_made_def)
    have "pin_name p' = pin_name p" "pin_filename p' = pin_filename p" "pin_fd p' = (if rv r2 = 0 then map_fd_of env m else -1)"
      using False r(2) r2(2) by (simp_all split: if_splits)
    then show ?thesis using False r(1) r2(1) Some unfolding pin_settled_def by auto
  qed
qed

text \<open>
  C36. A load that succeeds gives every pin its descriptor. If the object has a map of that name, the pinned file
  was tried before the object was loaded: when it could be opened the map was given that
  descriptor, otherwise the map was pinned to the file, and this only after the object was loaded. A pin whose
  map is missing, or could not be pinned, is left at -1; that does not make the load fail.
\<close>

theorem pinned_maps_settled:
  assumes "bpf_prog_load_xattr_maps env attr w = (Inr (obj, fd), attr', w')"
    and "distinct (map (map_name env) (obj_maps env obj))"
  shows "\<exists>t r u. trace w' = trace w @ t @ (Bpf (Object_load obj), r) # u \<and> rv r = 0 \<and>
     list_all2 (pin_settled env (obj_maps env obj) (set t) (set u)) (pinned_maps attr) (pinned_maps attr') \<and>
     obj_programs env obj \<noteq> [] \<and> fd = prog_fd_of env (hd (obj_programs env obj))"
proof -
  obtain fname where f: "attr_file attr = Some fname" using assms(1) by (cases "attr_file attr") (auto simp: bpf_prog_load_xattr_maps_def)
  obtain ob w1 where o: "call env (Bpf (Object_open_xattr fname)) w = (ob, w1)" by fastforce
  let ?w2 = "prepare_programs env (attr_prog_type attr) (attr_expected_attach_type attr) (obj_programs env ob) w1"
    and ?ps = "map (\<lambda>p. p\<lparr>pin_fd := -1\<rparr>) (pinned_maps attr)"
  obtain qs w3 where q: "for_maps (reuse_pins env) (obj_maps env ob) ?ps ?w2 = (qs, w3)" by fastforce
  obtain e w4 where l: "call env (Bpf (Object_load ob)) w3 = (e, w4)" by fastforce
  obtain ps' w5 where m: "for_maps (make_pins env) (obj_maps env ob) qs w4 = (ps', w5)" by fastforce
  have main: "ob = obj" "e = 0" "obj_programs env obj \<noteq> []" "fd = prog_fd_of env (hd (obj_programs env obj))"
    "pinned_maps attr' = ps'" "w' = w5"
    using assms(1) by (auto simp: bpf_prog_load_xattr_maps_def f o q l m Let_def split: if_splits list.splits prod.splits)
  obtain r1 where r1: "trace w1 = trace w @ [(Bpf (Object_open_xattr fname), r1)]" using call_effect [OF o] by blast
  obtain t1 where t1: "trace ?w2 = trace w1 @ t1" using prepare_trace by blast
  obtain t2 where t2: "trace w3 = trace ?w2 @ t2" "list_all2 (pin_rels env pin_reused (obj_maps env obj) (set t2)) ?ps qs"
    by (rule exE [OF for_maps_pins [OF reuse_step _ assms(2) q [unfolded main(1)]]])
      (use main(1) in \<open>auto intro: pin_reused_mono\<close>)
  obtain r where r: "trace w4 = trace w3 @ [(Bpf (Object_load obj), r)]" "rv r = 0"
    using call_effect [OF l] main(1,2) by fastforce
  obtain u where u: "trace w5 = trace w4 @ u" "list_all2 (pin_rels env (pin_made env) (obj_maps env obj) (set u)) qs ps'"
    by (rule exE [OF for_maps_pins [OF make_step _ assms(2) m [unfolded main(1)]]])
      (use main(1) in \<open>auto intro: pin_made_mono\<close>)
  let ?t = "(Bpf (Object_open_xattr fname), r1) # t1 @ t2"
  have tr: "trace w' = trace w @ ?t @ (Bpf (Object_load obj), r) # u" using r1 t1 t2(1) r(1) u(1) main(6) by simp
  have "list_all2 (pin_rels env pin_reused (obj_maps env obj) (set ?t)) ?ps qs"
    by (rule list_all2_mono [OF t2(2)]) (auto simp: pin_rels_def split: option.splits intro: pin_reused_mono)
  then have a: "list_all2 (\<lambda>p. pin_rels env pin_reused (obj_maps env obj) (set ?t) (p\<lparr>pin_fd := -1\<rparr>)) (pinned_maps attr) qs"
    by (simp add: list_all2_map1)
  have "list_all2 (pin_settled env (obj_maps env obj) (set ?t) (set u)) (pinned_maps attr) (pinned_maps attr')"
    unfolding main(5) by (rule list_all2_trans [OF pin_settled_trans a u(2)])
  then show ?thesis using tr r(2) main(3,4) by blast
qed

definition pin_env :: env where
  "pin_env = good_env\<lparr>answer := (\<lambda>t c. case c of
       Bpf (Object_open_xattr f) \<Rightarrow> good_reply 3
     | Bpf (Obj_get f) \<Rightarrow> good_reply (-1)
     | _ \<Rightarrow> good_reply 0),
   map_name := (\<lambda>m. ''map_shared'')\<rparr>"

lemma pin_env_run:
  "\<exists>w'. bpf_prog_load_xattr_maps pin_env sm_attr init_world =
     (Inr (3, 8), sm_attr\<lparr>pinned_maps := [\<lparr>pin_name = ''map_shared'', pin_filename = mapfile_map_shared, pin_fd = 7\<rparr>]\<rparr>, w')"
  by (simp add: bpf_prog_load_xattr_maps_def sm_attr_def pin_env_def good_env_def good_reply_def call_def sys_def IS_ERR_OR_NULL_def Let_def)

theorem pinned_maps_settled_witness:
  "\<exists>w' t r u. bpf_prog_load_xattr_maps pin_env sm_attr init_world =
     (Inr (3, 8), sm_attr\<lparr>pinned_maps := [\<lparr>pin_name = ''map_shared'', pin_filename = mapfile_map_shared, pin_fd = 7\<rparr>]\<rparr>, w') \<and>
     trace w' = t @ (Bpf (Object_load 3), r) # u \<and>
     pin_settled pin_env [6] (set t) (set u)
       \<lparr>pin_name = ''map_shared'', pin_filename = mapfile_map_shared, pin_fd = 0\<rparr>
       \<lparr>pin_name = ''map_shared'', pin_filename = mapfile_map_shared, pin_fd = 7\<rparr>"
proof -
  obtain w' where run: "bpf_prog_load_xattr_maps pin_env sm_attr init_world =
     (Inr (3, 8), sm_attr\<lparr>pinned_maps := [\<lparr>pin_name = ''map_shared'', pin_filename = mapfile_map_shared, pin_fd = 7\<rparr>]\<rparr>, w')"
    using pin_env_run by blast
  have ms: "obj_maps pin_env 3 = [6]" by (simp add: pin_env_def good_env_def)
  obtain t r u where "trace w' = t @ (Bpf (Object_load 3), r) # u" "pin_settled pin_env [6] (set t) (set u)
     \<lparr>pin_name = ''map_shared'', pin_filename = mapfile_map_shared, pin_fd = 0\<rparr>
     \<lparr>pin_name = ''map_shared'', pin_filename = mapfile_map_shared, pin_fd = 7\<rparr>"
    using pinned_maps_settled [OF run] by (auto simp: ms sm_attr_def init_world_def)
  then show ?thesis using run by blast
qed

text \<open>A load that fails after the object was opened closes it, and says why.\<close>

lemma failed_load_closes:
  assumes "bpf_prog_load_xattr_maps env attr w = (Inl e, attr', w')" and "attr_file attr = Some fname"
    and "call env (Bpf (Object_open_xattr fname)) w = (obj, w1)"
  shows "if IS_ERR_OR_NULL obj then e = - ENOENT \<and> w' = w1
     else fst (last (trace w')) = Bpf (Object_close obj) \<and> e = (if obj_programs env obj = [] then - ENOENT else - EINVAL)"
  using assms
  by (auto simp: bpf_prog_load_xattr_maps_def Let_def dest!: call_effect split: if_splits list.splits prod.splits)

section \<open>What is run, and what stays\<close>

fun commands :: "sys_call list \<Rightarrow> string list" where
  "commands [] = []"
| "commands (Sock (System c) # cs) = c # commands cs"
| "commands (_ # cs) = commands cs"

lemma commands_append [simp]: "commands (cs @ ds) = commands cs @ commands ds"
  by (induction cs rule: commands.induct) auto

text \<open>Between two worlds certain commands were run.\<close>

definition ran :: "string list \<Rightarrow> 'a world_scheme \<Rightarrow> 'a world_scheme \<Rightarrow> bool" where
  "ran xs w w' \<longleftrightarrow> (\<exists>cs. calls w' = calls w @ cs \<and> commands cs = xs)"

lemma ran_refl: "ran [] w w"
  by (simp add: ran_def)

lemma ran_trans: "ran xs w w1 \<Longrightarrow> ran ys w1 w2 \<Longrightarrow> ran (xs @ ys) w w2"
  unfolding ran_def by fastforce

lemma ran_quiet: "ran [] w w1 \<Longrightarrow> ran xs w1 w2 \<Longrightarrow> ran xs w w2"
  using ran_trans [of "[]"] by fastforce

lemma ran_quiet3: "ran [] w w1 \<Longrightarrow> ran [] w1 w2 \<Longrightarrow> ran xs w2 w3 \<Longrightarrow> ran xs w w3"
  by (meson ran_quiet)

lemma ran_quiet4: "ran [] w w1 \<Longrightarrow> ran [] w1 w2 \<Longrightarrow> ran [] w2 w3 \<Longrightarrow> ran xs w3 w4 \<Longrightarrow> ran xs w w4"
  by (meson ran_quiet)

lemmas ran_chain = ran_refl ran_quiet ran_quiet3 ran_quiet4

lemma ran_sys: "sys env c w = (r, w') \<Longrightarrow> ran (commands [c]) w w'"
  by (auto simp: ran_def sys_def calls_def Let_def)

lemma ran_call: "call env c w = (v, w') \<Longrightarrow> ran (commands [c]) w w'"
  by (auto simp: call_def intro: ran_sys split: prod.splits)

lemma ran_malloc: "c_malloc env n w = (p, w') \<Longrightarrow> ran [] w w'"
  by (auto simp: ran_def c_malloc_def sys_def calls_def new_block_def Let_def split: if_splits)

lemma ran_free: "c_free p w = Some w' \<Longrightarrow> ran [] w w'"
  by (auto simp: ran_def c_free_def calls_def split: if_splits)

lemma ran_subdir: "bpf_fs_subdir_check_and_fix env d w = (e, w') \<Longrightarrow> ran [] w w'"
  using ran_call [of env "Sock (Access d)" w] ran_call [of env "Sock (Mkdir d FILEMODE)"]
  by (auto simp: bpf_fs_subdir_check_and_fix_def split: prod.splits if_splits intro: ran_chain)

lemma ran_subdirs: "fs_fix_subdirs env w = (e, w') \<Longrightarrow> ran [] w w'"
  by (auto simp: fs_fix_subdirs_def split: prod.splits if_splits dest!: ran_subdir intro: ran_chain)

lemma ran_check_path:
  assumes "bpf_fs_check_path env (Some p) w = Some (e, w')"
  shows "ran [] w w'"
proof -
  obtain q w1 where m: "c_malloc env (Suc (length p)) w = (q, w1)" by fastforce
  obtain r w2 where s: "sys env (Sock (Statfs (dirname p))) w1 = (r, w2)" by fastforce
  have "ran [] w1 w2" using ran_sys [OF s] by simp
  moreover have "w' = w1 \<or> c_free q w2 = Some w'"
    using assms by (auto simp: bpf_fs_check_path_def m s Let_def split: if_splits bind_splits)
  ultimately show ?thesis using ran_malloc [OF m] ran_free [of q w2 w'] by (blast intro: ran_quiet3)
qed

lemma ran_mount_point: "fs_fix_mount_point env e w = (r, w') \<Longrightarrow> ran [] w w'"
  using ran_call [of env "Sock (Stat BPF_DIR_MNT)" w] ran_call [of env "Sock (Mkdir BPF_DIR_MNT FILEMODE)"]
  by (auto simp: fs_fix_mount_point_def split: prod.splits if_splits intro: ran_chain)

lemma ran_prepare:
  assumes "bpf_fs_check_and_fix env w = Some (e, w')"
  shows "ran [] w w'"
proof -
  obtain err w1 where c: "bpf_fs_check_path env (Some (BPF_DIR_MNT @ ''/some_file'')) w = Some (err, w1)"
    using assms by (auto simp: bpf_fs_check_and_fix_def split: bind_splits)
  obtain fixed w2 where f: "fs_fix_mount_point env err w1 = (fixed, w2)" by fastforce
  obtain v w3 where m: "call env (Sock (Mount ''bpf'' BPF_DIR_MNT ''bpf'')) w2 = (v, w3)" by fastforce
  have "w' = w2 \<or> w' = w3 \<or> fs_fix_subdirs env w2 = (e, w') \<or> fs_fix_subdirs env w3 = (e, w')"
    using assms unfolding bpf_fs_check_and_fix_def c bind.bind_lunit prod.case f m Let_def by (auto split: sum.splits if_splits)
  moreover have "ran [] w w2" by (rule ran_quiet [OF ran_check_path [OF c] ran_mount_point [OF f]])
  moreover have "ran [] w2 w3" using ran_call [OF m] by simp
  ultimately show ?thesis using ran_subdirs [of env w2 e w'] ran_subdirs [of env w3 e w'] by (blast intro: ran_quiet ran_quiet3)
qed

lemma ran_programs: "ran [] w (prepare_programs env ty at ps w)"
  by (induction ps arbitrary: w) (auto simp: ran_refl split: prod.split dest!: ran_call intro: ran_chain)

lemma ran_reuse: "reuse_pins env m ps w = (qs, w') \<Longrightarrow> ran [] w w'"
  by (induction ps arbitrary: w qs) (auto simp: ran_refl split: prod.splits if_splits dest!: ran_call intro: ran_chain)

lemma ran_make: "make_pins env m ps w = (qs, w') \<Longrightarrow> ran [] w w'"
  by (induction ps arbitrary: w qs) (auto simp: ran_refl split: prod.splits if_splits dest!: ran_call intro: ran_chain)

lemma ran_for_maps:
  assumes "\<And>m ps w qs w'. f m ps w = (qs, w') \<Longrightarrow> ran [] w w'"
  shows "for_maps f ms ps w = (qs, w') \<Longrightarrow> ran [] w w'"
  by (induction ms arbitrary: ps w) (auto simp: ran_refl split: prod.splits dest!: assms intro: ran_chain)

lemma ran_load:
  assumes "bpf_prog_load_xattr_maps env attr w = (res, attr', w')"
  shows "ran [] w w'"
proof (cases "attr_file attr")
  case (Some fname)
  obtain ob w1 where o: "call env (Bpf (Object_open_xattr fname)) w = (ob, w1)" by fastforce
  let ?w2 = "prepare_programs env (attr_prog_type attr) (attr_expected_attach_type attr) (obj_programs env ob) w1"
    and ?ps = "map (\<lambda>p. p\<lparr>pin_fd := -1\<rparr>) (pinned_maps attr)"
  obtain qs w3 where q: "for_maps (reuse_pins env) (obj_maps env ob) ?ps ?w2 = (qs, w3)" by fastforce
  obtain e w4 where l: "call env (Bpf (Object_load ob)) w3 = (e, w4)" by fastforce
  obtain ps' w5 where m: "for_maps (make_pins env) (obj_maps env ob) qs w4 = (ps', w5)" by fastforce
  have steps: "ran [] w w1" "ran [] w3 w4" using ran_call [OF o] ran_call [OF l] by simp_all
  have r3: "ran [] w w3"
    by (rule ran_quiet3 [OF steps(1) ran_programs ran_for_maps [OF ran_reuse q]])
  have r5: "ran [] w4 w5" by (rule ran_for_maps [OF ran_make m])
  have "w' = w1 \<or> w' = w5 \<or> (\<exists>v. call env (Bpf (Object_close ob)) w3 = (v, w')) \<or> (\<exists>v. call env (Bpf (Object_close ob)) w4 = (v, w'))"
    using assms by (auto simp: bpf_prog_load_xattr_maps_def Some o q l m Let_def split: if_splits list.splits prod.splits)
  then show ?thesis using steps r3 r5 ran_call [of env "Bpf (Object_close ob)"] by (auto intro: ran_chain)
qed (use assms in \<open>simp add: bpf_prog_load_xattr_maps_def ran_refl\<close>)

lemma ran_counters: "read_counters env fd w = Some w' \<Longrightarrow> ran [] w w'"
proof (induction rule: read_counters.raw_induct [rotated, consumes 1, case_names step])
  case (step loop env fd w w')
  obtain e w1 where c: "call env (Bpf (Map_lookup fd [0, 0, 0, 0])) w = (e, w1)" by fastforce
  have "ran [] w w1" using ran_call [OF c] by simp
  then show ?case using step(2) step(1) [of env fd w1 w'] by (auto simp: c split: if_splits intro: ran_quiet)
qed

text \<open>The commands on the device, in the order in which they are run.\<close>

definition sm_del :: string where "sm_del = ''tc qdisc del dev ens33 clsact 2> /dev/null''"
definition sm_add :: string where "sm_add = ''tc qdisc add dev ens33 clsact''"
definition sm_ingress :: string where
  "sm_ingress = ''tc filter add dev ens33 ingress prio 1 handle 1 bpf da obj ./bpf/tc_kern.o sec tc_count''"
definition sm_egress :: string where "sm_egress = ''tc filter delete dev ens33 egress''"

lemma sm_commands_format:
  "snprintf CMD_MAX (tc_del_cmd ''ens33'') = sm_del" "snprintf CMD_MAX (tc_add_cmd ''ens33'') = sm_add"
  "snprintf CMD_MAX (tc_ingress_cmd ''ens33'' ''./bpf/tc_kern.o'' ''tc_count'') = sm_ingress"
  "snprintf CMD_MAX (tc_remove_cmd ''ens33'') = sm_egress"
  by (subst snprintf_fits; simp add: CMD_MAX_def tc_cmd_def tc_del_cmd_def tc_add_cmd_def tc_ingress_cmd_def tc_remove_cmd_def
      sm_del_def sm_add_def sm_ingress_def sm_egress_def)+

text \<open>What was run by the set-up of the TC program, whatever failed.\<close>

definition sm_attach_runs :: "string list set" where
  "sm_attach_runs = {[sm_del], [sm_del, sm_add], [sm_del, sm_add, sm_ingress]}"

lemma ran_remove_xdp: "sm_remove_xdp env i w = (c, w') \<Longrightarrow> ran [] w w'"
  by (auto simp: sm_remove_xdp_def remove_xdp_program_def call_def ran_refl split: if_splits prod.splits dest!: ran_sys)

lemma ran_remove:
  assumes "sm_remove_tc env i w = (c, w')"
  shows "ran [sm_egress] w w'"
proof -
  obtain v w1 where r: "call env (Sock (System sm_egress)) w = (v, w1)" by fastforce
  have "w' = w1 \<or> sm_remove_xdp env i w1 = (c, w')"
    using assms by (auto simp: sm_remove_tc_def tc_remove_ingress_filter_def sm_commands_format r split: if_splits)
  then have "ran [] w1 w'" using ran_remove_xdp ran_refl by metis
  moreover have "ran [sm_egress] w w1" using ran_call [OF r] by simp
  ultimately show ?thesis using ran_trans by fastforce
qed

lemma ran_attach:
  assumes "tc_ingress_attach_bpf env ''ens33'' ''./bpf/tc_kern.o'' ''tc_count'' w = (res, w')"
  shows "res = Inl EXIT_FAILURE \<and> (\<exists>xs \<in> sm_attach_runs. ran xs w w') \<or> res = Inr 0 \<and> ran [sm_del, sm_add, sm_ingress] w w'"
proof -
  obtain v1 w1 where c1: "call env (Sock (System sm_del)) w = (v1, w1)" by fastforce
  obtain v2 w2 where c2: "call env (Sock (System sm_add)) w1 = (v2, w2)" by fastforce
  obtain v3 w3 where c3: "call env (Sock (System sm_ingress)) w2 = (v3, w3)" by fastforce
  have r: "ran [sm_del] w w1" "ran [sm_add] w1 w2" "ran [sm_ingress] w2 w3"
    using ran_call [OF c1] ran_call [OF c2] ran_call [OF c3] by simp_all
  have t: "ran [sm_del, sm_add] w w2" "ran [sm_del, sm_add, sm_ingress] w w3"
    using ran_trans [OF r(1,2)] ran_trans [OF ran_trans [OF r(1,2)] r(3)] by simp_all
  consider "res = Inl EXIT_FAILURE" "w' = w1" | "res = Inl EXIT_FAILURE" "w' = w2" | "res = Inl EXIT_FAILURE" "w' = w3"
    | "res = Inr 0" "w' = w3"
    using assms by (auto simp: tc_ingress_attach_bpf_def sm_commands_format c1 c2 c3 split: if_splits)
  then show ?thesis using r(1) t by cases (auto simp: sm_attach_runs_def)
qed

lemma ran_run_xdp:
  assumes "sm_run_xdp env fd w = Some (c, w')"
  shows "ran [] w w' \<or> ran [sm_egress] w w'"
proof -
  obtain i w1 where n: "call env (Sock (If_nametoindex ''ens33'')) w = (i, w1)" by fastforce
  obtain l attr w2 where b: "bpf_prog_load_xattr_maps env sm_attr w1 = (l, attr, w2)" by (metis prod_cases3)
  have 1: "ran [] w w1" using ran_call [OF n] by simp
  have 2: "ran [] w w2" by (rule ran_quiet [OF 1 ran_load [OF b]])
  consider "w' = w1" | "sm_remove_tc env i w2 = (c, w')"
    | obj p e w3 where "l = Inr (obj, p)" "call env (Bpf (Set_link_xdp_fd i p XDP_FLAGS_SKB_MODE)) w2 = (e, w3)"
        "sm_remove_xdp env i w3 = (c, w') \<or> (\<exists>w4. read_counters env fd w3 = Some w4 \<and> sm_remove_tc env i w4 = (c, w'))"
    using assms by (auto simp: sm_run_xdp_def n b split: if_splits sum.splits prod.splits bind_splits)
  then show ?thesis
  proof cases
    case 3
    have 3: "ran [] w w3" using 2 ran_call [OF 3(2)] by (auto intro: ran_quiet)
    show ?thesis using \<open>sm_remove_xdp env i w3 = _ \<or> _\<close> ran_remove_xdp [of env i w3] ran_remove ran_counters
        ran_quiet [OF 3] ran_quiet3 [OF 3] by metis
  qed (use 1 2 ran_remove ran_quiet in blast)+
qed

text \<open>
  The commands of a run. If the file system is not ready none is run, and the exit status says so. If the
  status is 0 the ingress filter was installed, and the only removal there can have been
  was of egress filters; when the XDP program cannot be attached there is not even that. So the TC program
  stays on the device.
\<close>

lemma shared_map_runs:
  assumes "shared_map_main env w = Some (code, w')"
  shows "\<exists>cs. calls w' = calls w @ cs \<and>
     (commands cs = [] \<and> code = EXIT_FAIL_MAP_FS \<or> commands cs \<in> sm_attach_runs \<or>
      commands cs = [sm_del, sm_add, sm_ingress, sm_egress]) \<and>
     (code = 0 \<longrightarrow> sm_ingress \<in> set (commands cs))"
proof -
  obtain e w1 where p: "bpf_fs_check_and_fix env w = Some (e, w1)"
    using assms by (auto simp: shared_map_main_def split: bind_splits)
  note rp = ran_prepare [OF p]
  show ?thesis
  proof (cases "e = 0")
    case False
    then have "code = EXIT_FAIL_MAP_FS" "w' = w1" using assms by (simp_all add: shared_map_main_def p)
    then show ?thesis using rp by (auto simp: ran_def EXIT_FAIL_MAP_FS_def)
  next
    case True
    obtain fd w2 where o: "open_pinned_map_file env mapfile_map_shared w1 = (fd, w2)" by fastforce
    obtain att w3 where a: "tc_ingress_attach_bpf env ''ens33'' ''./bpf/tc_kern.o'' ''tc_count'' w2 = (att, w3)" by fastforce
    have 2: "ran [] w w2" using ran_quiet [OF rp, of "[]"] ran_call o by (fastforce simp: open_pinned_map_file_def)
    note main = assms [unfolded shared_map_main_def p bind.bind_lunit prod.case o a Let_def]
    consider (exit) xs where "att = Inl EXIT_FAILURE" "xs \<in> sm_attach_runs" "ran xs w2 w3"
      | (ok) "att = Inr 0" "ran [sm_del, sm_add, sm_ingress] w2 w3" using ran_attach [OF a] by blast
    then show ?thesis
    proof cases
      case exit
      then have "code = EXIT_FAILURE" "w' = w3" using main True by simp_all
      moreover have "ran xs w w3" by (rule ran_quiet [OF 2 exit(3)])
      ultimately show ?thesis using exit(2) by (auto simp: ran_def EXIT_FAILURE_def)
    next
      case ok
      obtain fd2 w4 where o2: "open_pinned_map_file env mapfile_map_shared w3 = (fd2, w4)" by fastforce
      obtain u w5 where m: "call env (Bpf (Map_update_elem fd2 [0, 0, 0, 0] (replicate 12 0) 0)) w4 = (u, w5)" by fastforce
      have 5: "ran [] w3 w5" using ran_call [OF m] o2 ran_call by (fastforce simp: open_pinned_map_file_def intro: ran_quiet)
      have "w' = w5 \<or> (\<exists>f v. v \<in> {w3, w5} \<and> sm_run_xdp env f v = Some (code, w'))"
        using main True ok(1) by (auto simp: o2 m split: if_splits)
      then have "ran [] w3 w' \<or> ran [sm_egress] w3 w'"
        using 5 ran_run_xdp [of env _ w3 code w'] ran_run_xdp [of env _ w5 code w'] ran_quiet [OF 5] by blast
      then have "ran [sm_del, sm_add, sm_ingress] w w' \<or> ran [sm_del, sm_add, sm_ingress, sm_egress] w w'"
        using ran_trans [OF ran_quiet [OF 2 ok(2)]] by fastforce
      then show ?thesis by (auto simp: ran_def sm_attach_runs_def)
    qed
  qed
qed

end
