(* ===== verification/Spec2Isabelle.thy ===== *)
theory Spec2Isabelle
  imports Util Xsk_Ring Xsk_Helpers Adaptor_Receive Receive_System Inet Adaptor_Send Kern_Progs Kern_Hooker
    Xdp_Helpers Launcher Vtl_Api Hooker Dashboard Xsk_Prog Xsk_Lib Xsk_Lifecycle Hashmap Netlink Bpf_Tests Shared_Map
begin

text \<open>
  VTL-Hooker is a transport layer in user space for Linux. A sender hands data to the VTL API,
  which wraps it in an IPv4 header of protocol 200 and a two-byte VTL header and puts it on a raw
  socket; a traffic-control program fills in the VTL header on the way out; on the receiving host
  an XDP program diverts VTL packets to an AF\_XDP socket, whose rings the adaptor reads, and the
  payload reaches a callback of the application. A hooker lets unmodified applications use the
  layer: one BPF program registers their sockets, another diverts their messages. Launcher and
  dashboards put the BPF programs on an interface and take them off again.

  \<^bold>\<open>The parts and their theories\<close> (paths under \<^verbatim>\<open>src/\<close>)

  \<^item> \<open>Prelude\<close>: machine words, C strings and buffers, the heap, and the environment. Everything
    outside the program (system calls, the object loader of libbpf, the allocator) is a call that is
    answered by an arbitrary function of the calls made before; the calls with their answers are
    the trace of a world. Statements are about all answers unless a hypothesis says otherwise.
  \<^item> \<open>Util\<close>: \<^verbatim>\<open>src/common/util.c\<close>, the zeroing allocators and the Internet checksum.
  \<^item> \<open>Xsk_Ring\<close>: \<^verbatim>\<open>lib/libbpf/src/xsk.h\<close>, the single-producer single-consumer rings shared
    with the kernel, with their 32-bit counters and cached copies.
  \<^item> \<open>Xsk_Helpers\<close>: \<^verbatim>\<open>src/common/xsk_user_helpers.c\<close>, the pool of packet frames and the set-up of
    an AF\_XDP socket.
  \<^item> \<open>Adaptor_Receive\<close>: \<^verbatim>\<open>src/adaptor/adaptor_receive.c\<close>, socket creation and the receive call.
    \<open>Receive_System\<close> runs it against a kernel that fetches frames and stores packets, as a step
    relation.
  \<^item> \<open>Inet\<close>: the address conversions of the C library that the send path uses.
    \<open>Adaptor_Send\<close>: \<^verbatim>\<open>src/adaptor/adaptor_send.c\<close>, raw sockets, header construction, assembly, send.
  \<^item> \<open>Kern_Progs\<close>: \<^verbatim>\<open>src/bpf/bpf_tc.c\<close>, \<^verbatim>\<open>src/bpf/bpf_xdp.c\<close>, \<^verbatim>\<open>src/bpf/bpf_arqin.c\<close> on packets as
    byte lists. \<open>Kern_Hooker\<close>: \<^verbatim>\<open>src/bpf/bpf_hooker.c\<close> over abstract BPF maps.
  \<^item> \<open>Xdp_Helpers\<close>: \<^verbatim>\<open>src/common/xdp_user_helpers.c\<close>, loading, attaching and detaching.
    \<open>Launcher\<close>: \<^verbatim>\<open>src/common/tc_user_helpers.c\<close> and \<^verbatim>\<open>src/launcher/launcher.c\<close>.
  \<^item> \<open>Vtl_Api\<close>: \<^verbatim>\<open>src/api/api.c\<close>, \<^verbatim>\<open>include/vtl.h\<close>, with the objects of the API in stores that
    are indexed by heap addresses.
  \<^item> \<open>Hooker\<close>: \<^verbatim>\<open>src/hooker/hooker.c\<close>. \<open>Dashboard\<close>: \<^verbatim>\<open>src/dashboard/dashboard.c\<close> and
    \<^verbatim>\<open>src/dashboard/dashboard_simple.c\<close>.

  Below them lies the part of libbpf, under \<^verbatim>\<open>lib/libbpf/src\<close>, that the layer rests on:

  \<^item> \<open>Xsk_Prog\<close>: the instruction macros of \<^verbatim>\<open>linux/filter.h\<close>, the XDP program that \<^verbatim>\<open>xsk.c\<close> assembles
    from them, and a machine that runs it. \<open>Xsk_Lib\<close>: \<^verbatim>\<open>xsk.c\<close>, packet memory and sockets over
    stores that are indexed by heap addresses, with a ledger of open descriptors and mappings;
    \<open>Xsk_Lifecycle\<close> has the theorems about whole sessions.
  \<^item> \<open>Hashmap\<close>: \<^verbatim>\<open>hashmap.c\<close>, chained buckets that double.
  \<^item> \<open>Nlattr\<close>: \<^verbatim>\<open>nlattr.c\<close>, the parser of netlink attributes. \<open>Netlink\<close>: \<^verbatim>\<open>netlink.c\<close>, the client
    through which XDP programs are attached and queried.

  The experiments with BPF programs, under \<^verbatim>\<open>bpf_test\<close>:

  \<^item> \<open>Bpf_Tests\<close>: the kernel programs of \<^verbatim>\<open>bpf/*_kern.c\<close> that answer pings, call each other and count
    packets, and \<^verbatim>\<open>tail_call.c\<close>, which fills the table of the calls. \<open>Shared_Map\<close>: \<^verbatim>\<open>shared_map.c\<close>, which
    prepares the BPF file system, loads a program with pinned maps and takes it off again.

  The upper layers call \<^verbatim>\<open>xsk.c\<close> and \<^verbatim>\<open>netlink.c\<close> as external calls (\<open>Xsk_socket_create\<close>,
  \<open>Set_link_xdp_fd\<close> and so on), whose answers are arbitrary or restricted by a named law, so that
  their theorems do not depend on one version of the library.

  Definitions carry the names of the C functions. A result \<open>None\<close> is undefined behaviour (an
  access outside a buffer, a dead or null pointer, an uninitialised variable) or, for the loops
  written with \<open>partial_function\<close>, not returning; so a theorem that gives a \<open>Some\<close> excludes
  both. Loops whose end is certain are structural or have a measure. No fuel is used;
  the number in \<open>run_tail\<close> is the kernel's limit on nested tail calls, and its theorem is for every limit.

  \<^bold>\<open>What the theorems show\<close>

  \<^item> End to end (below): the sender's bytes reach the receiver's callback unchanged, through the
    egress filter and the XDP program.
  \<^item> Reception: the rings are queues for any interleaving of program and kernel and across
    counter wrap-around (the locale \<open>fifo_ring\<close>, interpreted for both directions); frames have one
    owner at any time; packets are delivered in order, once, with their payload; the retry loop of
    the receive call ends. Frames of processed packets never return to the pool, and the fill ring
    can be given invalid addresses.
  \<^item> Sending: the packet on the wire is described completely, its checksum verifies (it is the
    one of RFC 1071), errors are reported; too much data overruns the packet buffer.
  \<^item> BPF programs: verdicts and memory safety for every packet; hooked connections are exactly
    the established ones.
  \<^item> Deployment: attach and detach are inverse, whatever was on the device; the commands of the
    \<open>tc\<close> deployment; the paths that leave something behind.
  \<^item> API: accept, send and close with their heap; which sequences leak or free the wrong block.
  \<^item> The library: the built-in XDP program does what its comment says; creating and deleting packet
    memory and sockets leaves no descriptor, mapping or block behind, reference counts are exact, and
    every failing path is described; the hash map refines a finite map for any sequence of calls
    and failing allocations (the locale \<open>budgeted_service\<close>); parsing netlink attributes inverts
    encoding, stays in its buffer on padded streams, and indexes only attributes inside the stream; a
    request to attach a program says what was asked, the kernel's verdict is returned and the
    socket is closed on every path.
  \<^item> Hooker and dashboards: what \<open>main\<close> leaves attached on every path, the search for the control
    group, the menus and the device choice.
  \<^item> Experiments: pings are answered with the addresses exchanged and a valid header checksum, chains of
    tail calls end, counters are exact for any interleaving; a load with pinned maps settles every pin,
    the BPF file system is prepared from any state and a second run changes nothing; the commands of
    a run, from which it follows that the ingress filter stays.

  \<^bold>\<open>Assumptions.\<close> The host is little-endian and 64-bit. Laws of the kernel are hypotheses of the
  theorems that need them: a network device holds one XDP program (\<open>kernel_link\<close>), BPF hash maps
  return what was stored while they are not full (\<open>hash_map_laws\<close>), freshly mapped rings are empty
  (\<open>fresh_rings\<close>), a mount table is finite (\<open>mount_table\<close>), a call that fails sets \<open>errno\<close>
  (\<open>reports_errors\<close>, \<open>sets_errno\<close>), ring offsets do not change (\<open>const_offsets\<close>), a netlink socket
  answers with an acknowledgement (\<open>netlink_kernel\<close>), directories and mounts behave as a tree
  (\<open>fs_kernel\<close>). The keys of a hash map are compared by an equivalence that respects their hash
  (\<open>key_laws\<close>). A call of the program sees one state of
  the kernel's ring counters. In \<open>Receive_System\<close> the kernel stores packets of at least 36 bytes;
  the XDP program only guarantees 34, and the last theorem below says what the other two lengths do.

  \<^bold>\<open>Not modelled\<close>: text printed for diagnosis and what is drawn on the screen, \<open>DumpHex\<close>; the
  ELF object loader and the BTF code of the vendored libbpf, which the program only calls; the
  commented-out perf-buffer receiver and old API; the files under \<^verbatim>\<open>util/\<close>, of which some are copies of
  code that is modelled and the others use structures that the repository no longer declares; under
  \<^verbatim>\<open>bpf_test/\<close> the programs \<^verbatim>\<open>xdp_ack.c\<close>, \<^verbatim>\<open>libbpf_ex.c\<close>, \<^verbatim>\<open>shared_map_cp.c\<close> and \<^verbatim>\<open>op_bit.c\<close>; and the
  test programs, which are not part of the layer. The threads of the hooker
  are modelled one by one, not interleaved.
\<close>

section \<open>From the sender's data to the receiver's callback\<close>

lemma ip_bytes_protocol: "ip_bytes h ! 9 = ip_p h"
  by (simp add: ip_bytes_def le16_def)

text \<open>The frame as it leaves the host: the egress filter has written the VTL header.\<close>

definition wire_frame :: "byte list \<Rightarrow> ip \<Rightarrow> byte list \<Rightarrow> byte list" where
  "wire_frame eth h data = eth @ ip_bytes h @ [30, 0] @ data"

lemma wire_frame_facts:
  assumes "length eth = 14" and "ip_p h = IPPROTO_VTL"
  shows "tf_tc_egress (eth @ vtl_packet h v data) = Some (TC_ACT_OK, wire_frame eth h data)"
    "is_vtl (wire_frame eth h data)" "length (wire_frame eth h data) = 36 + length data"
    "drop 36 (wire_frame eth h data) = data"
proof -
  have l: "length (vtlhdr_bytes v) = 2" by (simp add: vtlhdr_bytes_def)
  have p: "(eth @ ip_bytes h @ xs) ! 23 = 0xc8" for xs
    using assms ip_bytes_protocol [of h] by (simp add: nth_append length_ip_bytes IPPROTO_VTL_def)
  have "is_vtl (eth @ vtl_packet h v data)"
    using p assms(1) by (simp add: is_vtl_def vtl_packet_def length_ip_bytes KERN_IPPROTO_VTL_def)
  then show "tf_tc_egress (eth @ vtl_packet h v data) = Some (TC_ACT_OK, wire_frame eth h data)"
    using assms(1) l by (simp add: tf_tc_egress_cases vtl_packet_def length_ip_bytes wire_frame_def)
  show "is_vtl (wire_frame eth h data)"
    using p assms(1) by (simp add: is_vtl_def wire_frame_def length_ip_bytes KERN_IPPROTO_VTL_def)
  show "length (wire_frame eth h data) = 36 + length data" "drop 36 (wire_frame eth h data) = data"
    using assms(1) by (simp_all add: wire_frame_def length_ip_bytes)
qed

text \<open>The receive path on a frame that lies in the packet memory.\<close>

lemma process_frame:
  assumes "take (length f) (drop (unat addr) (buffer (umem_info x))) = f" and "36 \<le> length f" and "recv_cb rp = Some cb"
  shows "\<exists>bytes. take (length f - 36) bytes = drop 36 f \<and>
     process_packet x addr (of_nat (length f)) rp =
       map_option (\<lambda>c. (True, rp\<lparr>ctx := c\<rparr>)) (cb (ctx rp) bytes (of_nat (length f - 36)))"
proof -
  let ?buf = "buffer (umem_info x)"
  have "length f \<le> length ?buf - unat addr" using assms(1) by (metis length_drop length_take min.cobounded1)
  then have ok: "desc_ok ?buf \<lparr>desc_addr = addr, desc_len = of_nat (length f)\<rparr>"
    using assms(2) by (simp add: desc_ok_def)
  have sz: "(of_nat (length f) :: u32) - 36 = of_nat (length f - 36)" using assms(2) by (simp add: of_nat_diff)
  have "take (length f - 36) (drop (unat addr + 36) ?buf) = drop 36 f"
    using arg_cong [OF assms(1), of "drop 36"] by (simp add: drop_take add.commute)
  moreover have "deliver ?buf (Some cb) [] = Some" by (rule ext) simp
  ultimately show ?thesis
    using process_packet_deliver [OF ok, of rp] assms(3) sz
    by (intro exI [of _ "drop (unat addr + 36) ?buf"]) simp
qed

text \<open>
  C1. End to end. Take a send that meets the conditions of the adaptor (the target resolves, the
  local address is well formed, at most 65513 bytes), and follow the packet: exactly one packet
  is handed to the kernel; put behind any Ethernet header it passes the sender's egress filter,
  which accepts it; on the receiving host the XDP program redirects it to the socket of its
  queue; and wherever it lies in the packet memory of that socket, the receive path runs the
  application's callback on it once, with the sender's data as the bytes and their number as
  the length.
\<close>

theorem vtl_end_to_end:
  assumes "rv (answer env (trace w) (Sock (Getaddrinfo target))) = 0" and "inet_pton src_ip = Some src"
    and "send_ready p fl d n w" and "unat n \<le> 65513" and "heap w d = Some data"
    and "length eth = 14" and "xsks q \<noteq> None"
  shows "\<exists>ret h pkt frame dst_ip' w'.
     adaptor__send_packet env fd p vtlh iphdr target dst_ip src_ip fl d n w = Some (ret, h, dst_ip', w') \<and>
     calls w' = calls w @ [Sock (Getaddrinfo target), Sock (Sendto fd pkt (sockaddr_bytes (fill_sockaddr_in h)))] \<and>
     tf_tc_egress (eth @ pkt) = Some (TC_ACT_OK, frame) \<and> length frame = 14 + length pkt \<and>
     xdp_sock_prog xsks redirect q frame = Some (redirect q 0) \<and>
     (\<forall>x addr rp cb. take (length frame) (drop (unat addr) (buffer (umem_info x))) = frame \<longrightarrow> recv_cb rp = Some cb \<longrightarrow>
        (\<exists>bytes. take (unat n) bytes = take (unat n) data \<and>
           process_packet x addr (of_nat (length frame)) rp =
             map_option (\<lambda>c. (True, rp\<lparr>ctx := c\<rparr>)) (cb (ctx rp) bytes (of_nat (unat n)))))"
proof -
  let ?data = "take (unat n) data"
  obtain h and r :: reply and w' where s: "adaptor__send_packet env fd p vtlh iphdr target dst_ip src_ip fl d n w =
      Some (if rv r < 0 then -1 else 0, h, inet_ntop (resolved (answer env (trace w) (Sock (Getaddrinfo target)))), w')"
    "calls w' = calls w @ [Sock (Getaddrinfo target),
       Sock (Sendto fd (vtl_packet h vtlh ?data) (sockaddr_bytes (fill_sockaddr_in h)))]"
    "ip4_describes h src (resolved (answer env (trace w) (Sock (Getaddrinfo target)))) n"
    using send_packet_wire [OF assms(1-5), of vtlh fd iphdr dst_ip] unfolding Let_def by (elim exE conjE) (rule that)
  have dl: "length ?data = unat n" using assms(3,5) by (simp add: send_ready_def)
  have pp: "ip_p h = IPPROTO_VTL" using s(3) by (simp add: ip4_describes_def)
  let ?f = "wire_frame eth h ?data"
  note wf = wire_frame_facts [OF assms(6) pp]
  have len: "length ?f = 36 + unat n" "length (vtl_packet h vtlh ?data) = 22 + unat n"
    using wf(3) dl by (simp_all add: vtl_packet_def length_ip_bytes vtlhdr_bytes_def)
  have x: "xdp_sock_prog xsks redirect q ?f = Some (redirect q 0)"
    using wf(2) assms(7) len(1) by (simp add: xdp_sock_prog_cases)
  have rcv: "\<exists>bytes. take (unat n) bytes = ?data \<and> process_packet x addr (of_nat (length ?f)) rp =
      map_option (\<lambda>c. (True, rp\<lparr>ctx := c\<rparr>)) (cb (ctx rp) bytes (of_nat (unat n)))"
    if "take (length ?f) (drop (unat addr) (buffer (umem_info x))) = ?f" and "recv_cb rp = Some cb"
    for x addr and rp :: "'c vtl_recv_params" and cb
    using process_frame [OF that(1) _ that(2)] len(1) wf(4) by simp
  show ?thesis
    by (intro exI [of _ "if rv r < 0 then -1 else 0"] exI [of _ h] exI [of _ "vtl_packet h vtlh ?data"] exI [of _ ?f]
        exI [of _ "inet_ntop (resolved (answer env (trace w) (Sock (Getaddrinfo target))))"] exI [of _ w'] conjI s(1,2) wf(1) x)
      (use len rcv in auto)
qed

theorem vtl_end_to_end_witness:
  "\<exists>ret h pkt frame dst_ip' w'.
     adaptor__send_packet good_env 3 1 \<lparr>vtl_checksum = 0\<rparr> ip_zero ''host'' [] ''10.0.0.1'' 2 3 2 (send_world [104, 105]) =
       Some (ret, h, dst_ip', w') \<and>
     tf_tc_egress (replicate 14 0 @ pkt) = Some (TC_ACT_OK, frame) \<and> length frame = 14 + length pkt \<and>
     xdp_sock_prog [0 \<mapsto> 7] (\<lambda>i f. XDP_REDIRECT) 0 frame = Some XDP_REDIRECT"
proof -
  have "rv (answer good_env (trace (send_world [104, 105])) (Sock (Getaddrinfo ''host''))) = 0"
    by (simp add: good_env_simps)
  moreover have "send_ready 1 2 3 2 (send_world [104, 105])"
    by (simp add: send_ready_def send_world_def IP_MAXPACKET_def)
  moreover have "heap (send_world [104, 105]) 3 = Some [104, 105]" by (simp add: send_world_def)
  ultimately show ?thesis
    using vtl_end_to_end [where env = good_env and w = "send_world [104, 105]" and target = "''host''"
        and src_ip = "''10.0.0.1''" and src = "(10, 0, 0, 1)" and p = 1 and fl = 2 and d = 3 and n = 2
        and data = "[104, 105]" and fd = 3 and vtlh = "\<lparr>vtl_checksum = 0\<rparr>" and iphdr = ip_zero and dst_ip = "[]"
        and eth = "replicate 14 0" and xsks = "[0 \<mapsto> 7]" and q = 0 and redirect = "\<lambda>i f. XDP_REDIRECT"]
    by (simp add: pton_example) blast
qed

text \<open>
  A VTL packet too short for its own header reaches the application with a wrong length. The
  XDP program checks for the IPv4 header only, so a packet of 34 or 35 bytes that names the VTL
  protocol is redirected; the receive path then subtracts 36 from its length in 32 bits, and the
  callback is told that more than four thousand million bytes follow.
\<close>

lemma short_packet_wraps:
  assumes "length pkt = 34 \<or> length pkt = 35" and "pkt ! 23 = 200" and "xsks q \<noteq> None"
    and "desc_ok (buffer (umem_info x)) \<lparr>desc_addr = addr, desc_len = of_nat (length pkt)\<rparr>" and "recv_cb rp = Some cb"
  shows "xdp_sock_prog xsks redirect q pkt = Some (redirect q 0) \<and>
     (\<exists>bytes size. process_packet x addr (of_nat (length pkt)) rp =
        map_option (\<lambda>c. (True, rp\<lparr>ctx := c\<rparr>)) (cb (ctx rp) bytes size) \<and> 4294967294 \<le> unat size)"
proof -
  let ?d = "drop (unat addr + 36) (buffer (umem_info x))" and ?s = "of_nat (length pkt) - 36 :: u32"
  have "deliver (buffer (umem_info x)) (Some cb) [] = Some" by (rule ext) simp
  then have "process_packet x addr (of_nat (length pkt)) rp = map_option (\<lambda>c. (True, rp\<lparr>ctx := c\<rparr>)) (cb (ctx rp) ?d ?s)"
    using process_packet_deliver [OF assms(4), of rp] assms(5) by simp
  moreover have "4294967294 \<le> unat ?s" using assms(1) by (auto simp: unsigned_minus_1_eq_mask mask_eq_exp_minus_1)
  moreover have "xdp_sock_prog xsks redirect q pkt = Some (redirect q 0)"
    using assms(1-3) by (auto simp: xdp_sock_prog_cases is_vtl_def KERN_IPPROTO_VTL_def)
  ultimately show ?thesis by blast
qed

end
